(* ===== verification/Prelude.thy ===== *)
theory Prelude
  imports Main
begin

section \<open>Shared vocabulary: results, loops, lists and transition systems\<close>

text \<open>
  What every component of the development uses: fallible results (\<open>Result\<close> and the
  \<open>?\<close> operator of the Rust sources), a loop that stops at the first error, a few list
  facts, the collections the component proofs add to, and the interface of a transition
  system, from which each state machine gets its reachability invariants.
\<close>

named_theorems res_simps "evaluation of results and of the error-propagating operators"
named_theorems str_simps "facts about Rust string operations"

subsection \<open>Results and the question-mark operator\<close>

text \<open>
  \<open>Inl e\<close> is \<open>Err(e)\<close>, \<open>Inr v\<close> is \<open>Ok(v)\<close>. \<open>bind_r m f\<close> is \<open>f(m?)\<close>.
\<close>

definition bind_r :: "'e + 'a \<Rightarrow> ('a \<Rightarrow> 'e + 'b) \<Rightarrow> 'e + 'b" where
  "bind_r m f = (case m of Inl e \<Rightarrow> Inl e | Inr a \<Rightarrow> f a)"

definition is_ok :: "'e + 'a \<Rightarrow> bool" where
  "is_ok m = (case m of Inl _ \<Rightarrow> False | Inr _ \<Rightarrow> True)"

lemma bind_r_simps [simp, res_simps]:
  "bind_r (Inl e) f = Inl e"
  "bind_r (Inr a) f = f a"
  by (simp_all add: bind_r_def)

lemma is_ok_simps [simp, res_simps]:
  "is_ok (Inl e) = False"
  "is_ok (Inr a) = True"
  by (simp_all add: is_ok_def)

lemma bind_r_Inr_iff: "bind_r m f = Inr b \<longleftrightarrow> (\<exists>a. m = Inr a \<and> f a = Inr b)"
  by (cases m) auto

lemma bind_r_Inl_iff:
  "bind_r m f = Inl e \<longleftrightarrow> m = Inl e \<or> (\<exists>a. m = Inr a \<and> f a = Inl e)"
  by (cases m) auto

lemma is_ok_iff: "is_ok m \<longleftrightarrow> (\<exists>a. m = Inr a)"
  by (cases m) auto

lemma not_is_ok_iff: "\<not> is_ok m \<longleftrightarrow> (\<exists>e. m = Inl e)"
  by (cases m) auto

text \<open>A missing optional value turned into an error: \<open>ok_or_else\<close>.\<close>

definition ok_or :: "'a option \<Rightarrow> 'e \<Rightarrow> 'e + 'a" where
  "ok_or x e = (case x of None \<Rightarrow> Inl e | Some a \<Rightarrow> Inr a)"

lemma ok_or_simps [simp, res_simps]:
  "ok_or None e = Inl e"
  "ok_or (Some a) e = Inr a"
  by (simp_all add: ok_or_def)

lemma ok_or_Inr_iff: "ok_or x e = Inr a \<longleftrightarrow> x = Some a"
  by (cases x) auto

subsection \<open>Loops that stop at the first error\<close>

text \<open>\<open>for x in xs { s = f(x, s)?; }\<close>\<close>

fun fold_r :: "('a \<Rightarrow> 's \<Rightarrow> 'e + 's) \<Rightarrow> 'a list \<Rightarrow> 's \<Rightarrow> 'e + 's" where
  "fold_r f [] s = Inr s"
| "fold_r f (x # xs) s = bind_r (f x s) (fold_r f xs)"

lemma fold_r_append:
  "fold_r f (xs @ ys) s = bind_r (fold_r f xs s) (fold_r f ys)"
  by (induction xs arbitrary: s) (auto simp: bind_r_def split: sum.splits)

text \<open>The invariant rule of the loop: what every iteration keeps holds of the result.\<close>

lemma fold_r_invariant:
  assumes "fold_r f xs s = Inr t" and "P s"
    and "\<And>x u v. x \<in> set xs \<Longrightarrow> P u \<Longrightarrow> f x u = Inr v \<Longrightarrow> P v"
  shows "P t"
  using assms
proof (induction xs arbitrary: s)
  case Nil
  then show ?case by simp
next
  case (Cons x xs)
  from Cons.prems(1) obtain u where u: "f x s = Inr u" and t: "fold_r f xs u = Inr t"
    by (auto simp: bind_r_Inr_iff)
  have "P u" using Cons.prems(3) [OF _ Cons.prems(2) u] by simp
  then show ?case using Cons.prems(3) by (intro Cons.IH [OF t]) auto
qed

text \<open>A loop that succeeded ran each iteration successfully, from some state the invariant covers.\<close>

lemma fold_r_steps:
  assumes "fold_r f xs s = Inr t" and "P s" and "x \<in> set xs"
    and "\<And>y u v. y \<in> set xs \<Longrightarrow> P u \<Longrightarrow> f y u = Inr v \<Longrightarrow> P v"
  shows "\<exists>u v. P u \<and> f x u = Inr v \<and> P v"
  using assms
proof (induction xs arbitrary: s)
  case Nil
  then show ?case by simp
next
  case (Cons y ys)
  from Cons.prems(1) obtain u where u: "f y s = Inr u" and t: "fold_r f ys u = Inr t"
    by (auto simp: bind_r_Inr_iff)
  have pu: "P u" using Cons.prems(4) [OF _ Cons.prems(2) u] by simp
  show ?case
  proof (cases "x = y")
    case True
    then show ?thesis using Cons.prems(2) u pu by blast
  next
    case False
    then have "x \<in> set ys" using Cons.prems(3) by simp
    then show ?thesis using Cons.prems(4) by (intro Cons.IH [OF t pu]) auto
  qed
qed

text \<open>A loop that failed did so in one of its iterations.\<close>

lemma fold_r_Inl:
  assumes "fold_r f xs s = Inl e"
  shows "\<exists>x\<in>set xs. \<exists>u. f x u = Inl e"
  using assms by (induction xs arbitrary: s) (auto simp: bind_r_Inl_iff)

text \<open>What the iteration of one element brings about, and the others keep, holds at the end.\<close>

lemma fold_r_reaches:
  assumes "fold_r f xs s = Inr t" and "x \<in> set xs"
    and "\<And>u v. f x u = Inr v \<Longrightarrow> Q v"
    and "\<And>y u v. y \<in> set xs \<Longrightarrow> Q u \<Longrightarrow> f y u = Inr v \<Longrightarrow> Q v"
  shows "Q t"
  using assms
proof (induction xs arbitrary: s)
  case Nil
  then show ?case by simp
next
  case (Cons y ys)
  from Cons.prems(1) obtain u where u: "f y s = Inr u" and t: "fold_r f ys u = Inr t"
    by (auto simp: bind_r_Inr_iff)
  show ?case
  proof (cases "x = y")
    case True
    then have q: "Q u" using Cons.prems(3) u by simp
    show ?thesis
      by (rule fold_r_invariant [OF t, of Q]) (rule q, erule (1) Cons.prems(4) [OF list.set_intros(2)])
  next
    case False
    then have x: "x \<in> set ys" using Cons.prems(2) by simp
    show ?thesis
      by (rule Cons.IH [OF t x]) (erule Cons.prems(3), erule (1) Cons.prems(4) [OF list.set_intros(2)])
  qed
qed

text \<open>\<open>iter().map(f).collect::<Result<Vec<_>>>()\<close>, a map that stops at the first error.\<close>

fun map_r :: "('a \<Rightarrow> 'e + 'b) \<Rightarrow> 'a list \<Rightarrow> 'e + 'b list" where
  "map_r f [] = Inr []"
| "map_r f (x # xs) = bind_r (f x) (\<lambda>y. bind_r (map_r f xs) (\<lambda>ys. Inr (y # ys)))"

lemma map_r_Inr: "map_r f xs = Inr ys \<longleftrightarrow> list_all2 (\<lambda>x y. f x = Inr y) xs ys"
  by (induction xs arbitrary: ys) (auto simp: bind_r_Inr_iff list_all2_Cons1)

subsection \<open>Lists\<close>

definition update_last :: "('a \<Rightarrow> 'a) \<Rightarrow> 'a list \<Rightarrow> 'a list" where
  "update_last f xs = (case xs of [] \<Rightarrow> [] | _ \<Rightarrow> butlast xs @ [f (last xs)])"

lemma update_last_Nil [simp]: "update_last f [] = []"
  by (simp add: update_last_def)

lemma update_last_snoc [simp]: "update_last f (xs @ [x]) = xs @ [f x]"
  by (cases xs) (simp_all add: update_last_def)

lemma update_last_cases:
  assumes "xs \<noteq> []"
  obtains ys y where "xs = ys @ [y]" and "update_last f xs = ys @ [f y]"
  using assms by (metis rev_exhaust update_last_snoc)

lemma length_update_last [simp]: "length (update_last f xs) = length xs"
  by (cases xs rule: rev_cases) auto

lemma map_update_last: "(\<And>x. g (f x) = g x) \<Longrightarrow> map g (update_last f xs) = map g xs"
  by (cases xs rule: rev_cases) auto

lemma set_update_last: "x \<in> set (update_last f xs) \<Longrightarrow> x \<in> set xs \<or> (\<exists>y\<in>set xs. x = f y)"
  by (cases xs rule: rev_cases) auto

lemma find_Some_iff2: "(List.find P xs = Some x) \<Longrightarrow> x \<in> set xs \<and> P x"
  by (induction xs) (auto split: if_splits)

lemma find_None_filter: "List.find P xs = None \<longleftrightarrow> (\<forall>x\<in>set xs. \<not> P x)"
  by (induction xs) auto

text \<open>\<open>slice.windows(3)\<close>\<close>

fun windows3 :: "'a list \<Rightarrow> ('a \<times> 'a \<times> 'a) list" where
  "windows3 (a # b # c # xs) = (a, b, c) # windows3 (b # c # xs)"
| "windows3 _ = []"

subsection \<open>\<open>filter_map\<close>\<close>

lemma map_filter_Nil [simp]: "List.map_filter f [] = []"
  and map_filter_Cons: "List.map_filter f (x # xs) =
    (case f x of Some y \<Rightarrow> y # List.map_filter f xs | None \<Rightarrow> List.map_filter f xs)"
  by (simp_all add: List.map_filter_def split: option.splits)

lemma map_filter_append: "List.map_filter f (xs @ ys) = List.map_filter f xs @ List.map_filter f ys"
  by (simp add: List.map_filter_def)

lemma set_map_filter: "set (List.map_filter f xs) = {y. \<exists>x\<in>set xs. f x = Some y}"
  by (induction xs) (auto simp: map_filter_Cons split: option.splits)

subsection \<open>Transition systems\<close>

text \<open>
  A state machine is its initial states and its steps. A client of this interface gets the
  invariant rule for reachable states, proved once.
\<close>

locale transition_system =
  fixes start :: "'s \<Rightarrow> bool" and move :: "'s \<Rightarrow> 's \<Rightarrow> bool" and inv :: "'s \<Rightarrow> bool"
  assumes inv_start: "start s \<Longrightarrow> inv s"
    and inv_move: "inv s \<Longrightarrow> move s t \<Longrightarrow> inv t"
begin

lemma inv_rtranclp: "move\<^sup>*\<^sup>* s t \<Longrightarrow> inv s \<Longrightarrow> inv t"
  by (induction rule: rtranclp_induct) (auto intro: inv_move)

lemma inv_reachable: "start s \<Longrightarrow> move\<^sup>*\<^sup>* s t \<Longrightarrow> inv t"
  by (blast intro: inv_rtranclp inv_start)

end

end
