(* ===== verification/Rust_Strings.thy ===== *)
theory Rust_Strings
  imports Prelude
begin

section \<open>The Rust string operations the sources use\<close>

text \<open>
  A Rust \<open>str\<close> is the list of its characters; an Isabelle \<open>char\<close> is a code point below
  256, so the model covers text in that range. White space is the Unicode property
  \<open>White_Space\<close> on it (tab, line feed, vertical tab, form feed, carriage return, space,
  next line, no-break space), as \<open>char::is_whitespace\<close> has it. Every operation is named
  after the Rust one it stands for. Operations of the source that count bytes (\<open>len\<close>,
  slicing by byte offset) go through \<open>utf8_len\<close>: one byte below 128, two from there on.
\<close>

definition is_ws :: "char \<Rightarrow> bool" where
  "is_ws c \<longleftrightarrow> (let n = (of_char c :: nat) in (9 \<le> n \<and> n \<le> 13) \<or> n = 32 \<or> n = 133 \<or> n = 160)"

abbreviation nl :: char where "nl \<equiv> CHR 0x0A"
abbreviation cr :: char where "cr \<equiv> CHR 0x0D"
abbreviation dquote :: char where "dquote \<equiv> CHR 0x22"

lemma is_ws_chars [simp, str_simps]:
  "is_ws (CHR '' '')" "is_ws (CHR 0x0A)" "is_ws (CHR 0x0D)" "is_ws (CHR 0x09)"
  "\<not> is_ws (CHR 0x22)"
  by (simp_all add: is_ws_def)

subsection \<open>Trimming\<close>

definition trim_start_matches :: "(char \<Rightarrow> bool) \<Rightarrow> string \<Rightarrow> string" where
  "trim_start_matches p s = dropWhile p s"

definition trim_end_matches :: "(char \<Rightarrow> bool) \<Rightarrow> string \<Rightarrow> string" where
  "trim_end_matches p s = rev (dropWhile p (rev s))"

definition trim_matches :: "(char \<Rightarrow> bool) \<Rightarrow> string \<Rightarrow> string" where
  "trim_matches p s = trim_end_matches p (trim_start_matches p s)"

definition trim :: "string \<Rightarrow> string" where
  "trim s = trim_matches is_ws s"

text \<open>A string that \<open>trim\<close> leaves alone: it is empty or has no white space at its ends.\<close>

definition trimmed :: "string \<Rightarrow> bool" where
  "trimmed s \<longleftrightarrow> s = [] \<or> (\<not> is_ws (hd s) \<and> \<not> is_ws (last s))"

lemma hd_dropWhile_not: "dropWhile p s \<noteq> [] \<Longrightarrow> \<not> p (hd (dropWhile p s))"
  by (rule hd_dropWhile)

lemma trim_end_prefix: "\<exists>t. s = trim_end_matches p s @ t \<and> (\<forall>c\<in>set t. p c)"
proof -
  have "s = rev (dropWhile p (rev s)) @ rev (takeWhile p (rev s))"
    by (metis rev_append rev_rev_ident takeWhile_dropWhile_id)
  moreover have "\<forall>c\<in>set (rev (takeWhile p (rev s))). p c"
    by (auto dest: set_takeWhileD)
  ultimately show ?thesis unfolding trim_end_matches_def by blast
qed

lemma last_trim_end: "trim_end_matches p s \<noteq> [] \<Longrightarrow> \<not> p (last (trim_end_matches p s))"
  using hd_dropWhile_not [of p "rev s"] by (simp add: trim_end_matches_def last_rev)

lemma hd_trim_end: "trim_end_matches p s \<noteq> [] \<Longrightarrow> hd (trim_end_matches p s) = hd s"
  using trim_end_prefix [of s p] by (metis hd_append2)

lemma trimmed_trim [simp, str_simps]: "trimmed (trim s)"
proof (cases "trim s = []")
  case True
  then show ?thesis by (simp add: trimmed_def)
next
  case False
  let ?t = "dropWhile is_ws s"
  have eq: "trim s = trim_end_matches is_ws ?t"
    by (simp add: trim_def trim_matches_def trim_start_matches_def)
  have "?t \<noteq> []" using False eq by (metis dropWhile.simps(1) rev.simps(1) trim_end_matches_def)
  then have "\<not> is_ws (hd (trim s))"
    using False eq hd_trim_end [of is_ws ?t] hd_dropWhile_not [of is_ws s] by simp
  then show ?thesis using False eq last_trim_end [of is_ws ?t] by (simp add: trimmed_def)
qed

lemma trim_trimmed: "trimmed s \<Longrightarrow> trim s = s"
proof (cases s rule: rev_cases)
  case Nil
  then show ?thesis by (simp add: trim_def trim_matches_def trim_start_matches_def trim_end_matches_def)
next
  case (snoc t c)
  assume "trimmed s"
  then have h: "\<not> is_ws (hd s)" and l: "\<not> is_ws c" using snoc by (auto simp: trimmed_def)
  then have "dropWhile is_ws s = s" by (cases s) simp_all
  then show ?thesis
    using l snoc by (simp add: trim_def trim_matches_def trim_start_matches_def trim_end_matches_def)
qed

lemma trim_idem [simp, str_simps]: "trim (trim s) = trim s"
  by (simp add: trim_trimmed)

lemma trim_Nil [simp, str_simps]: "trim [] = []"
  by (simp add: trim_trimmed trimmed_def)

lemma trim_ws_start: "\<forall>c\<in>set a. is_ws c \<Longrightarrow> trim (a @ s) = trim s"
  by (simp add: trim_def trim_matches_def trim_start_matches_def)

lemma trim_end_ws: "\<forall>c\<in>set w. p c \<Longrightarrow> trim_end_matches p (s @ w) = trim_end_matches p s"
  using dropWhile_append2 [of "rev w" p "rev s"] by (simp add: trim_end_matches_def)

lemma trim_ws_end: "\<forall>c\<in>set w. is_ws c \<Longrightarrow> trim (s @ w) = trim s"
proof (cases "\<forall>c\<in>set s. is_ws c")
  case True
  assume "\<forall>c\<in>set w. is_ws c"
  then have "\<forall>c\<in>set (s @ w). is_ws c" using True by auto
  then show ?thesis using True trim_ws_start [of "s @ w" "[]"] trim_ws_start [of s "[]"] by simp
next
  case False
  assume w: "\<forall>c\<in>set w. is_ws c"
  have "dropWhile is_ws (s @ w) = dropWhile is_ws s @ w" using False by (auto simp: dropWhile_append)
  then show ?thesis using trim_end_ws [OF w] by (simp add: trim_def trim_matches_def trim_start_matches_def)
qed

lemma trim_trim_end: "trim (trim_end_matches is_ws s) = trim s"
  using trim_end_prefix [of s is_ws] trim_ws_end [of _ "trim_end_matches is_ws s"] by metis

text \<open>A word before white space stays; what follows it is trimmed at its end.\<close>

lemma trim_keyword:
  assumes "kw \<noteq> []" and "\<forall>c\<in>set kw. \<not> is_ws c"
  shows "\<exists>r. trim (kw @ CHR '' '' # t) = kw @ r \<and> trim r = trim t"
proof -
  let ?r = "trim_end_matches is_ws (CHR '' '' # t)"
  have hd: "\<not> is_ws (hd (kw @ CHR '' '' # t))" using assms by (cases kw) auto
  have lk: "\<not> is_ws (last kw)" using assms by (simp add: last_in_set)
  have "trim_start_matches is_ws (kw @ CHR '' '' # t) = kw @ CHR '' '' # t"
    using assms by (cases kw) (simp_all add: trim_start_matches_def)
  moreover have "trim_end_matches is_ws (kw @ CHR '' '' # t) = kw @ ?r"
  proof -
    have k: "dropWhile is_ws (rev kw) = rev kw"
      using lk assms(1) by (cases kw rule: rev_cases) simp_all
    show ?thesis
      using k by (auto simp: trim_end_matches_def dropWhile_append)
  qed
  ultimately have "trim (kw @ CHR '' '' # t) = kw @ ?r" by (simp add: trim_def trim_matches_def)
  moreover have "trim ?r = trim t"
    using trim_trim_end [of "CHR '' '' # t"] trim_ws_start [of "'' ''" t] by (simp add: is_ws_def)
  ultimately show ?thesis by blast
qed

lemma trim_eq_Nil_iff: "trim s = [] \<longleftrightarrow> (\<forall>c\<in>set s. is_ws c)"
proof
  assume e: "trim s = []"
  have "dropWhile is_ws s = []"
  proof (rule ccontr)
    assume n: "dropWhile is_ws s \<noteq> []"
    have "dropWhile is_ws (rev (dropWhile is_ws s)) = []"
      using e by (simp add: trim_def trim_matches_def trim_start_matches_def trim_end_matches_def)
    then have "\<forall>c\<in>set (rev (dropWhile is_ws s)). is_ws c"
      unfolding dropWhile_eq_Nil_conv .
    then have "is_ws (hd (dropWhile is_ws s))" using n by simp
    then show False using hd_dropWhile_not [OF n] by simp
  qed
  then show "\<forall>c\<in>set s. is_ws c" by (simp add: dropWhile_eq_Nil_conv)
next
  assume "\<forall>c\<in>set s. is_ws c"
  then show "trim s = []" using trim_ws_start [of s "[]"] by simp
qed

subsection \<open>Prefixes, searching and splitting\<close>

fun strip_prefix :: "string \<Rightarrow> string \<Rightarrow> string option" where
  "strip_prefix [] s = Some s"
| "strip_prefix (p # ps) [] = None"
| "strip_prefix (p # ps) (c # cs) = (if p = c then strip_prefix ps cs else None)"

definition starts_with :: "string \<Rightarrow> string \<Rightarrow> bool" where
  "starts_with p s \<longleftrightarrow> strip_prefix p s \<noteq> None"

definition ends_with :: "string \<Rightarrow> string \<Rightarrow> bool" where
  "ends_with p s \<longleftrightarrow> starts_with (rev p) (rev s)"

lemma strip_prefix_iff [str_simps]: "strip_prefix p s = Some r \<longleftrightarrow> s = p @ r"
  by (induction p s rule: strip_prefix.induct) auto

lemma strip_prefix_append [simp]: "strip_prefix p (p @ r) = Some r"
  by (simp add: strip_prefix_iff)

lemma starts_with_iff [str_simps]: "starts_with p s \<longleftrightarrow> (\<exists>r. s = p @ r)"
  by (auto simp: starts_with_def strip_prefix_iff)

text \<open>
  \<open>split_once pat s\<close>: what stands before and after the leftmost occurrence of \<open>pat\<close>.
  \<open>find\<close>, \<open>contains\<close>, \<open>split\<close> and \<open>replace\<close> are defined from it, for a non-empty pattern.
\<close>

fun split_once :: "string \<Rightarrow> string \<Rightarrow> (string \<times> string) option" where
  "split_once pat [] = (if pat = [] then Some ([], []) else None)"
| "split_once pat (c # cs) =
     (case strip_prefix pat (c # cs) of
        Some r \<Rightarrow> Some ([], r)
      | None \<Rightarrow> map_option (\<lambda>(a, b). (c # a, b)) (split_once pat cs))"

lemma split_once_Some: "split_once pat s = Some (a, b) \<Longrightarrow> s = a @ pat @ b"
proof (induction s arbitrary: a)
  case Nil
  then show ?case by (auto split: if_splits)
next
  case (Cons c cs)
  then show ?case
    by (auto simp: strip_prefix_iff split: option.splits)
qed

definition contains :: "string \<Rightarrow> string \<Rightarrow> bool" where
  "contains s pat \<longleftrightarrow> split_once pat s \<noteq> None"

lemma split_once_None: "split_once pat s = None \<Longrightarrow> s \<noteq> a @ pat @ b"
proof (induction s arbitrary: a)
  case Nil
  then show ?case by (auto split: if_splits)
next
  case (Cons c cs)
  from Cons.prems have n: "strip_prefix pat (c # cs) = None" and m: "split_once pat cs = None"
    by (auto split: option.splits)
  show ?case
  proof (cases a)
    case Nil
    then show ?thesis using n by (metis append_Nil option.distinct(1) strip_prefix_append)
  next
    case (Cons d a')
    then show ?thesis using Cons.IH [OF m, of a'] by auto
  qed
qed

lemma contains_iff [str_simps]: "contains s pat \<longleftrightarrow> (\<exists>a b. s = a @ pat @ b)"
proof
  assume "contains s pat"
  then show "\<exists>a b. s = a @ pat @ b" by (auto simp: contains_def dest: split_once_Some)
next
  assume "\<exists>a b. s = a @ pat @ b"
  then show "contains s pat" using split_once_None unfolding contains_def by blast
qed

function split_str :: "string \<Rightarrow> string \<Rightarrow> string list" where
  "split_str pat s =
     (case split_once pat s of
        None \<Rightarrow> [s]
      | Some (a, b) \<Rightarrow> (if pat = [] then [s] else a # split_str pat b))"
  by pat_completeness auto
termination
  by (relation "measure (\<lambda>(pat, s). length s)") (auto dest!: split_once_Some [OF sym] split_once_Some)

declare split_str.simps [simp del]

fun join :: "string \<Rightarrow> string list \<Rightarrow> string" where
  "join sep [] = []"
| "join sep [x] = x"
| "join sep (x # y # xs) = x @ sep @ join sep (y # xs)"

definition replace_str :: "string \<Rightarrow> string \<Rightarrow> string \<Rightarrow> string" where
  "replace_str s pat by_s = join by_s (split_str pat s)"

text \<open>Splitting and joining with the same separator gives the string back.\<close>

lemma split_str_not_Nil [simp]: "split_str pat s \<noteq> []"
  by (subst split_str.simps) (auto split: option.splits)

lemma join_split_str: "pat \<noteq> [] \<Longrightarrow> join pat (split_str pat s) = s"
proof (induction pat s rule: split_str.induct)
  case (1 pat s)
  show ?case
  proof (cases "split_once pat s")
    case None
    then show ?thesis by (subst split_str.simps) simp
  next
    case (Some ab)
    obtain a b where ab: "ab = (a, b)" by (cases ab)
    have eq: "split_str pat s = a # split_str pat b"
      using Some ab "1.prems" by (subst split_str.simps) simp
    obtain y ys where ys: "split_str pat b = y # ys" by (cases "split_str pat b") auto
    have "join pat (split_str pat b) = b" using "1.IH" [OF Some ab [symmetric]] "1.prems" by simp
    then have "join pat (split_str pat s) = a @ pat @ b" using eq ys by simp
    then show ?thesis using split_once_Some [of pat s a b] Some ab by simp
  qed
qed

lemma replace_str_absent: "\<not> contains s pat \<Longrightarrow> replace_str s pat r = s"
  by (cases "split_once pat s") (simp_all add: replace_str_def split_str.simps [of pat s] contains_def)

subsection \<open>Tokens and lines\<close>

text \<open>\<open>split_whitespace\<close>: the maximal runs of non-white-space characters.\<close>

fun split_ws_acc :: "string \<Rightarrow> string \<Rightarrow> string list" where
  "split_ws_acc acc [] = (if acc = [] then [] else [rev acc])"
| "split_ws_acc acc (c # cs) =
     (if is_ws c then (if acc = [] then [] else [rev acc]) @ split_ws_acc [] cs
      else split_ws_acc (c # acc) cs)"

definition split_whitespace :: "string \<Rightarrow> string list" where
  "split_whitespace s = split_ws_acc [] s"

lemma split_ws_acc_tokens:
  "\<forall>c\<in>set acc. \<not> is_ws c \<Longrightarrow> t \<in> set (split_ws_acc acc s) \<Longrightarrow> t \<noteq> [] \<and> (\<forall>c\<in>set t. \<not> is_ws c)"
proof (induction s arbitrary: acc)
  case Nil
  then show ?case by (simp split: if_splits)
next
  case (Cons c cs)
  show ?case
  proof (cases "is_ws c")
    case True
    then have "t \<in> set (split_ws_acc [] cs) \<or> (acc \<noteq> [] \<and> t = rev acc)"
      using Cons.prems(2) by (auto split: if_splits)
    then show ?thesis
    proof
      assume "t \<in> set (split_ws_acc [] cs)"
      then show ?thesis by (rule Cons.IH [of "[]", rotated]) simp
    next
      assume "acc \<noteq> [] \<and> t = rev acc"
      then show ?thesis using Cons.prems(1) by simp
    qed
  next
    case False
    have "t \<in> set (split_ws_acc (c # acc) cs)" using Cons.prems(2) False by simp
    moreover have "\<forall>d\<in>set (c # acc). \<not> is_ws d" using Cons.prems(1) False by simp
    ultimately show ?thesis by (rule Cons.IH [rotated])
  qed
qed

lemma split_whitespace_token:
  "t \<in> set (split_whitespace s) \<Longrightarrow> t \<noteq> [] \<and> (\<forall>c\<in>set t. \<not> is_ws c)"
  unfolding split_whitespace_def using split_ws_acc_tokens [of "[]" t s] by simp

lemma split_ws_acc_word:
  "\<forall>c\<in>set w. \<not> is_ws c \<Longrightarrow> split_ws_acc acc (w @ s) = split_ws_acc (rev w @ acc) s"
  by (induction w arbitrary: acc) auto

lemma split_whitespace_word:
  assumes "\<forall>c\<in>set w. \<not> is_ws c" and "w \<noteq> []"
  shows "split_whitespace (CHR '' '' # w) = [w]"
    and "split_whitespace w = [w]"
    and "split_whitespace (CHR '' '' # w @ CHR '' '' # s) = w # split_whitespace s"
  using assms split_ws_acc_word [of w "[]"  "[]"] split_ws_acc_word [of w "[]" "CHR '' '' # s"]
  by (simp_all add: split_whitespace_def)

text \<open>\<open>lines\<close>: split after each line feed, which is dropped with a carriage return before it.\<close>

definition strip_cr :: "string \<Rightarrow> string" where
  "strip_cr s = (if s \<noteq> [] \<and> last s = cr then butlast s else s)"

fun lines_acc :: "string \<Rightarrow> string \<Rightarrow> string list" where
  "lines_acc acc [] = (if acc = [] then [] else [rev acc])"
| "lines_acc acc (c # cs) =
     (if c = nl then strip_cr (rev acc) # lines_acc [] cs else lines_acc (c # acc) cs)"

definition lines :: "string \<Rightarrow> string list" where
  "lines s = lines_acc [] s"

lemma lines_acc_line:
  "nl \<notin> set l \<Longrightarrow> lines_acc acc (l @ nl # s) = strip_cr (rev acc @ l) # lines_acc [] s"
  by (induction l arbitrary: acc) auto

lemma lines_Cons:
  "nl \<notin> set l \<Longrightarrow> cr \<notin> set l \<Longrightarrow> lines (l @ nl # s) = l # lines s"
  using lines_acc_line [of l "[]" s] by (auto simp: lines_def strip_cr_def dest: last_in_set)

lemma lines_Nil [simp]: "lines [] = []"
  by (simp add: lines_def)

text \<open>Lines written out with their line feeds are read back.\<close>

lemma lines_unlines:
  "list_all (\<lambda>l. nl \<notin> set l \<and> cr \<notin> set l) ls \<Longrightarrow> lines (concat (map (\<lambda>l. l @ [nl]) ls)) = ls"
  by (induction ls) (simp_all add: lines_Cons)

subsection \<open>Numbers and sizes\<close>

text \<open>\<open>format!("{n}")\<close> for an unsigned integer.\<close>

fun show_nat :: "nat \<Rightarrow> string" where
  "show_nat n =
     (if n < 10 then [char_of (48 + n)] else show_nat (n div 10) @ [char_of (48 + n mod 10)])"

declare show_nat.simps [simp del]

definition show_int :: "int \<Rightarrow> string" where
  "show_int i = (if i < 0 then CHR ''-'' # show_nat (nat (- i)) else show_nat (nat i))"

definition show_bool :: "bool \<Rightarrow> string" where
  "show_bool b = (if b then ''true'' else ''false'')"

lemma show_nat_not_Nil [simp]: "show_nat n \<noteq> []"
  by (subst show_nat.simps) simp

text \<open>Reading the digits back: \<open>show_nat\<close> loses nothing.\<close>

definition read_nat :: "string \<Rightarrow> nat" where
  "read_nat s = foldl (\<lambda>n c. 10 * n + (of_char c - 48)) 0 s"

lemma read_show_nat: "read_nat (show_nat n) = n"
proof (induction n rule: show_nat.induct)
  case (1 n)
  show ?case
  proof (cases "n < 10")
    case True
    then show ?thesis by (subst show_nat.simps) (simp add: read_nat_def)
  next
    case False
    then have "read_nat (show_nat n) = 10 * read_nat (show_nat (n div 10)) + n mod 10"
      by (subst show_nat.simps) (simp add: read_nat_def)
    then show ?thesis using "1.IH" [OF False] by simp
  qed
qed

lemma show_nat_inject: "show_nat m = show_nat n \<Longrightarrow> m = n"
  by (metis read_show_nat)

definition utf8_len :: "string \<Rightarrow> nat" where
  "utf8_len s = sum_list (map (\<lambda>c. if (of_char c :: nat) < 128 then 1 else 2) s)"

text \<open>Is byte offset \<open>k\<close> a character boundary of \<open>s\<close>, and what follows it? \<open>None\<close>: a panic.\<close>

fun byte_drop :: "nat \<Rightarrow> string \<Rightarrow> string option" where
  "byte_drop 0 s = Some s"
| "byte_drop (Suc k) [] = None"
| "byte_drop (Suc k) (c # cs) =
     (if (of_char c :: nat) < 128 then byte_drop k cs
      else (case k of 0 \<Rightarrow> None | Suc k' \<Rightarrow> byte_drop k' cs))"

subsection \<open>Lower case\<close>

text \<open>\<open>to_lowercase\<close> on the characters of the model, which are those of Latin-1.\<close>

definition lower_char :: "char \<Rightarrow> char" where
  "lower_char c =
     (let n = (of_char c :: nat) in
      if (65 \<le> n \<and> n \<le> 90) \<or> (192 \<le> n \<and> n \<le> 222 \<and> n \<noteq> 215) then char_of (n + 32) else c)"

definition to_lower :: "string \<Rightarrow> string" where
  "to_lower s = map lower_char s"

end
