(* ===== verification/Ordered_Map.thy ===== *)
theory Ordered_Map
  imports Rust_Strings "HOL-Library.Char_ord" "HOL-Library.List_Lexorder"
begin

section \<open>BTreeMap with string keys\<close>

text \<open>
  The sources keep every string-keyed map whose iteration order matters in a
  \<open>BTreeMap<String, V>\<close>. The model is the list of its entries in key order, strings being
  ordered lexicographically as Rust orders them. The interface its clients rely on is the
  locale \<open>string_map\<close>; the interpretation at the end discharges its laws.
\<close>

type_synonym 'v btree = "(string \<times> 'v) list"

definition bt_get :: "'v btree \<Rightarrow> string \<Rightarrow> 'v option" where
  "bt_get m k = map_of m k"

definition bt_keys :: "'v btree \<Rightarrow> string list" where
  "bt_keys m = map fst m"

fun bt_insert :: "string \<Rightarrow> 'v \<Rightarrow> 'v btree \<Rightarrow> 'v btree" where
  "bt_insert k v [] = [(k, v)]"
| "bt_insert k v (e # m) =
     (if k = fst e then (k, v) # m
      else if fst e < k then e # bt_insert k v m
      else (k, v) # e # m)"

definition bt_remove :: "string \<Rightarrow> 'v btree \<Rightarrow> 'v btree" where
  "bt_remove k m = filter (\<lambda>e. fst e \<noteq> k) m"

text \<open>Keys strictly increase: what a B-tree keeps.\<close>

definition bt_ok :: "'v btree \<Rightarrow> bool" where
  "bt_ok m \<longleftrightarrow> sorted_wrt (<) (bt_keys m)"

lemma keys_bt_insert: "set (bt_keys (bt_insert k v m)) = insert k (set (bt_keys m))"
  by (induction m) (auto simp: bt_keys_def)

lemma set_bt_insert: "x \<in> set (bt_insert k v m) \<Longrightarrow> x = (k, v) \<or> x \<in> set m"
  by (induction m) (auto split: if_splits)

lemma bt_get_insert: "bt_ok m \<Longrightarrow> bt_get (bt_insert k v m) j = (if j = k then Some v else bt_get m j)"
  by (induction m) (auto simp: bt_get_def bt_ok_def bt_keys_def)

lemma bt_ok_insert: "bt_ok m \<Longrightarrow> bt_ok (bt_insert k v m)"
proof (induction m)
  case Nil
  then show ?case by (simp add: bt_ok_def bt_keys_def)
next
  case (Cons e m)
  have ok: "bt_ok m" and lt: "\<forall>x\<in>set (bt_keys m). fst e < x"
    using Cons.prems by (simp_all add: bt_ok_def bt_keys_def)
  have "bt_ok (bt_insert k v m)" using ok by (rule Cons.IH)
  then show ?case
    using Cons.prems lt keys_bt_insert [of k v m]
    by (auto simp: bt_ok_def bt_keys_def intro: less_trans)
qed

lemma bt_ok_remove: "bt_ok m \<Longrightarrow> bt_ok (bt_remove k m)"
  by (induction m) (auto simp: bt_ok_def bt_keys_def bt_remove_def)

lemma bt_get_remove: "bt_get (bt_remove k m) j = (if j = k then None else bt_get m j)"
  by (induction m) (auto simp: bt_get_def bt_remove_def)

lemma bt_ok_Nil [simp]: "bt_ok []"
  by (simp add: bt_ok_def bt_keys_def)

lemma bt_get_Nil [simp]: "bt_get [] k = None"
  by (simp add: bt_get_def)

lemma bt_get_keys: "bt_get m k \<noteq> None \<longleftrightarrow> k \<in> set (bt_keys m)"
  by (simp add: bt_get_def bt_keys_def map_of_eq_None_iff)

lemma bt_get_None_keys: "bt_get m k = None \<longleftrightarrow> k \<notin> set (bt_keys m)"
  using bt_get_keys [of m k] by blast

lemma bt_get_entry: "bt_ok m \<Longrightarrow> (k, v) \<in> set m \<longleftrightarrow> bt_get m k = Some v"
proof -
  assume "bt_ok m"
  then have "distinct (map fst m)"
    by (simp add: bt_ok_def bt_keys_def strict_sorted_iff)
  then show ?thesis by (simp add: bt_get_def)
qed

lemma bt_rev_get: "bt_ok m \<Longrightarrow> map_of (rev m) k = bt_get m k"
proof -
  assume "bt_ok m"
  then have d: "distinct (map fst m)" by (simp add: bt_ok_def bt_keys_def strict_sorted_iff)
  then have "distinct (map fst (rev m))" by (simp add: rev_map [symmetric])
  then have "map_of (rev m) k = Some v \<longleftrightarrow> map_of m k = Some v" for v
    using d by (simp add: map_of_eq_Some_iff)
  then show ?thesis unfolding bt_get_def by (metis not_None_eq)
qed

text \<open>The interface of a string-keyed map, and what a client can do with it.\<close>

locale string_map =
  fixes get :: "'m \<Rightarrow> string \<Rightarrow> 'v option"
    and ins :: "string \<Rightarrow> 'v \<Rightarrow> 'm \<Rightarrow> 'm"
    and del :: "string \<Rightarrow> 'm \<Rightarrow> 'm"
    and ok :: "'m \<Rightarrow> bool"
  assumes get_ins: "ok m \<Longrightarrow> get (ins k v m) j = (if j = k then Some v else get m j)"
    and get_del: "ok m \<Longrightarrow> get (del k m) j = (if j = k then None else get m j)"
    and ok_ins: "ok m \<Longrightarrow> ok (ins k v m)"
    and ok_del: "ok m \<Longrightarrow> ok (del k m)"
begin

text \<open>Inserting a list of entries: the last binding of a key wins, other keys keep theirs.\<close>

lemma ok_fold_ins: "ok m \<Longrightarrow> ok (fold (\<lambda>(k, v). ins k v) kvs m)"
  by (induction kvs arbitrary: m) (auto intro: ok_ins)

lemma get_fold_ins:
  "ok m \<Longrightarrow> get (fold (\<lambda>(k, v). ins k v) kvs m) j =
     (case map_of (rev kvs) j of None \<Rightarrow> get m j | Some v \<Rightarrow> Some v)"
  by (induction kvs arbitrary: m)
    (auto simp: get_ins ok_ins map_add_def split: option.splits)

lemma ok_fold_del: "ok m \<Longrightarrow> ok (fold del ks m)"
  by (induction ks arbitrary: m) (auto intro: ok_del)

lemma get_fold_del:
  "ok m \<Longrightarrow> get (fold del ks m) j = (if j \<in> set ks then None else get m j)"
  by (induction ks arbitrary: m) (auto simp: get_del ok_del)

end

interpretation bt: string_map bt_get bt_insert bt_remove bt_ok
  by unfold_locales (simp_all add: bt_get_insert bt_get_remove bt_ok_insert bt_ok_remove)

end
