(* ===== verification/Documents.thy ===== *)
theory Documents
  imports Ordered_Map Complex_Main
begin

section \<open>Decoded documents: floats, TOML, JSON and paths\<close>

text \<open>
  What the sources read through the toml and serde_json crates, as decoded values: the parsers
  themselves are parameters of the definitions that use them. \<open>f64\<close> values are rationals with
  the two infinities and NaN; the quotient of two counts is rounded to the nearest double,
  ties to even.
\<close>

datatype f64 = NaN | PInf | NInf | Fin rat

definition f64_less :: "f64 \<Rightarrow> f64 \<Rightarrow> bool" where
  "f64_less a b = (case (a, b) of
     (Fin x, Fin y) \<Rightarrow> x < y
   | (NInf, NInf) \<Rightarrow> False | (NInf, NaN) \<Rightarrow> False | (NInf, _) \<Rightarrow> True
   | (Fin _, PInf) \<Rightarrow> True
   | _ \<Rightarrow> False)"

text \<open>\<open>f64::max\<close>: a NaN is ignored.\<close>

definition f64_max :: "f64 \<Rightarrow> f64 \<Rightarrow> f64" where
  "f64_max a b = (if a = NaN then b else if b = NaN then a else if f64_less a b then b else a)"

definition round_half_even :: "nat \<Rightarrow> nat \<Rightarrow> nat" where
  "round_half_even n d =
     (let q = n div d; r = n mod d in
      if 2 * r < d then q else if d < 2 * r then q + 1 else if even q then q else q + 1)"

text \<open>The exponent that gives a quotient \<open>0 < v / t \<le> 1\<close> its 53 significant bits.\<close>

function norm_exp :: "nat \<Rightarrow> nat \<Rightarrow> nat \<Rightarrow> nat" where
  "norm_exp v t k = (if v = 0 \<or> 2 ^ 52 * t \<le> v * 2 ^ k then k else norm_exp v t (k + 1))"
  by pat_completeness auto
termination
  by (relation "measure (\<lambda>(v, t, k). 2 ^ 52 * t - v * 2 ^ k)") (auto intro!: diff_less_mono2)

declare norm_exp.simps [simp del]

text \<open>\<open>v as f64 / t as f64\<close>, for counts \<open>v \<le> t\<close> below \<open>2 ^ 53\<close>.\<close>

definition f64_quot :: "nat \<Rightarrow> nat \<Rightarrow> f64" where
  "f64_quot v t =
     (let k = norm_exp v t 52 in Fin (of_nat (round_half_even (v * 2 ^ k) t) / 2 ^ k))"

lemma norm_exp_ge: "k \<le> norm_exp v t k"
  by (induction v t k rule: norm_exp.induct) (subst norm_exp.simps, auto)

lemma round_half_even_le: "0 < d \<Longrightarrow> n \<le> m * d \<Longrightarrow> round_half_even n d \<le> m"
proof -
  assume d: "0 < d" and n: "n \<le> m * d"
  have e: "n = n div d * d + n mod d" by simp
  show "round_half_even n d \<le> m"
  proof (cases "n mod d = 0")
    case True
    then have "n div d \<le> m" using n d by (metis div_le_mono div_mult_self_is_m)
    then show ?thesis using True d by (simp add: round_half_even_def)
  next
    case False
    then have "n div d * d < m * d" using n e by linarith
    then have "n div d < m" by simp
    then show ?thesis by (simp add: round_half_even_def Let_def)
  qed
qed

lemma f64_quot_zero: "f64_quot 0 t = Fin 0"
  by (simp add: f64_quot_def round_half_even_def Let_def)

text \<open>The quotient of two counts is 1 only if they are equal: rounding does not reach it.\<close>

lemma f64_quot_self: "0 < t \<Longrightarrow> f64_quot t t = Fin 1"
proof -
  assume t: "0 < t"
  have "norm_exp t t 52 = 52" by (subst norm_exp.simps) simp
  moreover have "round_half_even (t * 2 ^ 52) t = 2 ^ 52" using t by (simp add: round_half_even_def)
  ultimately show ?thesis by (simp add: f64_quot_def)
qed

lemma f64_quot_less:
  assumes "v < t" and "t \<le> 2 ^ 53"
  shows "\<exists>q. f64_quot v t = Fin q \<and> q < 1"
proof (cases "v = 0")
  case True
  then show ?thesis by (simp add: f64_quot_zero)
next
  case False
  let ?k = "norm_exp v t 52"
  have "v * 2 ^ 52 < 2 ^ 52 * t" using assms(1) by simp
  then have "?k = norm_exp v t 53" using False by (subst norm_exp.simps) simp
  then have k: "53 \<le> ?k" using norm_exp_ge [of 53 v t] by simp
  have "(2::nat) ^ 53 \<le> 2 ^ ?k" using k by (intro power_increasing) simp_all
  then have tk: "t \<le> 2 ^ ?k" using assms(2) by linarith
  have "v * 2 ^ ?k + 2 ^ ?k \<le> t * 2 ^ ?k" using assms(1) by (metis Suc_leI add.commute mult_Suc mult_le_mono1)
  then have "v * 2 ^ ?k + t \<le> 2 ^ ?k * t" using tk by (simp add: mult.commute)
  then have "v * 2 ^ ?k \<le> (2 ^ ?k - 1) * t" by (simp add: diff_mult_distrib)
  then have "round_half_even (v * 2 ^ ?k) t \<le> 2 ^ ?k - 1"
    using round_half_even_le [of t] assms(1) by simp
  then have "round_half_even (v * 2 ^ ?k) t < 2 ^ ?k"
    by (metis One_nat_def Suc_pred le_imp_less_Suc pos2 zero_less_power)
  then have "(of_nat (round_half_even (v * 2 ^ ?k) t) :: rat) < 2 ^ ?k"
    by (metis of_nat_less_iff of_nat_numeral of_nat_power)
  then show ?thesis by (simp add: f64_quot_def Let_def)
qed

subsection \<open>TOML and JSON values\<close>

datatype toml =
    TString string
  | TInteger int
  | TFloat f64
  | TBoolean bool
  | TDatetime string
  | TArray "toml list"
  | TTable "(string \<times> toml) list"

definition toml_get :: "toml \<Rightarrow> string \<Rightarrow> toml option" where
  "toml_get v k = (case v of TTable t \<Rightarrow> bt_get t k | _ \<Rightarrow> None)"

definition as_table :: "toml \<Rightarrow> toml btree option" where
  "as_table v = (case v of TTable t \<Rightarrow> Some t | _ \<Rightarrow> None)"

definition as_str :: "toml \<Rightarrow> string option" where
  "as_str v = (case v of TString s \<Rightarrow> Some s | _ \<Rightarrow> None)"

definition as_bool :: "toml \<Rightarrow> bool option" where
  "as_bool v = (case v of TBoolean b \<Rightarrow> Some b | _ \<Rightarrow> None)"

definition as_integer :: "toml \<Rightarrow> int option" where
  "as_integer v = (case v of TInteger i \<Rightarrow> Some i | _ \<Rightarrow> None)"

definition as_float :: "toml \<Rightarrow> f64 option" where
  "as_float v = (case v of TFloat f \<Rightarrow> Some f | _ \<Rightarrow> None)"

definition as_array :: "toml \<Rightarrow> toml list option" where
  "as_array v = (case v of TArray xs \<Rightarrow> Some xs | _ \<Rightarrow> None)"

datatype json =
    JNull
  | JBool bool
  | JInt int
  | JFloat f64
  | JString string
  | JArray "json list"
  | JObject "(string \<times> json) list"

definition json_get :: "json \<Rightarrow> string \<Rightarrow> json option" where
  "json_get v k = (case v of JObject t \<Rightarrow> bt_get t k | _ \<Rightarrow> None)"

definition json_array :: "json \<Rightarrow> json list option" where
  "json_array v = (case v of JArray xs \<Rightarrow> Some xs | _ \<Rightarrow> None)"

definition json_object :: "json \<Rightarrow> json btree option" where
  "json_object v = (case v of JObject t \<Rightarrow> Some t | _ \<Rightarrow> None)"

definition json_bool :: "json \<Rightarrow> bool option" where
  "json_bool v = (case v of JBool b \<Rightarrow> Some b | _ \<Rightarrow> None)"

definition json_str :: "json \<Rightarrow> string option" where
  "json_str v = (case v of JString s \<Rightarrow> Some s | _ \<Rightarrow> None)"

text \<open>A field by index, \<open>Null\<close> where there is none; the elements of an array; an optional text.\<close>

definition json_index :: "json \<Rightarrow> string \<Rightarrow> json" where
  "json_index v k = (case json_get v k of Some x \<Rightarrow> x | None \<Rightarrow> JNull)"

definition items_of :: "json \<Rightarrow> json list" where
  "items_of v = (case json_array v of Some xs \<Rightarrow> xs | None \<Rightarrow> [])"

definition opt_value :: "string option \<Rightarrow> json" where
  "opt_value t = (case t of Some s \<Rightarrow> JString s | None \<Rightarrow> JNull)"

lemma json_value_simps:
  "json_index (JObject m) k = (case bt_get m k of Some x \<Rightarrow> x | None \<Rightarrow> JNull)"
  "json_get (JObject m) k = bt_get m k" "json_str (JString s) = Some s" "items_of (JArray xs) = xs"
  "json_bool (JBool b) = Some b" "json_object (JObject m) = Some m" "json_array (JArray xs) = Some xs"
  by (simp_all add: json_index_def json_get_def json_str_def items_of_def json_array_def json_bool_def
      json_object_def)

text \<open>Integers below \<open>2 ^ 53\<close> are exact as doubles.\<close>

definition json_f64 :: "json \<Rightarrow> f64 option" where
  "json_f64 v = (case v of JInt i \<Rightarrow> Some (Fin (of_int i)) | JFloat f \<Rightarrow> Some f | _ \<Rightarrow> None)"

subsection \<open>Names of files\<close>

text \<open>
  \<open>Path::extension\<close> of a file name: what follows its last full stop, if there is one past the
  first character.
\<close>

definition path_extension :: "string \<Rightarrow> string option" where
  "path_extension name =
     (if name = ''..'' \<or> CHR ''.'' \<notin> set name then None
      else
        let ext = rev (takeWhile (\<lambda>c. c \<noteq> CHR ''.'') (rev name)) in
        if length ext + 1 = length name then None else Some ext)"

text \<open>\<open>Path::file_stem\<close> of a file name.\<close>

definition path_stem :: "string \<Rightarrow> string" where
  "path_stem name =
     (case path_extension name of
        None \<Rightarrow> name | Some ext \<Rightarrow> take (length name - length ext - 1) name)"

lemma path_extension_append:
  "CHR ''.'' \<notin> set ext \<Longrightarrow> a \<noteq> [] \<Longrightarrow> a @ CHR ''.'' # ext \<noteq> ''..'' \<Longrightarrow>
     path_extension (a @ CHR ''.'' # ext) = Some ext"
proof -
  assume e: "CHR ''.'' \<notin> set ext" and a: "a \<noteq> []" and n: "a @ CHR ''.'' # ext \<noteq> ''..''"
  have "takeWhile (\<lambda>c. c \<noteq> CHR ''.'') (rev (a @ CHR ''.'' # ext)) = rev ext"
    using e by (simp, subst takeWhile_append2) auto
  then show ?thesis using a n by (simp add: path_extension_def Let_def)
qed

end
