(* ===== verification/Parser.thy ===== *)
theory Parser
  imports Rust_Strings
begin

section \<open>The contract parser (crates/uni-parser)\<close>

text \<open>
  The abstract syntax of a contract, the parser's loop state, and one definition per branch
  of the loop of \<open>parse\<close>, composed in the order of the source. Error messages are
  constructors carrying what the message names: the line first, then the offending text.
\<close>

subsection \<open>Abstract syntax\<close>

datatype claim_kind = Claim | Invariant

record claim =
  cl_id :: string
  cl_kind :: claim_kind
  cl_required :: bool
  cl_critical :: bool
  cl_ensure :: string
  cl_line :: nat

record verification =
  vf_claim_id :: string
  vf_verifier_ref :: string
  vf_inline_shell :: "string option"
  vf_line :: nat
  vf_requirement :: "string option"

record acceptance =
  require_verified :: bool

record contract =
  ct_version :: string
  ct_domain :: string
  ct_intent :: string
  ct_goal :: string
  ct_claims :: "claim list"
  ct_verifications :: "verification list"
  ct_acceptance :: acceptance

datatype parse_error =
    UsingWithoutVerify nat
  | VerifyNeedsBoth nat
  | ClaimNeedsId nat
  | InvariantNeedsId nat
  | UnknownModifier nat string string string string "string list"
  | EnsureWithoutClaim nat
  | VerifyNeedsClaimId nat
  | AcceptNeedsCondition nat
  | AcceptDuplicateClause nat
  | AcceptUnsupportedClause nat string
  | AcceptMissingRequired nat
  | RejectReserved nat
  | EscalateReserved nat
  | RequireNeedsExpression nat
  | RequireBeforeUsing nat
  | RequireStandalone nat
  | RequireGap nat string
  | RequireWithoutVerify nat
  | RequireDuplicate nat string
  | UnknownDirective nat string
  | MissingVersion
  | MissingDomain
  | MissingIntent
  | NoClaims
  | UnknownClaim nat string

subsection \<open>The closed vocabulary\<close>

definition DIRECTIVES :: "string list" where
  "DIRECTIVES =
     [''VERSION'', ''DOMAIN'', ''INTENT'', ''GOAL'', ''CLAIM'', ''REQUIRE'', ''ENSURE'',
      ''INVARIANT'', ''FORBID'', ''VERIFY'', ''ACCEPT'', ''REJECT'', ''ESCALATE'']"

text \<open>The end of a word: nothing follows, or white space does.\<close>

definition word_end :: "string \<Rightarrow> bool" where
  "word_end rest \<longleftrightarrow> (case rest of [] \<Rightarrow> True | c # _ \<Rightarrow> is_ws c)"

definition starts_with_directive :: "string \<Rightarrow> bool" where
  "starts_with_directive line =
     list_ex (\<lambda>d. case strip_prefix d line of None \<Rightarrow> False | Some rest \<Rightarrow> word_end rest) DIRECTIVES"

definition modifier_hint :: "string \<Rightarrow> string \<Rightarrow> string" where
  "modifier_hint m directive =
     (if m = ''CRITICAL'' \<and> directive = ''CLAIM''
      then '' (CRITICAL belongs to INVARIANT: a claim becomes critical by being declared an INVARIANT)''
      else if (m = ''REQUIRED'' \<or> m = ''OPTIONAL'') \<and> directive = ''INVARIANT''
      then '' (an INVARIANT is always required)''
      else [])"

fun validate_modifiers ::
  "string \<Rightarrow> string \<Rightarrow> string list \<Rightarrow> string list \<Rightarrow> nat \<Rightarrow> parse_error + unit" where
  "validate_modifiers directive cid [] allowed line_no = Inr ()"
| "validate_modifiers directive cid (m # ms) allowed line_no =
     (if m \<in> set allowed then validate_modifiers directive cid ms allowed line_no
      else Inl (UnknownModifier line_no directive m cid (modifier_hint m directive) allowed))"

abbreviation required_clause :: string where
  "required_clause \<equiv> ''required_claims == VERIFIED''"

abbreviation critical_clause :: string where
  "critical_clause \<equiv> ''critical_failures == 0''"

fun accept_clauses :: "nat \<Rightarrow> bool \<Rightarrow> string list \<Rightarrow> parse_error + bool" where
  "accept_clauses line_no seen_required [] = Inr seen_required"
| "accept_clauses line_no seen_required (part # parts) =
     (if part = required_clause then
        (if seen_required then Inl (AcceptDuplicateClause line_no)
         else accept_clauses line_no True parts)
      else if part = critical_clause then accept_clauses line_no seen_required parts
      else Inl (AcceptUnsupportedClause line_no part))"

definition accept_parts :: "string \<Rightarrow> string list" where
  "accept_parts text = filter (\<lambda>p. p \<noteq> []) (map trim (split_str ''AND'' text))"

definition validate_accept_condition :: "string \<Rightarrow> nat \<Rightarrow> parse_error + unit" where
  "validate_accept_condition text line_no =
     (let parts = accept_parts text in
      if parts = [] then Inl (AcceptNeedsCondition line_no)
      else bind_r (accept_clauses line_no False parts)
        (\<lambda>seen. if seen then Inr () else Inl (AcceptMissingRequired line_no)))"

subsection \<open>VERIFY ... USING ...\<close>

definition is_dquote :: "char \<Rightarrow> bool" where
  "is_dquote c \<longleftrightarrow> c = dquote"

text \<open>The verifier reference and the inline command of what follows \<open>USING\<close>.\<close>

definition using_target :: "string \<Rightarrow> string \<times> string option" where
  "using_target using_raw =
     (let shell_rest =
        (case strip_prefix ''shell'' using_raw of
           None \<Rightarrow> None
         | Some q \<Rightarrow> if word_end q then Some q else None)
      in case shell_rest of
           Some q \<Rightarrow> (''shell'', Some (trim_matches is_dquote (trim q)))
         | None \<Rightarrow>
             (case split_once [dquote] using_raw of
                None \<Rightarrow> (trim using_raw, None)
              | Some (head, quoted) \<Rightarrow> (trim head, Some (trim_end_matches is_dquote quoted))))"

definition push_verification ::
  "string \<Rightarrow> string \<Rightarrow> nat \<Rightarrow> nat \<Rightarrow> verification list \<Rightarrow> parse_error + verification list" where
  "push_verification claim_id using_raw vline line_no verifications =
     (let (verifier_ref, inline_shell) = using_target using_raw in
      if claim_id = [] \<or> verifier_ref = [] then Inl (VerifyNeedsBoth line_no)
      else Inr (verifications @
        [\<lparr>vf_claim_id = claim_id, vf_verifier_ref = verifier_ref, vf_inline_shell = inline_shell,
          vf_line = vline, vf_requirement = None\<rparr>]))"

subsection \<open>The loop state\<close>

record pstate =
  p_version :: "string option"
  p_domain :: "string option"
  p_intent :: "string option"
  p_goal :: string
  p_in_goal :: bool
  p_claims :: "claim list"
  p_verifications :: "verification list"
  p_pending_verify :: "(string \<times> nat) option"
  p_pending_forbid :: "nat option"
  p_forbid_count :: nat
  p_last_using_line :: "nat option"
  p_skip_until :: nat

definition init_pstate :: pstate where
  "init_pstate =
     \<lparr>p_version = None, p_domain = None, p_intent = None, p_goal = [], p_in_goal = False,
      p_claims = [], p_verifications = [], p_pending_verify = None, p_pending_forbid = None,
      p_forbid_count = 0, p_last_using_line = None, p_skip_until = 0\<rparr>"

subsection \<open>One branch of the loop each\<close>

definition parse_using :: "string \<Rightarrow> nat \<Rightarrow> pstate \<Rightarrow> parse_error + pstate" where
  "parse_using rest line_no st =
     (case p_pending_verify st of
        None \<Rightarrow> Inl (UsingWithoutVerify line_no)
      | Some (claim_id, vline) \<Rightarrow>
          bind_r (push_verification claim_id (trim rest) vline line_no (p_verifications st))
            (\<lambda>vs. Inr (st\<lparr>p_pending_verify := None, p_verifications := vs,
                           p_last_using_line := Some line_no\<rparr>)))"

definition push_goal :: "string \<Rightarrow> pstate \<Rightarrow> pstate" where
  "push_goal line st =
     st\<lparr>p_goal := (if p_goal st = [] then line else p_goal st @ '' '' @ line)\<rparr>"

definition push_claim :: "claim \<Rightarrow> pstate \<Rightarrow> pstate" where
  "push_claim c st = st\<lparr>p_claims := p_claims st @ [c]\<rparr>"

definition parse_claim :: "string \<Rightarrow> nat \<Rightarrow> pstate \<Rightarrow> parse_error + pstate" where
  "parse_claim rest line_no st =
     (case split_whitespace rest of
        [] \<Rightarrow> Inl (ClaimNeedsId line_no)
      | cid # mods \<Rightarrow>
          bind_r (validate_modifiers ''CLAIM'' cid mods [''REQUIRED'', ''OPTIONAL''] line_no)
            (\<lambda>_. Inr (push_claim
               \<lparr>cl_id = cid, cl_kind = Claim, cl_required = (''OPTIONAL'' \<notin> set (cid # mods)),
                cl_critical = False, cl_ensure = [], cl_line = line_no\<rparr> st)))"

definition parse_invariant :: "string \<Rightarrow> nat \<Rightarrow> pstate \<Rightarrow> parse_error + pstate" where
  "parse_invariant rest line_no st =
     (case split_whitespace rest of
        [] \<Rightarrow> Inl (InvariantNeedsId line_no)
      | cid # mods \<Rightarrow>
          bind_r (validate_modifiers ''INVARIANT'' cid mods [''CRITICAL''] line_no)
            (\<lambda>_. Inr (push_claim
               \<lparr>cl_id = cid, cl_kind = Invariant, cl_required = True,
                cl_critical = (''CRITICAL'' \<in> set (cid # mods)), cl_ensure = [],
                cl_line = line_no\<rparr> st)))"

definition parse_ensure :: "string \<Rightarrow> nat \<Rightarrow> pstate \<Rightarrow> parse_error + pstate" where
  "parse_ensure rest line_no st =
     (if p_claims st = [] then Inl (EnsureWithoutClaim line_no)
      else Inr (st\<lparr>p_claims := update_last (\<lambda>c. c\<lparr>cl_ensure := trim rest\<rparr>) (p_claims st)\<rparr>))"

definition push_forbid :: "string \<Rightarrow> nat \<Rightarrow> pstate \<Rightarrow> pstate" where
  "push_forbid expr vline st =
     push_claim
       \<lparr>cl_id = ''forbid-'' @ show_nat (p_forbid_count st + 1), cl_kind = Invariant,
        cl_required = True, cl_critical = True, cl_ensure = ''FORBID '' @ expr,
        cl_line = vline\<rparr>
       (st\<lparr>p_forbid_count := p_forbid_count st + 1\<rparr>)"

definition parse_verify :: "string \<Rightarrow> nat \<Rightarrow> pstate \<Rightarrow> parse_error + pstate" where
  "parse_verify rest line_no st =
     (let parts = trim rest in
      case split_once ''USING'' parts of
        Some (claim_part, using_part) \<Rightarrow>
          bind_r (push_verification (trim claim_part) (trim using_part) line_no line_no
                    (p_verifications st))
            (\<lambda>vs. Inr (st\<lparr>p_verifications := vs, p_last_using_line := Some line_no\<rparr>))
      | None \<Rightarrow>
          if parts = [] then Inl (VerifyNeedsClaimId line_no)
          else Inr (st\<lparr>p_pending_verify := Some (parts, line_no)\<rparr>))"

text \<open>The lines an \<open>ACCEPT WHEN\<close> takes with it, and how many they are.\<close>

definition accept_continues :: "string \<Rightarrow> bool" where
  "accept_continues nx \<longleftrightarrow>
     starts_with ''required_claims'' nx \<or> starts_with ''critical_failures'' nx \<or>
     starts_with ''AND '' nx \<or> nx = ''AND''"

fun accept_lookahead :: "string \<Rightarrow> string list \<Rightarrow> string \<times> nat" where
  "accept_lookahead text [] = (text, 0)"
| "accept_lookahead text (raw # raws) =
     (let nx = trim raw in
      if accept_continues nx then
        (let (t, n) = accept_lookahead ((if text = [] then [] else text @ '' '') @ nx) raws
         in (t, Suc n))
      else (text, 0))"

definition parse_accept :: "string list \<Rightarrow> nat \<Rightarrow> string \<Rightarrow> nat \<Rightarrow> pstate \<Rightarrow> parse_error + pstate" where
  "parse_accept raw_lines idx rest line_no st =
     (let (text, n) = accept_lookahead (trim rest) (drop (idx + 1) raw_lines) in
      bind_r (validate_accept_condition text line_no)
        (\<lambda>_. Inr (st\<lparr>p_skip_until := idx + 1 + n\<rparr>)))"

definition blank_or_comment :: "string \<Rightarrow> bool" where
  "blank_or_comment line \<longleftrightarrow> line = [] \<or> starts_with ''#'' line"

definition parse_require :: "string list \<Rightarrow> nat \<Rightarrow> string \<Rightarrow> nat \<Rightarrow> pstate \<Rightarrow> parse_error + pstate" where
  "parse_require raw_lines idx rest line_no st =
     (let expr = trim rest in
      if expr = [] then Inl (RequireNeedsExpression line_no)
      else if p_pending_verify st \<noteq> None then Inl (RequireBeforeUsing line_no)
      else
        bind_r (ok_or (p_last_using_line st) (RequireStandalone line_no)) (\<lambda>vline.
          case List.find (\<lambda>gap. \<not> blank_or_comment gap)
                 (map trim (take (line_no - 1 - vline) (drop vline raw_lines))) of
            Some gap \<Rightarrow> Inl (RequireGap line_no gap)
          | None \<Rightarrow>
              (if p_verifications st = [] then Inl (RequireWithoutVerify line_no)
               else
                 let target = last (p_verifications st) in
                 if vf_requirement target \<noteq> None
                 then Inl (RequireDuplicate line_no (vf_claim_id target))
                 else Inr (st\<lparr>p_verifications :=
                        update_last (\<lambda>v. v\<lparr>vf_requirement := Some expr\<rparr>) (p_verifications st)\<rparr>))))"

subsection \<open>The dispatch, in the order of the source\<close>

text \<open>
  The directives after \<open>FORBID\<close>: reached only when no bare \<open>FORBID\<close> waits for its
  expression.
\<close>

definition parse_tail :: "string list \<Rightarrow> nat \<Rightarrow> string \<Rightarrow> nat \<Rightarrow> pstate \<Rightarrow> parse_error + pstate" where
  "parse_tail raw_lines idx line line_no st =
     (case strip_prefix ''VERIFY'' line of
        Some rest \<Rightarrow> parse_verify rest line_no st
      | None \<Rightarrow>
     (case strip_prefix ''ACCEPT WHEN'' line of
        Some rest \<Rightarrow> parse_accept raw_lines idx rest line_no st
      | None \<Rightarrow>
        if starts_with ''REJECT WHEN'' line then Inl (RejectReserved line_no)
        else if starts_with ''ESCALATE WHEN'' line then Inl (EscalateReserved line_no)
        else
     (case strip_prefix ''REQUIRE'' line of
        Some rest \<Rightarrow> parse_require raw_lines idx rest line_no st
      | None \<Rightarrow> Inl (UnknownDirective line_no line))))"

definition parse_forbids :: "string list \<Rightarrow> nat \<Rightarrow> string \<Rightarrow> nat \<Rightarrow> pstate \<Rightarrow> parse_error + pstate" where
  "parse_forbids raw_lines idx line line_no st =
     (if starts_with ''FORBID'' line \<and> trim line \<noteq> ''FORBID'' then
        Inr (push_forbid (trim (drop (length ''FORBID'') line)) line_no st)
      else if line = ''FORBID'' then Inr (st\<lparr>p_pending_forbid := Some line_no\<rparr>)
      else
        case p_pending_forbid st of
          Some vline \<Rightarrow> Inr (push_forbid line vline (st\<lparr>p_pending_forbid := None\<rparr>))
        | None \<Rightarrow> parse_tail raw_lines idx line line_no st)"

definition parse_claims :: "string list \<Rightarrow> nat \<Rightarrow> string \<Rightarrow> nat \<Rightarrow> pstate \<Rightarrow> parse_error + pstate" where
  "parse_claims raw_lines idx line line_no st =
     (case strip_prefix ''CLAIM'' line of
        Some rest \<Rightarrow> parse_claim rest line_no st
      | None \<Rightarrow>
     (case strip_prefix ''INVARIANT'' line of
        Some rest \<Rightarrow> parse_invariant rest line_no st
      | None \<Rightarrow>
     (case strip_prefix ''ENSURE'' line of
        Some rest \<Rightarrow> parse_ensure rest line_no st
      | None \<Rightarrow> parse_forbids raw_lines idx line line_no st)))"

definition parse_goal :: "string list \<Rightarrow> nat \<Rightarrow> string \<Rightarrow> nat \<Rightarrow> pstate \<Rightarrow> parse_error + pstate" where
  "parse_goal raw_lines idx line line_no st =
     (if line = ''GOAL'' then Inr (st\<lparr>p_in_goal := True\<rparr>)
      else if p_in_goal st \<and> \<not> starts_with_directive line then Inr (push_goal line st)
      else parse_claims raw_lines idx line line_no (st\<lparr>p_in_goal := False\<rparr>))"

definition parse_header :: "string list \<Rightarrow> nat \<Rightarrow> string \<Rightarrow> nat \<Rightarrow> pstate \<Rightarrow> parse_error + pstate" where
  "parse_header raw_lines idx line line_no st =
     (case strip_prefix ''VERSION'' line of
        Some rest \<Rightarrow> Inr (st\<lparr>p_version := Some (trim rest), p_in_goal := False\<rparr>)
      | None \<Rightarrow>
     (case strip_prefix ''DOMAIN'' line of
        Some rest \<Rightarrow> Inr (st\<lparr>p_domain := Some (trim rest), p_in_goal := False\<rparr>)
      | None \<Rightarrow>
     (case strip_prefix ''INTENT'' line of
        Some rest \<Rightarrow> Inr (st\<lparr>p_intent := Some (trim rest), p_in_goal := False\<rparr>)
      | None \<Rightarrow> parse_goal raw_lines idx line line_no st)))"

definition parse_line :: "string list \<Rightarrow> nat \<Rightarrow> pstate \<Rightarrow> parse_error + pstate" where
  "parse_line raw_lines idx st =
     (if idx < p_skip_until st then Inr st
      else
        let line_no = idx + 1; line = trim (raw_lines ! idx) in
        case strip_prefix ''USING'' line of
          Some rest \<Rightarrow> parse_using rest line_no st
        | None \<Rightarrow>
            if blank_or_comment line then
              Inr (if p_in_goal st \<and> line = [] then st\<lparr>p_in_goal := False\<rparr> else st)
            else parse_header raw_lines idx line line_no st)"

subsection \<open>The whole parser\<close>

fun link_check :: "claim list \<Rightarrow> verification list \<Rightarrow> parse_error + unit" where
  "link_check claims [] = Inr ()"
| "link_check claims (v # vs) =
     (if list_ex (\<lambda>c. cl_id c = vf_claim_id v) claims then link_check claims vs
      else Inl (UnknownClaim (vf_line v) (vf_claim_id v)))"

definition parse_finish :: "pstate \<Rightarrow> parse_error + contract" where
  "parse_finish st =
     bind_r (ok_or (p_version st) MissingVersion) (\<lambda>version.
     bind_r (ok_or (p_domain st) MissingDomain) (\<lambda>domain.
     bind_r (ok_or (p_intent st) MissingIntent) (\<lambda>intent.
       if p_claims st = [] then Inl NoClaims
       else bind_r (link_check (p_claims st) (p_verifications st)) (\<lambda>_.
         Inr \<lparr>ct_version = version, ct_domain = domain, ct_intent = intent,
              ct_goal = p_goal st, ct_claims = p_claims st,
              ct_verifications = p_verifications st,
              ct_acceptance = \<lparr>require_verified = True\<rparr>\<rparr>))))"

definition parse_lines :: "string list \<Rightarrow> parse_error + pstate" where
  "parse_lines raw_lines = fold_r (parse_line raw_lines) [0..<length raw_lines] init_pstate"

definition parse :: "string \<Rightarrow> parse_error + contract" where
  "parse source = bind_r (parse_lines (lines source)) parse_finish"

end
