(* ===== verification/Parser_Facts.thy ===== *)
theory Parser_Facts
  imports Parser
begin

section \<open>What the parser guarantees\<close>

text \<open>
  The loop invariant of \<open>parse\<close> and its preservation by each branch, and the properties that
  rest on it: every parsed contract is well formed, reserved clauses are never inert, the
  acceptance clause has the one supported meaning, and an inline command needs the word
  \<open>shell\<close>.
\<close>

subsection \<open>Characters of tokens and numbers\<close>

lemma show_nat_no_ws: "c \<in> set (show_nat n) \<Longrightarrow> \<not> is_ws c"
proof (induction n rule: show_nat.induct)
  case (1 n)
  have d: "\<not> is_ws (char_of (48 + k))" if "k < 10" for k :: nat
    using that by (simp add: is_ws_def)
  show ?case
  proof (cases "n < 10")
    case True
    then have "c = char_of (48 + n)" using "1.prems" by (subst (asm) show_nat.simps) simp
    then show ?thesis using d True by simp
  next
    case False
    then have "c \<in> set (show_nat (n div 10)) \<or> c = char_of (48 + n mod 10)"
      using "1.prems" by (subst (asm) show_nat.simps) auto
    then show ?thesis using "1.IH" [OF False] d [of "n mod 10"] by auto
  qed
qed

subsection \<open>The invariant\<close>

definition token :: "string \<Rightarrow> bool" where
  "token s \<longleftrightarrow> s \<noteq> [] \<and> (\<forall>c\<in>set s. \<not> is_ws c)"

definition claim_ok :: "nat \<Rightarrow> claim \<Rightarrow> bool" where
  "claim_ok n c \<longleftrightarrow> token (cl_id c) \<and> 1 \<le> cl_line c \<and> cl_line c \<le> n \<and>
     (cl_kind c = Claim \<longrightarrow> \<not> cl_critical c) \<and> (cl_kind c = Invariant \<longrightarrow> cl_required c)"

definition verif_ok :: "nat \<Rightarrow> verification \<Rightarrow> bool" where
  "verif_ok n v \<longleftrightarrow> vf_claim_id v \<noteq> [] \<and> vf_verifier_ref v \<noteq> [] \<and>
     1 \<le> vf_line v \<and> vf_line v \<le> n \<and>
     (vf_verifier_ref v = ''shell'' \<longrightarrow> vf_inline_shell v \<noteq> None) \<and>
     (\<forall>r. vf_requirement v = Some r \<longrightarrow> r \<noteq> [] \<and> trimmed r)"

definition pst_ok :: "nat \<Rightarrow> pstate \<Rightarrow> bool" where
  "pst_ok n st \<longleftrightarrow> list_all (claim_ok n) (p_claims st) \<and> list_all (verif_ok n) (p_verifications st) \<and>
     (\<forall>i l. p_pending_verify st = Some (i, l) \<longrightarrow> i \<noteq> [] \<and> 1 \<le> l \<and> l \<le> n) \<and>
     (\<forall>l. p_pending_forbid st = Some l \<longrightarrow> 1 \<le> l \<and> l \<le> n)"

lemma split_whitespace_head: "split_whitespace s = t # ts \<Longrightarrow> token t"
  using split_whitespace_token [of t s] by (simp add: token_def)

lemma token_forbid: "token (''forbid-'' @ show_nat k)"
  using show_nat_no_ws by (auto simp: token_def is_ws_def)

lemma pst_ok_init: "pst_ok n init_pstate"
  by (simp add: pst_ok_def init_pstate_def)

lemma pst_ok_push_claim: "pst_ok n st \<Longrightarrow> claim_ok n c \<Longrightarrow> pst_ok n (push_claim c st)"
  by (simp add: pst_ok_def push_claim_def)

lemma pst_ok_push_forbid:
  "pst_ok n st \<Longrightarrow> 1 \<le> l \<Longrightarrow> l \<le> n \<Longrightarrow> pst_ok n (push_forbid e l st)"
  unfolding push_forbid_def
  by (rule pst_ok_push_claim)
    (auto simp: pst_ok_def claim_ok_def token_forbid simp del: append.simps)

lemma pst_ok_frame:
  assumes "pst_ok n st"
  shows "pst_ok n (st\<lparr>p_version := v\<rparr>)" "pst_ok n (st\<lparr>p_domain := v\<rparr>)"
    "pst_ok n (st\<lparr>p_intent := v\<rparr>)" "pst_ok n (st\<lparr>p_goal := g\<rparr>)"
    "pst_ok n (st\<lparr>p_in_goal := b\<rparr>)" "pst_ok n (st\<lparr>p_last_using_line := u\<rparr>)"
    "pst_ok n (st\<lparr>p_skip_until := k\<rparr>)" "pst_ok n (st\<lparr>p_pending_verify := None\<rparr>)"
    "pst_ok n (st\<lparr>p_pending_forbid := None\<rparr>)"
  using assms by (simp_all add: pst_ok_def)

text \<open>A \<open>shell\<close> reference that is not the inline form still carries a quoted command.\<close>

lemma using_target_shell:
  assumes "using_target r = (ref, inline)" and "trimmed r" and "ref = ''shell''"
  shows "inline \<noteq> None"
proof (cases "strip_prefix ''shell'' r")
  case None
  then have "r \<noteq> ''shell''" using strip_prefix_append [of "''shell''" "[]"] by auto
  then show ?thesis
    using assms None trim_trimmed [of r]
    by (auto simp: using_target_def Let_def split: option.splits prod.splits)
next
  case (Some q)
  show ?thesis
  proof (cases "word_end q")
    case True
    then show ?thesis using assms Some by (auto simp: using_target_def Let_def)
  next
    case False
    then have "r \<noteq> ''shell''" using Some by (auto simp: strip_prefix_iff word_end_def)
    then show ?thesis
      using assms Some False trim_trimmed [of r]
      by (auto simp: using_target_def Let_def split: option.splits prod.splits)
  qed
qed

lemma push_verification_ok:
  assumes "push_verification i r vl ln vs = Inr vs'" and "trimmed r"
    and "list_all (verif_ok n) vs" and "1 \<le> vl" and "vl \<le> n"
  shows "list_all (verif_ok n) vs'"
  using assms using_target_shell [of r]
  by (auto simp: push_verification_def verif_ok_def split: prod.splits if_splits)

subsection \<open>Each branch keeps the invariant\<close>

lemma parse_using_ok:
  assumes "parse_using rest ln st = Inr st'" and "pst_ok n st" and "1 \<le> ln" and "ln \<le> n"
  shows "pst_ok n st'"
proof -
  obtain i vl where p: "p_pending_verify st = Some (i, vl)"
    using assms(1) by (cases "p_pending_verify st") (auto simp: parse_using_def)
  with assms(1) obtain vs where
    vs: "push_verification i (trim rest) vl ln (p_verifications st) = Inr vs"
    and st': "st' = st\<lparr>p_pending_verify := None, p_verifications := vs,
                       p_last_using_line := Some ln\<rparr>"
    by (auto simp: parse_using_def bind_r_Inr_iff)
  have "list_all (verif_ok n) vs"
    using push_verification_ok [OF vs, of n] assms(2) p by (simp add: pst_ok_def)
  then show ?thesis using assms(2) st' by (simp add: pst_ok_def)
qed

lemma parse_claim_ok:
  "parse_claim rest ln st = Inr st' \<Longrightarrow> pst_ok n st \<Longrightarrow> 1 \<le> ln \<Longrightarrow> ln \<le> n \<Longrightarrow> pst_ok n st'"
  by (auto simp: parse_claim_def bind_r_Inr_iff claim_ok_def split_whitespace_head
      intro!: pst_ok_push_claim split: list.splits)

lemma parse_invariant_ok:
  "parse_invariant rest ln st = Inr st' \<Longrightarrow> pst_ok n st \<Longrightarrow> 1 \<le> ln \<Longrightarrow> ln \<le> n \<Longrightarrow> pst_ok n st'"
  by (auto simp: parse_invariant_def bind_r_Inr_iff claim_ok_def split_whitespace_head
      intro!: pst_ok_push_claim split: list.splits)

lemma list_all_update_last:
  "list_all P xs \<Longrightarrow> (\<And>x. P x \<Longrightarrow> P (f x)) \<Longrightarrow> list_all P (update_last f xs)"
  by (auto simp: list_all_iff dest: set_update_last)

lemma parse_ensure_ok:
  "parse_ensure rest ln st = Inr st' \<Longrightarrow> pst_ok n st \<Longrightarrow> pst_ok n st'"
  by (auto simp: parse_ensure_def pst_ok_def claim_ok_def
      intro!: list_all_update_last split: if_splits)

lemma parse_verify_ok:
  assumes "parse_verify rest ln st = Inr st'" and "pst_ok n st" and "1 \<le> ln" and "ln \<le> n"
  shows "pst_ok n st'"
proof (cases "split_once ''USING'' (trim rest)")
  case None
  then show ?thesis
    using assms by (auto simp: parse_verify_def Let_def pst_ok_def split: if_splits)
next
  case (Some ab)
  then obtain a b vs where ab: "split_once ''USING'' (trim rest) = Some (a, b)"
    and vs: "push_verification (trim a) (trim b) ln ln (p_verifications st) = Inr vs"
    and st': "st' = st\<lparr>p_verifications := vs, p_last_using_line := Some ln\<rparr>"
    using assms(1) by (cases ab) (auto simp: parse_verify_def bind_r_Inr_iff)
  have "list_all (verif_ok n) vs"
    using push_verification_ok [OF vs, of n] assms by (simp add: pst_ok_def)
  then show ?thesis using assms(2) st' by (simp add: pst_ok_def)
qed

lemma parse_accept_frame:
  "parse_accept raw idx rest ln st = Inr st' \<Longrightarrow> \<exists>k. st' = st\<lparr>p_skip_until := k\<rparr>"
  by (auto simp: parse_accept_def bind_r_Inr_iff split: prod.splits)

lemma parse_require_ok:
  assumes "parse_require raw idx rest ln st = Inr st'" and "pst_ok n st"
  shows "pst_ok n st'"
proof -
  have "trim rest \<noteq> []" and
    st': "st' = st\<lparr>p_verifications :=
            update_last (\<lambda>v. v\<lparr>vf_requirement := Some (trim rest)\<rparr>) (p_verifications st)\<rparr>"
    using assms(1)
    by (auto simp: parse_require_def Let_def bind_r_Inr_iff split: if_splits option.splits)
  moreover have "verif_ok n (v\<lparr>vf_requirement := Some (trim rest)\<rparr>)" if "verif_ok n v" for v
    using that calculation(1) by (simp add: verif_ok_def)
  ultimately show ?thesis
    using assms(2) by (auto simp: pst_ok_def intro!: list_all_update_last)
qed

lemma parse_tail_ok:
  "parse_tail raw idx line ln st = Inr st' \<Longrightarrow> pst_ok n st \<Longrightarrow> 1 \<le> ln \<Longrightarrow> ln \<le> n \<Longrightarrow> pst_ok n st'"
  unfolding parse_tail_def
  by (auto dest: parse_verify_ok parse_accept_frame parse_require_ok pst_ok_frame
      split: option.splits if_splits)

lemma parse_forbids_ok:
  "parse_forbids raw idx line ln st = Inr st' \<Longrightarrow> pst_ok n st \<Longrightarrow> 1 \<le> ln \<Longrightarrow> ln \<le> n \<Longrightarrow> pst_ok n st'"
  unfolding parse_forbids_def
  by (auto simp: pst_ok_def [of n "st\<lparr>p_pending_forbid := Some ln\<rparr>"]
      intro!: pst_ok_push_forbid pst_ok_frame dest: parse_tail_ok
      split: option.splits if_splits) (auto simp: pst_ok_def)

lemma parse_header_ok:
  "parse_header raw idx line ln st = Inr st' \<Longrightarrow> pst_ok n st \<Longrightarrow> 1 \<le> ln \<Longrightarrow> ln \<le> n \<Longrightarrow> pst_ok n st'"
  unfolding parse_header_def parse_goal_def parse_claims_def push_goal_def
  by (auto intro: pst_ok_frame parse_claim_ok parse_invariant_ok parse_ensure_ok
      parse_forbids_ok split: option.splits if_splits)

lemma parse_line_ok:
  assumes "parse_line raw idx st = Inr st'" and "pst_ok (length raw) st" and "idx < length raw"
  shows "pst_ok (length raw) st'"
  using assms parse_using_ok [of _ "idx + 1" st st' "length raw"]
    parse_header_ok [of raw idx _ "idx + 1" st st' "length raw"]
  by (auto simp: parse_line_def Let_def intro: pst_ok_frame split: option.splits if_splits)

lemma parse_lines_ok: "parse_lines raw = Inr st \<Longrightarrow> pst_ok (length raw) st"
  unfolding parse_lines_def
  by (erule fold_r_invariant [where P = "pst_ok (length raw)"]) (auto intro: pst_ok_init parse_line_ok)

subsection \<open>Every parsed contract is well formed\<close>

definition contract_ok :: "nat \<Rightarrow> contract \<Rightarrow> bool" where
  "contract_ok n c \<longleftrightarrow>
     ct_claims c \<noteq> [] \<and> list_all (claim_ok n) (ct_claims c) \<and>
     list_all (verif_ok n) (ct_verifications c) \<and>
     list_all (\<lambda>v. vf_claim_id v \<in> cl_id ` set (ct_claims c)) (ct_verifications c) \<and>
     require_verified (ct_acceptance c)"

lemma link_check_Inr:
  "link_check cs vs = Inr () \<longleftrightarrow> list_all (\<lambda>v. vf_claim_id v \<in> cl_id ` set cs) vs"
proof (induction vs)
  case (Cons v vs)
  have "list_ex (\<lambda>c. cl_id c = vf_claim_id v) cs \<longleftrightarrow> vf_claim_id v \<in> cl_id ` set cs"
    by (force simp: list_ex_iff)
  then show ?case using Cons.IH by simp
qed simp

lemma parse_finish_ok: "parse_finish st = Inr c \<Longrightarrow> pst_ok n st \<Longrightarrow> contract_ok n c"
  by (auto simp: parse_finish_def bind_r_Inr_iff contract_ok_def pst_ok_def link_check_Inr
      split: if_splits)

text \<open>
  C18. A contract that parses is well formed: it has a claim; every claim id is a single
  token, a plain CLAIM is never critical, an INVARIANT or FORBID is always required; every
  VERIFY names a declared claim and a verifier, a \<open>shell\<close> verifier carries its command, a
  REQUIRE is a non-empty trimmed expression; and every recorded line is a line of the source.
\<close>

theorem parse_well_formed: "parse s = Inr c \<Longrightarrow> contract_ok (length (lines s)) c"
  by (auto simp: parse_def bind_r_Inr_iff dest: parse_lines_ok parse_finish_ok)

definition demo_source :: string where
  "demo_source = join [nl]
     [''VERSION 0.1'', ''DOMAIN d'', ''INTENT i'', ''CLAIM a'', ''VERIFY a'', '' USING k'']"

definition demo_contract :: contract where
  "demo_contract =
     \<lparr>ct_version = ''0.1'', ct_domain = ''d'', ct_intent = ''i'', ct_goal = [],
      ct_claims = [\<lparr>cl_id = ''a'', cl_kind = Claim, cl_required = True, cl_critical = False,
                    cl_ensure = [], cl_line = 4\<rparr>],
      ct_verifications = [\<lparr>vf_claim_id = ''a'', vf_verifier_ref = ''k'',
                           vf_inline_shell = None, vf_line = 5, vf_requirement = None\<rparr>],
      ct_acceptance = \<lparr>require_verified = True\<rparr>\<rparr>"

lemma parse_demo: "parse demo_source = Inr demo_contract"
  by code_simp

theorem parse_well_formed_witness: "contract_ok (length (lines demo_source)) demo_contract"
  by (rule parse_well_formed [OF parse_demo])

subsection \<open>Reserved clauses\<close>

definition reserved :: "string \<Rightarrow> bool" where
  "reserved line \<longleftrightarrow> starts_with ''REJECT WHEN'' line \<or> starts_with ''ESCALATE WHEN'' line"

definition free_of_bare_forbid :: "string list \<Rightarrow> bool" where
  "free_of_bare_forbid raw \<longleftrightarrow> list_all (\<lambda>l. trim l \<noteq> ''FORBID'') raw"

lemma reserved_no_continue: "reserved l \<Longrightarrow> \<not> accept_continues l"
  by (auto simp: reserved_def accept_continues_def starts_with_iff)

lemma accept_lookahead_skips:
  "accept_lookahead t raws = (t', n) \<Longrightarrow> k < length raws \<Longrightarrow> \<not> accept_continues (trim (raws ! k)) \<Longrightarrow> n \<le> k"
proof (induction raws arbitrary: t t' n k)
  case Nil
  then show ?case by simp
next
  case (Cons r raws)
  show ?case
  proof (cases "accept_continues (trim r)")
    case False
    then show ?thesis using Cons.prems(1) by (simp add: Let_def)
  next
    case True
    then obtain m where m: "n = Suc m"
      and rec: "accept_lookahead ((if t = [] then [] else t @ '' '') @ trim r) raws = (t', m)"
      using Cons.prems(1) by (auto simp: Let_def split: prod.splits)
    obtain j where j: "k = Suc j" using True Cons.prems(3) by (cases k) auto
    then show ?thesis using Cons.IH [OF rec, of j] Cons.prems m by simp
  qed
qed

text \<open>A branch neither leaves a bare FORBID waiting nor skips past line \<open>k\<close>.\<close>

definition reaches :: "nat \<Rightarrow> pstate \<Rightarrow> bool" where
  "reaches k st \<longleftrightarrow> p_pending_forbid st = None \<and> p_skip_until st \<le> k"

lemma reaches_push [simp]:
  "reaches k (push_claim c st) = reaches k st"
  "reaches k (push_forbid e l st) = reaches k st"
  by (simp_all add: reaches_def push_claim_def push_forbid_def)

lemma reaches_frame [simp]:
  "reaches k (st\<lparr>p_version := v\<rparr>) = reaches k st" "reaches k (st\<lparr>p_domain := v\<rparr>) = reaches k st"
  "reaches k (st\<lparr>p_intent := v\<rparr>) = reaches k st" "reaches k (st\<lparr>p_goal := g\<rparr>) = reaches k st"
  "reaches k (st\<lparr>p_in_goal := b\<rparr>) = reaches k st"
  "reaches k (st\<lparr>p_claims := cs\<rparr>) = reaches k st"
  "reaches k (st\<lparr>p_verifications := vs\<rparr>) = reaches k st"
  "reaches k (st\<lparr>p_last_using_line := u\<rparr>) = reaches k st"
  "reaches k (st\<lparr>p_pending_verify := pv\<rparr>) = reaches k st"
  "reaches k st \<Longrightarrow> reaches k (st\<lparr>p_pending_forbid := None\<rparr>)"
  by (simp_all add: reaches_def)

lemma parse_accept_reaches:
  assumes "parse_accept raw idx rest ln st = Inr st'" and "idx < k" and "k < length raw"
    and "\<not> accept_continues (trim (raw ! k))" and "reaches k st"
  shows "reaches k st'"
proof -
  obtain t n where l: "accept_lookahead (trim rest) (drop (idx + 1) raw) = (t, n)"
    and st': "st' = st\<lparr>p_skip_until := idx + 1 + n\<rparr>"
    using assms(1) by (auto simp: parse_accept_def bind_r_Inr_iff split: prod.splits)
  have "n \<le> k - (idx + 1)"
    using accept_lookahead_skips [OF l, of "k - (idx + 1)"] assms(2-4) by simp
  then show ?thesis using assms(2,5) st' by (simp add: reaches_def)
qed

lemma parse_line_reaches:
  assumes "parse_line raw idx st = Inr st'" and "idx < k" and "k < length raw"
    and "\<not> accept_continues (trim (raw ! k))" and "free_of_bare_forbid raw" and "reaches k st"
  shows "reaches k st'"
proof -
  have nf: "trim (raw ! idx) \<noteq> ''FORBID''"
    using assms(2,3,5) by (simp add: free_of_bare_forbid_def list_all_length)
  have tail: "parse_tail raw idx line ln u = Inr st' \<Longrightarrow> reaches k u \<Longrightarrow> reaches k st'" for line ln u
    using parse_accept_reaches [of raw idx _ ln u st' k] assms(2-4)
    by (auto simp: parse_tail_def parse_verify_def parse_require_def Let_def bind_r_Inr_iff
        split: option.splits if_splits)
  have forbids: "parse_forbids raw idx (trim (raw ! idx)) ln u = Inr st' \<Longrightarrow> reaches k u \<Longrightarrow> reaches k st'" for ln u
    using nf tail by (auto simp: parse_forbids_def split: if_splits option.splits)
  have claims: "parse_claims raw idx (trim (raw ! idx)) ln u = Inr st' \<Longrightarrow> reaches k u \<Longrightarrow> reaches k st'" for ln u
    using forbids
    by (auto simp: parse_claims_def parse_claim_def parse_invariant_def parse_ensure_def
        bind_r_Inr_iff split: option.splits list.splits if_splits)
  have header: "parse_header raw idx (trim (raw ! idx)) ln u = Inr st' \<Longrightarrow> reaches k u \<Longrightarrow> reaches k st'" for ln u
    using claims
    by (auto simp: parse_header_def parse_goal_def push_goal_def split: option.splits if_splits)
  show ?thesis
    using assms(1,6) header
    by (auto simp: parse_line_def Let_def parse_using_def bind_r_Inr_iff
        split: option.splits if_splits)
qed

lemma parse_line_reserved:
  assumes "reserved (trim (raw ! k))" and "reaches k st"
  shows "\<exists>e. parse_line raw k st = Inl e"
proof -
  consider r where "trim (raw ! k) = ''REJECT WHEN'' @ r"
    | r where "trim (raw ! k) = ''ESCALATE WHEN'' @ r"
    using assms(1) by (auto simp: reserved_def starts_with_iff)
  then show ?thesis
    using assms(2)
    by cases
      (simp_all add: parse_line_def parse_header_def parse_goal_def parse_claims_def
        parse_forbids_def parse_tail_def blank_or_comment_def starts_with_def
        starts_with_directive_def DIRECTIVES_def word_end_def reaches_def)
qed

text \<open>
  The reserved clauses are never inert: wherever a line of the source begins with
  REJECT WHEN or ESCALATE WHEN, right after GOAL included, the contract is refused. (A bare
  FORBID takes the next line as its expression, whatever it is, so the property is about
  sources without one.)
\<close>

theorem parse_reserved_refused:
  assumes "k < length (lines s)" and "reserved (trim (lines s ! k))"
    and "free_of_bare_forbid (lines s)"
  shows "\<not> is_ok (parse s)"
proof
  let ?raw = "lines s"
  assume "is_ok (parse s)"
  then obtain st where "parse_lines ?raw = Inr st"
    by (auto simp: is_ok_iff parse_def bind_r_Inr_iff)
  moreover have "[0..<length ?raw] = [0..<k] @ k # [Suc k..<length ?raw]"
    using assms(1) by (metis le_add1 less_imp_add_positive upt_add_eq_append upt_conv_Cons zero_le add_0)
  ultimately obtain u v where u: "fold_r (parse_line ?raw) [0..<k] init_pstate = Inr u"
    and v: "parse_line ?raw k u = Inr v"
    by (auto simp: parse_lines_def fold_r_append bind_r_Inr_iff)
  have "reaches k u"
    using fold_r_invariant [OF u, of "reaches k"] parse_line_reaches [of ?raw _ _ _ k]
      reserved_no_continue [OF assms(2)] assms(1,3)
    by (simp add: reaches_def init_pstate_def)
  then show False using parse_line_reserved [OF assms(2)] v by fastforce
qed

definition demo_reserved :: string where
  "demo_reserved = join [nl] [''VERSION 0.1'', ''GOAL'', ''REJECT WHEN x'', ''CLAIM a'']"

theorem parse_reserved_refused_witness: "\<not> is_ok (parse demo_reserved)"
  by (rule parse_reserved_refused [where k = 2]) code_simp+

subsection \<open>The one supported acceptance clause\<close>

lemma accept_clauses_Inr:
  "accept_clauses ln seen ps = Inr b \<longleftrightarrow>
     set ps \<subseteq> {required_clause, critical_clause} \<and>
     count_list ps required_clause + (if seen then 1 else 0) = (if b then 1 else 0)"
  by (induction ln seen ps rule: accept_clauses.induct) (auto split: if_splits)

text \<open>
  The acceptance clause is a closed vocabulary: \<open>ACCEPT WHEN\<close> text is accepted exactly
  when its AND-separated parts are only the two supported clauses and
  \<open>required_claims == VERIFIED\<close> is among them exactly once.
\<close>

theorem accept_condition_exact:
  "is_ok (validate_accept_condition text ln) =
     (set (accept_parts text) \<subseteq> {required_clause, critical_clause} \<and>
      count_list (accept_parts text) required_clause = 1)"
proof (cases "accept_clauses ln False (accept_parts text)")
  case (Inl e)
  then have "\<not> (set (accept_parts text) \<subseteq> {required_clause, critical_clause} \<and>
      count_list (accept_parts text) required_clause = 1)"
    using accept_clauses_Inr [of ln False "accept_parts text" True] by auto
  then show ?thesis using Inl by (simp add: validate_accept_condition_def Let_def)
next
  case (Inr b)
  then show ?thesis
    using accept_clauses_Inr [of ln False "accept_parts text" b]
    by (cases b) (auto simp: validate_accept_condition_def Let_def)
qed

subsection \<open>Inline commands need the word shell\<close>

lemma contains_dquote_split: "split_once [dquote] s = None \<Longrightarrow> dquote \<notin> set s"
  using split_once_None [of "[dquote]" s] split_list [of dquote s] by fastforce

text \<open>
  \<open>shell\<close> selects the inline verifier only as a whole word. After \<open>USING\<close>, a text with
  no quote that begins with \<open>shell\<close> but goes on without white space (\<open>shellcheck\<close>,
  \<open>shell-tests\<close>) is a registry reference, trimmed, and never an inline command.
\<close>

theorem shell_needs_word:
  assumes "dquote \<notin> set r" and "\<And>q. strip_prefix ''shell'' r = Some q \<Longrightarrow> \<not> word_end q"
  shows "using_target r = (trim r, None)"
proof -
  have "split_once [dquote] r = None"
    using assms(1) split_once_Some [of "[dquote]" r] by (cases "split_once [dquote] r") auto
  then show ?thesis
    using assms(2) by (auto simp: using_target_def Let_def split: option.splits)
qed

theorem shell_needs_word_witness:
  "using_target ''shellcheck.all '' = (''shellcheck.all'', None)"
  using shell_needs_word [of "''shellcheck.all ''"]
  by (simp add: word_end_def is_ws_def trim_def trim_matches_def trim_start_matches_def
      trim_end_matches_def)

end
