(* ===== verification/IR.thy ===== *)
theory IR
  imports Parser_Facts
begin

section \<open>The intermediate representation (crates/uni-ir)\<close>

text \<open>
  \<open>compile\<close> turns a parsed contract into the representation every other component reads. It
  refuses a contract that declares one claim id twice: the second obligation would be covered
  by the evidence of the first.
\<close>

record intent_ir =
  in_id :: string
  in_domain :: string
  in_goal :: string

record claim_ir =
  ci_id :: string
  ci_kind :: string
  ci_required :: bool
  ci_critical :: bool
  ci_ensure :: string

record verification_ir =
  vi_claim_id :: string
  vi_verifier_ref :: string
  vi_inline_shell :: "string option"
  vi_requirement :: "string option"

record acceptance_ir =
  ai_require_verified :: bool

record ir =
  ir_uni_version :: string
  ir_intent :: intent_ir
  ir_claims :: "claim_ir list"
  ir_verification :: "verification_ir list"
  ir_acceptance :: acceptance_ir

text \<open>The duplicate's line and id, and the line that declared the id first.\<close>

datatype compile_error = DuplicateClaim nat string nat

definition kind_str :: "claim_kind \<Rightarrow> string" where
  "kind_str k = (case k of Claim \<Rightarrow> ''claim'' | Invariant \<Rightarrow> ''invariant'')"

definition claim_to_ir :: "claim \<Rightarrow> claim_ir" where
  "claim_to_ir k =
     \<lparr>ci_id = cl_id k, ci_kind = kind_str (cl_kind k), ci_required = cl_required k,
      ci_critical = cl_critical k, ci_ensure = cl_ensure k\<rparr>"

definition verification_to_ir :: "verification \<Rightarrow> verification_ir" where
  "verification_to_ir v =
     \<lparr>vi_claim_id = vf_claim_id v, vi_verifier_ref = vf_verifier_ref v,
      vi_inline_shell = vf_inline_shell v, vi_requirement = vf_requirement v\<rparr>"

text \<open>One round of the duplicate check: \<open>seen\<close> is \<open>claims[..i]\<close>.\<close>

fun check_duplicates :: "claim list \<Rightarrow> claim list \<Rightarrow> compile_error + unit" where
  "check_duplicates seen [] = Inr ()"
| "check_duplicates seen (c # cs) =
     (case List.find (\<lambda>k. cl_id k = cl_id c) seen of
        Some first \<Rightarrow> Inl (DuplicateClaim (cl_line c) (cl_id c) (cl_line first))
      | None \<Rightarrow> check_duplicates (seen @ [c]) cs)"

definition compile :: "contract \<Rightarrow> compile_error + ir" where
  "compile c =
     bind_r (check_duplicates [] (ct_claims c)) (\<lambda>_. Inr
       \<lparr>ir_uni_version = ct_version c,
        ir_intent = \<lparr>in_id = ct_intent c, in_domain = ct_domain c, in_goal = ct_goal c\<rparr>,
        ir_claims = map claim_to_ir (ct_claims c),
        ir_verification = map verification_to_ir (ct_verifications c),
        ir_acceptance = \<lparr>ai_require_verified = require_verified (ct_acceptance c)\<rparr>\<rparr>)"

subsection \<open>The duplicate check\<close>

lemma check_duplicates_Inr:
  "distinct (map cl_id seen) \<Longrightarrow>
     check_duplicates seen cs = Inr () \<longleftrightarrow> distinct (map cl_id (seen @ cs))"
proof (induction cs arbitrary: seen)
  case Nil
  then show ?case by simp
next
  case (Cons c cs)
  show ?case
  proof (cases "List.find (\<lambda>k. cl_id k = cl_id c) seen")
    case None
    then have "cl_id c \<notin> cl_id ` set seen" by (auto simp: find_None_filter)
    then have "distinct (map cl_id (seen @ [c]))" using Cons.prems by simp
    then show ?thesis using Cons.IH [of "seen @ [c]"] None by simp
  next
    case (Some f)
    then have "f \<in> set seen" and "cl_id f = cl_id c" by (auto dest: find_Some_iff2)
    then have "cl_id c \<in> cl_id ` set seen" by (metis image_eqI)
    then show ?thesis using Some by simp
  qed
qed

lemma check_duplicates_Inl:
  "check_duplicates seen cs = Inl (DuplicateClaim l i fl) \<Longrightarrow> distinct (map cl_id seen) \<Longrightarrow>
     \<exists>pre k post f. seen @ cs = pre @ k # post \<and> f \<in> set pre \<and> distinct (map cl_id pre) \<and>
       cl_id k = i \<and> cl_id f = i \<and> cl_line k = l \<and> cl_line f = fl"
proof (induction cs arbitrary: seen)
  case Nil
  then show ?case by simp
next
  case (Cons c cs)
  show ?case
  proof (cases "List.find (\<lambda>k. cl_id k = cl_id c) seen")
    case None
    then have "check_duplicates (seen @ [c]) cs = Inl (DuplicateClaim l i fl)"
      using Cons.prems(1) by simp
    moreover have "distinct (map cl_id (seen @ [c]))"
      using None Cons.prems(2) by (auto simp: find_None_filter)
    ultimately show ?thesis using Cons.IH [of "seen @ [c]"] by simp
  next
    case (Some f)
    then have f: "f \<in> set seen" "cl_id f = cl_id c" by (auto dest: find_Some_iff2)
    have "cl_line c = l" "cl_id c = i" "cl_line f = fl" using Cons.prems(1) Some by auto
    then show ?thesis using f Cons.prems(2) by blast
  qed
qed

lemma compile_Inr_iff:
  "compile c = Inr i \<longleftrightarrow> distinct (map cl_id (ct_claims c)) \<and>
     i = \<lparr>ir_uni_version = ct_version c,
          ir_intent = \<lparr>in_id = ct_intent c, in_domain = ct_domain c, in_goal = ct_goal c\<rparr>,
          ir_claims = map claim_to_ir (ct_claims c),
          ir_verification = map verification_to_ir (ct_verifications c),
          ir_acceptance = \<lparr>ai_require_verified = require_verified (ct_acceptance c)\<rparr>\<rparr>"
  using check_duplicates_Inr [of "[]" "ct_claims c"]
  by (auto simp: compile_def bind_r_Inr_iff)

definition ir_ids :: "ir \<Rightarrow> string list" where
  "ir_ids i = map ci_id (ir_claims i)"

text \<open>
  The representation that reaches the decision: claim ids are distinct tokens, every
  verification is about a declared claim, a plain claim is never critical and an invariant is
  always required.
\<close>

definition ir_ok :: "ir \<Rightarrow> bool" where
  "ir_ok i \<longleftrightarrow>
     ir_claims i \<noteq> [] \<and> distinct (ir_ids i) \<and> list_all token (ir_ids i) \<and>
     list_all (\<lambda>c. (ci_kind c = ''claim'' \<and> \<not> ci_critical c) \<or>
                   (ci_kind c = ''invariant'' \<and> ci_required c)) (ir_claims i) \<and>
     list_all (\<lambda>v. vi_claim_id v \<in> set (ir_ids i) \<and> vi_verifier_ref v \<noteq> [] \<and>
                   (vi_verifier_ref v = ''shell'' \<longrightarrow> vi_inline_shell v \<noteq> None) \<and>
                   vi_requirement v \<noteq> Some []) (ir_verification i) \<and>
     ai_require_verified (ir_acceptance i)"

lemma compile_ids: "compile c = Inr i \<Longrightarrow> ir_ids i = map cl_id (ct_claims c)"
  by (auto simp: compile_Inr_iff ir_ids_def claim_to_ir_def)

lemma compile_claim_ok:
  "claim_ok n k \<Longrightarrow> (ci_kind (claim_to_ir k) = ''claim'' \<and> \<not> ci_critical (claim_to_ir k)) \<or>
     (ci_kind (claim_to_ir k) = ''invariant'' \<and> ci_required (claim_to_ir k))"
  by (cases "cl_kind k") (auto simp: claim_ok_def claim_to_ir_def kind_str_def)

text \<open>
  C31. What the front end hands on: a source that parses and compiles gives a representation
  with distinct claim ids, whose verifications name declared claims only, whose invariants
  are required, and which asks for every required claim to be verified.
\<close>

theorem compile_well_formed:
  assumes "parse s = Inr c" and "compile c = Inr i"
  shows "ir_ok i"
proof -
  have p: "pst_ok (length (lines s)) st" if "parse_lines (lines s) = Inr st" for st
    using that by (rule parse_lines_ok)
  have ok: "contract_ok (length (lines s)) c"
    using assms(1) p by (auto simp: parse_def bind_r_Inr_iff dest: parse_finish_ok)
  have i: "distinct (map cl_id (ct_claims c))" "ir_claims i = map claim_to_ir (ct_claims c)"
    "ir_verification i = map verification_to_ir (ct_verifications c)"
    "ai_require_verified (ir_acceptance i) = require_verified (ct_acceptance c)"
    using assms(2) by (auto simp: compile_Inr_iff)
  have "ir_claims i \<noteq> []" using ok i(2) by (auto simp: contract_ok_def)
  moreover have "distinct (ir_ids i)" using i(1) by (simp add: compile_ids [OF assms(2)])
  moreover have "list_all token (ir_ids i)"
    using ok by (auto simp: compile_ids [OF assms(2)] contract_ok_def list_all_iff claim_ok_def)
  moreover have "list_all (\<lambda>c. (ci_kind c = ''claim'' \<and> \<not> ci_critical c) \<or>
                   (ci_kind c = ''invariant'' \<and> ci_required c)) (ir_claims i)"
    unfolding i(2) list_all_iff
    using ok compile_claim_ok by (auto simp: contract_ok_def list_all_iff)
  moreover have "list_all (\<lambda>v. vi_claim_id v \<in> set (ir_ids i) \<and> vi_verifier_ref v \<noteq> [] \<and>
                   (vi_verifier_ref v = ''shell'' \<longrightarrow> vi_inline_shell v \<noteq> None) \<and>
                   vi_requirement v \<noteq> Some []) (ir_verification i)"
    using ok by (auto simp: i(3) contract_ok_def list_all_iff verif_ok_def
        verification_to_ir_def compile_ids [OF assms(2)])
  moreover have "ai_require_verified (ir_acceptance i)"
    using ok i(4) by (simp add: contract_ok_def)
  ultimately show ?thesis by (simp add: ir_ok_def)
qed

definition demo_ir :: ir where
  "demo_ir =
     \<lparr>ir_uni_version = ''0.1'', ir_intent = \<lparr>in_id = ''i'', in_domain = ''d'', in_goal = []\<rparr>,
      ir_claims = [\<lparr>ci_id = ''a'', ci_kind = ''claim'', ci_required = True,
                    ci_critical = False, ci_ensure = []\<rparr>],
      ir_verification = [\<lparr>vi_claim_id = ''a'', vi_verifier_ref = ''k'',
                          vi_inline_shell = None, vi_requirement = None\<rparr>],
      ir_acceptance = \<lparr>ai_require_verified = True\<rparr>\<rparr>"

lemma compile_demo: "compile demo_contract = Inr demo_ir"
  by code_simp

theorem compile_well_formed_witness: "ir_ok demo_ir"
  by (rule compile_well_formed [OF parse_demo compile_demo])

text \<open>
  \<open>compile\<close> fails on duplicated claim ids and on nothing else, and its error names the
  line of a later declaration, the shared id, and the line of an earlier one.
\<close>

theorem compile_duplicate:
  "(case compile c of
      Inr i \<Rightarrow> distinct (map cl_id (ct_claims c)) \<and> ir_ids i = map cl_id (ct_claims c)
    | Inl (DuplicateClaim l cid fl) \<Rightarrow>
        (\<exists>pre k post f. ct_claims c = pre @ k # post \<and> f \<in> set pre \<and> distinct (map cl_id pre) \<and>
           cl_id k = cid \<and> cl_id f = cid \<and> cl_line k = l \<and> cl_line f = fl))"
proof (cases "check_duplicates [] (ct_claims c)")
  case (Inl e)
  moreover obtain l i fl where "e = DuplicateClaim l i fl" by (cases e)
  ultimately show ?thesis
    using check_duplicates_Inl [of "[]" "ct_claims c" l i fl] by (simp add: compile_def)
next
  case (Inr u)
  then obtain i where "compile c = Inr i" by (simp add: compile_def)
  moreover from this have "distinct (map cl_id (ct_claims c))" by (simp add: compile_Inr_iff)
  ultimately show ?thesis using compile_ids by simp
qed

end
