(* ===== verification/Evidence.thy ===== *)
theory Evidence
  imports Ordered_Map IR "HOL-Library.AList"
begin

section \<open>Evidence records and the evidence cache (crates/uni-evidence, lib.rs)\<close>

text \<open>
  The evidence record, the actors attached to it, the \<open>.uni/evidence\<close> directory, and
  \<open>load_valid_for_claim\<close>, which decides whether a stored proof still covers what is being
  delivered. Instants are integers (the unit does not matter here), and the RFC 3339 printer
  of the chrono crate is a parameter where a message prints an instant.
\<close>

datatype evidence_state = Valid | Invalid | Stale

record actor =
  ac_id :: string
  ac_source :: string
  ac_assurance :: string

record evidence =
  ev_id :: string
  ev_claim_id :: string
  ev_producer :: string
  ev_command :: string
  ev_exit_code :: int
  ev_output_hash :: string
  ev_output_excerpt :: string
  ev_commit_sha :: string
  ev_workspace_dirty :: bool
  ev_state :: evidence_state
  ev_created_at :: int
  ev_duration_ms :: nat
  ev_artifact_hash :: string
  ev_artifact_files :: "string btree"
  ev_fingerprint :: string
  ev_registry_hash :: string
  ev_policy_hash :: string
  ev_contract_hash :: string
  ev_platform :: string
  ev_actor :: actor
  ev_executor :: actor
  ev_binding_hash :: string
  ev_expires_at :: "int option"

record evidence_context =
  cx_fingerprint :: string
  cx_commit_sha :: string
  cx_workspace_dirty :: bool
  cx_artifact_hash :: "string option"
  cx_artifact_files :: "string btree"
  cx_registry_hash :: string
  cx_contract_hash :: string
  cx_platform :: string
  cx_binding_hash :: "string option"

subsection \<open>Actors\<close>

definition default_actor :: actor where
  "default_actor = \<lparr>ac_id = [], ac_source = ''local'', ac_assurance = ''self-declared''\<rparr>"

text \<open>\<open>Actor::local\<close>, with the environment variables USER and USERNAME.\<close>

definition local_actor :: "string option \<Rightarrow> string option \<Rightarrow> actor" where
  "local_actor USER USERNAME =
     (let user = (case USER of Some u \<Rightarrow> u
                  | None \<Rightarrow> (case USERNAME of Some u \<Rightarrow> u | None \<Rightarrow> ''unknown'')) in
      \<lparr>ac_id = ''local:'' @ user, ac_source = ''local'', ac_assurance = ''self-declared''\<rparr>)"

definition declared :: "string \<Rightarrow> actor" where
  "declared i =
     (let src = (case split_once ''://'' i of
                   Some (scheme, _) \<Rightarrow>
                     if scheme \<in> {''spiffe'', ''entra'', ''oidc''} then scheme else ''cli''
                 | None \<Rightarrow> ''cli'')
      in \<lparr>ac_id = i, ac_source = src, ac_assurance = ''self-declared''\<rparr>)"

definition is_anonymous :: "actor \<Rightarrow> bool" where
  "is_anonymous a \<longleftrightarrow> trim (ac_id a) = [] \<or> ac_id a = ''anonymous''"

definition verified_actor :: "string \<Rightarrow> string \<Rightarrow> actor" where
  "verified_actor i src = \<lparr>ac_id = i, ac_source = src, ac_assurance = ''verified''\<rparr>"

definition is_verified :: "actor \<Rightarrow> bool" where
  "is_verified a \<longleftrightarrow> ac_assurance a = ''verified''"

lemma local_actor_not_verified [simp]: "\<not> is_verified (local_actor u n)"
  by (simp add: local_actor_def is_verified_def Let_def)

lemma declared_not_verified [simp]: "\<not> is_verified (declared i)"
  by (simp add: declared_def is_verified_def Let_def)

lemma verified_actor_verified [simp]: "is_verified (verified_actor i s)"
  by (simp add: verified_actor_def is_verified_def)

lemma default_actor_facts [simp]: "is_anonymous default_actor" "\<not> is_verified default_actor"
  by (simp_all add: default_actor_def is_anonymous_def is_verified_def)

subsection \<open>Digests\<close>

definition hex_digit :: "nat \<Rightarrow> char" where
  "hex_digit n = char_of (if n < 10 then 48 + n else 87 + n)"

text \<open>\<open>format!("{b:02x}")\<close> for each byte, concatenated. A byte is a natural number below 256.\<close>

definition hex_encode :: "nat list \<Rightarrow> string" where
  "hex_encode bytes = concat (map (\<lambda>b. [hex_digit (b div 16), hex_digit (b mod 16)]) bytes)"

text \<open>The digest of the sha2 crate is a parameter: the bytes of the digest of a text.\<close>

definition sha256_hex :: "(string \<Rightarrow> nat list) \<Rightarrow> string \<Rightarrow> string" where
  "sha256_hex digest s = hex_encode (digest s)"

text \<open>
  \<open>git_info\<close> over what \<open>git rev-parse HEAD\<close> and \<open>git status\<close> write to their standard output, \<open>None\<close>
  when the process cannot be started. Neither exit status is looked at.
\<close>

definition git_info :: "string option \<Rightarrow> string option \<Rightarrow> string \<times> bool" where
  "git_info head status =
     (case head of Some out \<Rightarrow> trim out | None \<Rightarrow> ''no-git'',
      case status of Some out \<Rightarrow> out \<noteq> [] | None \<Rightarrow> False)"

lemma hex_digit_inject: "m < 16 \<Longrightarrow> n < 16 \<Longrightarrow> hex_digit m = hex_digit n \<Longrightarrow> m = n"
proof -
  assume b: "m < 16" "n < 16" and "hex_digit m = hex_digit n"
  then have "(of_char (hex_digit m) :: nat) = of_char (hex_digit n)" by simp
  then show "m = n" using b by (auto simp: hex_digit_def split: if_splits)
qed

lemma length_hex_encode: "length (hex_encode bs) = 2 * length bs"
  by (induction bs) (simp_all add: hex_encode_def)

lemma hex_encode_inject:
  "\<forall>b\<in>set as. b < 256 \<Longrightarrow> \<forall>b\<in>set bs. b < 256 \<Longrightarrow> hex_encode as = hex_encode bs \<Longrightarrow> as = bs"
proof (induction as arbitrary: bs)
  case Nil
  then show ?case by (cases bs) (simp_all add: hex_encode_def)
next
  case (Cons a as)
  then obtain b bs' where bs: "bs = b # bs'" by (cases bs) (simp_all add: hex_encode_def)
  have d: "hex_digit (a div 16) = hex_digit (b div 16)" "hex_digit (a mod 16) = hex_digit (b mod 16)"
    and r: "hex_encode as = hex_encode bs'"
    using Cons.prems(3) by (simp_all add: bs hex_encode_def)
  have "a div 16 = b div 16" using d(1) Cons.prems(1,2) by (intro hex_digit_inject) (auto simp: bs)
  moreover have "a mod 16 = b mod 16" using d(2) by (intro hex_digit_inject) auto
  ultimately have "a = b" by (metis div_mult_mod_eq)
  then show ?case using Cons.IH [OF _ _ r] Cons.prems(1,2) by (simp add: bs)
qed

text \<open>What a digest function gives is bytes; then what is printed is hexadecimal.\<close>

definition byte_digest :: "(string \<Rightarrow> nat list) \<Rightarrow> bool" where
  "byte_digest digest \<longleftrightarrow> (\<forall>s. \<forall>b\<in>set (digest s). b < 256)"

lemma hex_digit_range: "n < 16 \<Longrightarrow> hex_digit n \<in> set ''0123456789abcdef''"
proof -
  have "\<forall>n\<in>set [0..<16]. hex_digit n \<in> set ''0123456789abcdef''" by code_simp
  then show "n < 16 \<Longrightarrow> ?thesis" by simp
qed

lemma sha256_hex_range: "byte_digest digest \<Longrightarrow> set (sha256_hex digest s) \<subseteq> set ''0123456789abcdef''"
proof
  fix c assume d: "byte_digest digest" and "c \<in> set (sha256_hex digest s)"
  then obtain b where b: "b \<in> set (digest s)" and c: "c = hex_digit (b div 16) \<or> c = hex_digit (b mod 16)"
    by (auto simp: sha256_hex_def hex_encode_def)
  have "b < 256" using d b by (auto simp: byte_digest_def)
  then have "b div 16 < 16" "b mod 16 < 16" by simp_all
  then show "c \<in> set ''0123456789abcdef''" using c hex_digit_range by blast
qed

lemma sha256_hex_trim: "byte_digest digest \<Longrightarrow> trim (sha256_hex digest s) = sha256_hex digest s"
proof -
  assume d: "byte_digest digest"
  have w: "\<forall>c\<in>set ''0123456789abcdef''. \<not> is_ws c" by code_simp
  have "trimmed (sha256_hex digest s)"
    using sha256_hex_range [OF d, of s] w
    by (cases "sha256_hex digest s = []") (auto simp: trimmed_def dest: hd_in_set last_in_set)
  then show ?thesis by (rule trim_trimmed)
qed

subsection \<open>The evidence directory\<close>

text \<open>
  The entries of \<open>.uni/evidence\<close> in the order \<open>read_dir\<close> gives them, each with its decoded
  record; a file that does not decode is no entry, as it is none for \<open>load_json\<close>. A path
  below a subdirectory is reachable by name and is not listed.
\<close>

type_synonym evidence_dir = "(string \<times> evidence) list"

definition evidence_path :: "string \<Rightarrow> string \<Rightarrow> string" where
  "evidence_path claim_id fingerprint = claim_id @ ''__'' @ fingerprint @ ''.json''"

definition load_file :: "evidence_dir \<Rightarrow> string \<Rightarrow> evidence option" where
  "load_file d path = map_of d path"

text \<open>\<open>save_json\<close>: write a sibling, rename it over the target.\<close>

definition save_file :: "string \<Rightarrow> evidence \<Rightarrow> evidence_dir \<Rightarrow> evidence_dir" where
  "save_file path ev d = AList.update path ev d"

definition listed :: "evidence_dir \<Rightarrow> evidence_dir" where
  "listed d = filter (\<lambda>(n, _). CHR ''/'' \<notin> set n) d"

definition claim_file :: "string \<Rightarrow> string \<Rightarrow> bool" where
  "claim_file claim_id name \<longleftrightarrow> starts_with (claim_id @ ''__'') name \<and> ends_with ''.json'' name"

definition newer :: "evidence \<Rightarrow> evidence option \<Rightarrow> evidence option" where
  "newer ev best =
     (case best of None \<Rightarrow> Some ev
      | Some b \<Rightarrow> if ev_created_at b < ev_created_at ev then Some ev else best)"

definition latest_for_claim :: "evidence_dir \<Rightarrow> string \<Rightarrow> evidence option" where
  "latest_for_claim d claim_id =
     fold (\<lambda>(n, ev) best. if claim_file claim_id n then newer ev best else best) (listed d) None"

definition is_stale :: "evidence \<Rightarrow> string \<Rightarrow> bool \<Rightarrow> bool" where
  "is_stale ev current_sha current_dirty \<longleftrightarrow>
     ev_commit_sha ev \<noteq> current_sha \<or> ev_workspace_dirty ev \<noteq> current_dirty"

subsection \<open>Why a proof no longer covers the delivery\<close>

datatype stale_reason =
    CommitChanged string string
  | UncommittedChanges bool
  | SubjectChanged "string list" "string list" "string list"
  | ContractChanged string string
  | VerifierConfigChanged string string
  | PlatformChanged string string
  | AuthorizationChanged string string
  | Expired string

definition label :: "stale_reason \<Rightarrow> string" where
  "label r = (case r of
     CommitChanged _ _ \<Rightarrow> ''commit_changed''
   | UncommittedChanges _ \<Rightarrow> ''uncommitted_changes''
   | SubjectChanged _ _ _ \<Rightarrow> ''subject_changed''
   | ContractChanged _ _ \<Rightarrow> ''contract_changed''
   | VerifierConfigChanged _ _ \<Rightarrow> ''verifier_config_changed''
   | PlatformChanged _ _ \<Rightarrow> ''platform_changed''
   | AuthorizationChanged _ _ \<Rightarrow> ''authorization_changed''
   | Expired _ \<Rightarrow> ''expired'')"

definition short :: "string \<Rightarrow> string" where
  "short sha = take 8 sha"

definition listed_part :: "string \<Rightarrow> string list \<Rightarrow> string list" where
  "listed_part head xs = (if xs = [] then [] else [head @ join '', '' xs])"

definition describe :: "stale_reason \<Rightarrow> string" where
  "describe r = (case r of
     CommitChanged f t \<Rightarrow> ''artifact moved from commit '' @ short f @ '' to '' @ short t
   | UncommittedChanges _ \<Rightarrow> ''tracked files were modified after the proof''
   | SubjectChanged changed added removed \<Rightarrow>
       ''watched subject moved ('' @
       join ''; '' (listed_part ''changed: '' changed @ listed_part ''added: '' added @
                    listed_part ''removed: '' removed) @ '')''
   | ContractChanged _ _ \<Rightarrow> ''the contract changed''
   | VerifierConfigChanged _ _ \<Rightarrow> ''the trusted verifier registry changed''
   | PlatformChanged f t \<Rightarrow> ''proof made on '' @ f @ '', running on '' @ t
   | AuthorizationChanged _ _ \<Rightarrow> ''the authorized verifier binding changed''
   | Expired at \<Rightarrow> ''proof expired at '' @ at)"

datatype cache_outcome =
    Hit evidence
  | StaleProof "stale_reason list"
  | Miss

subsection \<open>The drift of each dimension, in the order of the source\<close>

definition changed_files :: "string btree \<Rightarrow> string btree \<Rightarrow> string list" where
  "changed_files old new =
     map fst (filter (\<lambda>(p, h). case bt_get new p of Some h' \<Rightarrow> h' \<noteq> h | None \<Rightarrow> False) old)"

definition removed_files :: "string btree \<Rightarrow> string btree \<Rightarrow> string list" where
  "removed_files old new = map fst (filter (\<lambda>(p, _). bt_get new p = None) old)"

definition added_files :: "string btree \<Rightarrow> string btree \<Rightarrow> string list" where
  "added_files old new = filter (\<lambda>p. bt_get old p = None) (bt_keys new)"

definition drift_commit :: "evidence_context \<Rightarrow> evidence \<Rightarrow> stale_reason list" where
  "drift_commit ctx ev =
     (if ev_commit_sha ev \<noteq> cx_commit_sha ctx
      then [CommitChanged (ev_commit_sha ev) (cx_commit_sha ctx)] else [])"

definition drift_dirty :: "evidence_context \<Rightarrow> evidence \<Rightarrow> stale_reason list" where
  "drift_dirty ctx ev =
     (if ev_workspace_dirty ev \<noteq> cx_workspace_dirty ctx
      then [UncommittedChanges (cx_workspace_dirty ctx)] else [])"

definition drift_subject :: "evidence_context \<Rightarrow> evidence \<Rightarrow> stale_reason list" where
  "drift_subject ctx ev =
     (if ev_artifact_hash ev \<noteq> [] \<and> cx_artifact_hash ctx \<noteq> Some (ev_artifact_hash ev)
      then [SubjectChanged (changed_files (ev_artifact_files ev) (cx_artifact_files ctx))
              (added_files (ev_artifact_files ev) (cx_artifact_files ctx))
              (removed_files (ev_artifact_files ev) (cx_artifact_files ctx))]
      else [])"

definition drift_contract :: "evidence_context \<Rightarrow> evidence \<Rightarrow> stale_reason list" where
  "drift_contract ctx ev =
     (if ev_contract_hash ev \<noteq> [] \<and> ev_contract_hash ev \<noteq> cx_contract_hash ctx
      then [ContractChanged (ev_contract_hash ev) (cx_contract_hash ctx)] else [])"

definition drift_registry :: "evidence_context \<Rightarrow> evidence \<Rightarrow> stale_reason list" where
  "drift_registry ctx ev =
     (if ev_registry_hash ev \<noteq> [] \<and> ev_registry_hash ev \<noteq> cx_registry_hash ctx
      then [VerifierConfigChanged (ev_registry_hash ev) (cx_registry_hash ctx)] else [])"

definition drift_platform :: "evidence_context \<Rightarrow> evidence \<Rightarrow> stale_reason list" where
  "drift_platform ctx ev =
     (if ev_platform ev \<noteq> [] \<and> ev_platform ev \<noteq> cx_platform ctx
      then [PlatformChanged (ev_platform ev) (cx_platform ctx)] else [])"

definition drift_binding :: "evidence_context \<Rightarrow> evidence \<Rightarrow> stale_reason list" where
  "drift_binding ctx ev =
     (if ev_binding_hash ev \<noteq> [] \<and> cx_binding_hash ctx \<noteq> Some (ev_binding_hash ev)
      then [AuthorizationChanged (ev_binding_hash ev)
              (case cx_binding_hash ctx of Some h \<Rightarrow> h | None \<Rightarrow> [])] else [])"

definition drift_expiry :: "(int \<Rightarrow> string) \<Rightarrow> int \<Rightarrow> evidence \<Rightarrow> stale_reason list" where
  "drift_expiry rfc3339 now ev =
     (case ev_expires_at ev of
        Some at \<Rightarrow> if at \<le> now then [Expired (rfc3339 at)] else []
      | None \<Rightarrow> [])"

definition stale_reasons ::
  "(int \<Rightarrow> string) \<Rightarrow> int \<Rightarrow> evidence_context \<Rightarrow> evidence \<Rightarrow> stale_reason list" where
  "stale_reasons rfc3339 now ctx ev =
     drift_commit ctx ev @ drift_dirty ctx ev @ drift_subject ctx ev @ drift_contract ctx ev @
     drift_registry ctx ev @ drift_platform ctx ev @ drift_binding ctx ev @
     drift_expiry rfc3339 now ev"

text \<open>\<open>load_valid_for_claim\<close>, at the instant \<open>now\<close>.\<close>

definition load_valid_for_claim ::
  "(int \<Rightarrow> string) \<Rightarrow> int \<Rightarrow> evidence_dir \<Rightarrow> string \<Rightarrow> evidence_context \<Rightarrow> cache_outcome" where
  "load_valid_for_claim rfc3339 now d claim_id ctx =
     (case load_file d (evidence_path claim_id (cx_fingerprint ctx)) of
        None \<Rightarrow> Miss
      | Some ev \<Rightarrow>
          if ev_fingerprint ev \<noteq> cx_fingerprint ctx then Miss
          else
            let reasons = stale_reasons rfc3339 now ctx ev in
            if reasons \<noteq> [] then StaleProof reasons
            else if ev_state ev = Invalid then Miss
            else Hit ev)"

end
