(* ===== verification/Evidence_Facts.thy ===== *)
theory Evidence_Facts
  imports Evidence
begin

section \<open>What the evidence cache guarantees\<close>

text \<open>
  The interface of a store of evidence files and its interpretation on the model's directory,
  the declarative reading of "this proof covers this context", and the properties of
  \<open>load_valid_for_claim\<close>, \<open>latest_for_claim\<close> and the file names.
\<close>

subsection \<open>The interface of an evidence store\<close>

locale evidence_store =
  fixes load :: "'s \<Rightarrow> string \<Rightarrow> evidence option"
    and save :: "string \<Rightarrow> evidence \<Rightarrow> 's \<Rightarrow> 's"
  assumes load_save: "load (save p ev s) q = (if q = p then Some ev else load s q)"
begin

definition save_all :: "(string \<times> evidence) list \<Rightarrow> 's \<Rightarrow> 's" where
  "save_all xs s = fold (\<lambda>(p, ev). save p ev) xs s"

lemma load_save_all:
  "load (save_all xs s) q = (case map_of (rev xs) q of Some ev \<Rightarrow> Some ev | None \<Rightarrow> load s q)"
  unfolding save_all_def
  by (induction xs arbitrary: s) (auto simp: load_save map_add_def split: option.splits)

lemma load_untouched: "q \<notin> fst ` set xs \<Longrightarrow> load (save_all xs s) q = load s q"
proof -
  assume "q \<notin> fst ` set xs"
  then have "map_of (rev xs) q = None" by (simp add: map_of_eq_None_iff)
  then show ?thesis by (simp add: load_save_all)
qed

end

interpretation ed: evidence_store load_file save_file
  by unfold_locales (simp add: load_file_def save_file_def update_conv')

subsection \<open>When a proof covers a context\<close>

text \<open>An empty stored hash is a dimension the proof was not bound to.\<close>

definition bound :: "string \<Rightarrow> string \<Rightarrow> bool" where
  "bound stored current \<longleftrightarrow> stored = [] \<or> stored = current"

definition covers :: "int \<Rightarrow> evidence_context \<Rightarrow> evidence \<Rightarrow> bool" where
  "covers now ctx ev \<longleftrightarrow>
     \<not> is_stale ev (cx_commit_sha ctx) (cx_workspace_dirty ctx) \<and>
     (ev_artifact_hash ev = [] \<or> cx_artifact_hash ctx = Some (ev_artifact_hash ev)) \<and>
     bound (ev_contract_hash ev) (cx_contract_hash ctx) \<and>
     bound (ev_registry_hash ev) (cx_registry_hash ctx) \<and>
     bound (ev_platform ev) (cx_platform ctx) \<and>
     (ev_binding_hash ev = [] \<or> cx_binding_hash ctx = Some (ev_binding_hash ev)) \<and>
     (case ev_expires_at ev of None \<Rightarrow> True | Some at \<Rightarrow> now < at)"

lemmas drift_defs = drift_commit_def drift_dirty_def drift_subject_def drift_contract_def
  drift_registry_def drift_platform_def drift_binding_def drift_expiry_def

lemma stale_reasons_Nil_iff: "stale_reasons rfc now ctx ev = [] \<longleftrightarrow> covers now ctx ev"
  by (auto simp: stale_reasons_def drift_defs covers_def bound_def is_stale_def
      split: option.splits if_splits)

lemma load_valid_cases:
  "load_valid_for_claim rfc now d c ctx =
     (case load_file d (evidence_path c (cx_fingerprint ctx)) of
        None \<Rightarrow> Miss
      | Some ev \<Rightarrow>
          if ev_fingerprint ev \<noteq> cx_fingerprint ctx then Miss
          else if \<not> covers now ctx ev then StaleProof (stale_reasons rfc now ctx ev)
          else if ev_state ev = Invalid then Miss else Hit ev)"
  by (auto simp: load_valid_for_claim_def Let_def stale_reasons_Nil_iff split: option.splits)

lemma load_valid_Hit:
  "load_valid_for_claim rfc now d c ctx = Hit ev \<longleftrightarrow>
     load_file d (evidence_path c (cx_fingerprint ctx)) = Some ev \<and>
     ev_fingerprint ev = cx_fingerprint ctx \<and> covers now ctx ev \<and> ev_state ev \<noteq> Invalid"
  by (auto simp: load_valid_cases split: option.splits)


subsection \<open>The reasons of staleness\<close>

text \<open>Which dimensions of the context drifted, in the order the reasons are listed in.\<close>

definition drifted :: "int \<Rightarrow> evidence_context \<Rightarrow> evidence \<Rightarrow> string list" where
  "drifted now ctx ev = map fst (filter snd
     [(''commit_changed'', ev_commit_sha ev \<noteq> cx_commit_sha ctx),
      (''uncommitted_changes'', ev_workspace_dirty ev \<noteq> cx_workspace_dirty ctx),
      (''subject_changed'', ev_artifact_hash ev \<noteq> [] \<and> cx_artifact_hash ctx \<noteq> Some (ev_artifact_hash ev)),
      (''contract_changed'', \<not> bound (ev_contract_hash ev) (cx_contract_hash ctx)),
      (''verifier_config_changed'', \<not> bound (ev_registry_hash ev) (cx_registry_hash ctx)),
      (''platform_changed'', \<not> bound (ev_platform ev) (cx_platform ctx)),
      (''authorization_changed'',
         ev_binding_hash ev \<noteq> [] \<and> cx_binding_hash ctx \<noteq> Some (ev_binding_hash ev)),
      (''expired'', (case ev_expires_at ev of None \<Rightarrow> False | Some at \<Rightarrow> at \<le> now))])"

lemma label_drift:
  "map label (drift_commit ctx ev) = (if ev_commit_sha ev \<noteq> cx_commit_sha ctx then [''commit_changed''] else [])"
  "map label (drift_dirty ctx ev) = (if ev_workspace_dirty ev \<noteq> cx_workspace_dirty ctx then [''uncommitted_changes''] else [])"
  "map label (drift_subject ctx ev) = (if ev_artifact_hash ev \<noteq> [] \<and> cx_artifact_hash ctx \<noteq> Some (ev_artifact_hash ev) then [''subject_changed''] else [])"
  "map label (drift_contract ctx ev) = (if \<not> bound (ev_contract_hash ev) (cx_contract_hash ctx) then [''contract_changed''] else [])"
  "map label (drift_registry ctx ev) = (if \<not> bound (ev_registry_hash ev) (cx_registry_hash ctx) then [''verifier_config_changed''] else [])"
  "map label (drift_platform ctx ev) = (if \<not> bound (ev_platform ev) (cx_platform ctx) then [''platform_changed''] else [])"
  "map label (drift_binding ctx ev) = (if ev_binding_hash ev \<noteq> [] \<and> cx_binding_hash ctx \<noteq> Some (ev_binding_hash ev) then [''authorization_changed''] else [])"
  "map label (drift_expiry rfc now ev) = (if (case ev_expires_at ev of None \<Rightarrow> False | Some at \<Rightarrow> at \<le> now) then [''expired''] else [])"
  by (simp_all add: drift_defs bound_def label_def split: option.splits)

lemma label_stale_reasons: "map label (stale_reasons rfc now ctx ev) = drifted now ctx ev"
  by (simp add: stale_reasons_def drifted_def label_drift)

text \<open>
  A stale outcome reports the stored proof's drift exactly: one reason for each dimension
  that drifted, in a fixed order, none for a dimension that did not, and at least one.
\<close>

theorem stale_outcome_exact:
  "(case load_valid_for_claim rfc now d c ctx of
      StaleProof rs \<Rightarrow>
        (\<exists>ev. load_file d (evidence_path c (cx_fingerprint ctx)) = Some ev \<and>
           ev_fingerprint ev = cx_fingerprint ctx \<and> rs \<noteq> [] \<and> map label rs = drifted now ctx ev)
    | Hit ev \<Rightarrow> drifted now ctx ev = []
    | Miss \<Rightarrow> True)"
  using label_stale_reasons [of rfc now ctx] stale_reasons_Nil_iff [of rfc now ctx]
  by (auto simp: load_valid_cases split: option.splits) (metis list.map_disc_iff)

lemma changed_files_iff:
  "bt_ok old \<Longrightarrow> p \<in> set (changed_files old new) \<longleftrightarrow>
     (\<exists>h h'. bt_get old p = Some h \<and> bt_get new p = Some h' \<and> h \<noteq> h')"
  by (force simp: changed_files_def bt_get_entry [symmetric] split: option.splits)

lemma removed_files_iff:
  "bt_ok old \<Longrightarrow> p \<in> set (removed_files old new) \<longleftrightarrow> (bt_get old p \<noteq> None \<and> bt_get new p = None)"
  by (force simp: removed_files_def bt_get_entry [symmetric])

lemma added_files_iff:
  "p \<in> set (added_files old new) \<longleftrightarrow> (bt_get old p = None \<and> bt_get new p \<noteq> None)"
  by (auto simp: added_files_def bt_get_keys [symmetric])

text \<open>
  The files a stale proof names are exactly the files whose hashes differ: two recorded
  subjects agree on a path if and only if the path is neither changed, added nor removed, and
  no path is named under two heads.
\<close>

theorem subject_diff_exact:
  assumes "bt_ok old" and "bt_ok new"
  shows "(bt_get old p = bt_get new p \<longleftrightarrow>
      p \<notin> set (changed_files old new) \<union> set (added_files old new) \<union> set (removed_files old new)) \<and>
    set (changed_files old new) \<inter> set (added_files old new) = {} \<and>
    set (changed_files old new) \<inter> set (removed_files old new) = {} \<and>
    set (added_files old new) \<inter> set (removed_files old new) = {}"
  using assms by (auto simp: changed_files_iff removed_files_iff added_files_iff)

theorem subject_diff_exact_witness:
  "bt_get [(''a'', ''1''), (''b'', ''2'')] ''b'' \<noteq> bt_get [(''b'', ''3''), (''c'', ''4'')] ''b'' \<and>
   changed_files [(''a'', ''1''), (''b'', ''2'')] [(''b'', ''3''), (''c'', ''4'')] = [''b'']"
proof -
  have "bt_ok [(''a'', ''1''), (''b'', ''2'')]" "bt_ok [(''b'', ''3''), (''c'', ''4'')]"
    by (simp_all add: bt_ok_def bt_keys_def)
  note subject_diff_exact [OF this, of "''b''"]
  then show ?thesis by (simp add: changed_files_def bt_get_def)
qed

text \<open>
  Time only ever takes proofs away: a proof that is a hit at some instant was a hit at
  every earlier one, for the same directory and context.
\<close>

theorem hit_antimono:
  assumes "load_valid_for_claim rfc now' d c ctx = Hit ev" and "now \<le> now'"
  shows "load_valid_for_claim rfc now d c ctx = Hit ev"
  using assms by (auto simp: load_valid_Hit covers_def split: option.splits)

definition demo_record :: evidence where
  "demo_record =
     \<lparr>ev_id = ''a-1'', ev_claim_id = ''a'', ev_producer = ''shell-verifier'', ev_command = ''true'',
      ev_exit_code = 0, ev_output_hash = [], ev_output_excerpt = [], ev_commit_sha = ''s'',
      ev_workspace_dirty = False, ev_state = Valid, ev_created_at = 0, ev_duration_ms = 0,
      ev_artifact_hash = [], ev_artifact_files = [], ev_fingerprint = ''f0'',
      ev_registry_hash = ''r'', ev_policy_hash = [], ev_contract_hash = ''c'', ev_platform = ''linux'',
      ev_actor = default_actor, ev_executor = default_actor, ev_binding_hash = [],
      ev_expires_at = Some 9\<rparr>"

definition demo_context :: evidence_context where
  "demo_context =
     \<lparr>cx_fingerprint = ''f0'', cx_commit_sha = ''s'', cx_workspace_dirty = False,
      cx_artifact_hash = None, cx_artifact_files = [], cx_registry_hash = ''r'',
      cx_contract_hash = ''c'', cx_platform = ''linux'', cx_binding_hash = None\<rparr>"

theorem hit_antimono_witness:
  "load_valid_for_claim (\<lambda>_. []) 3 [(evidence_path ''a'' ''f0'', demo_record)] ''a'' demo_context =
     Hit demo_record"
  by (rule hit_antimono [where now' = 8])
    (simp_all add: load_valid_Hit load_file_def demo_record_def demo_context_def covers_def
      is_stale_def bound_def)

text \<open>
  The state \<open>Stale\<close> on disk does not make a stored proof stale: only \<open>Invalid\<close> is refused,
  so a record saved with the state \<open>Stale\<close> is a hit as soon as its context matches.
\<close>

theorem stale_state_is_a_hit:
  assumes "ev_state ev = Stale" and "covers now ctx ev" and "ev_fingerprint ev = cx_fingerprint ctx"
  shows "load_valid_for_claim rfc now
           (save_file (evidence_path c (cx_fingerprint ctx)) ev d) c ctx = Hit ev"
  using assms by (simp add: load_valid_Hit ed.load_save)

subsection \<open>File names\<close>

lemma last_sep_unique:
  assumes "CHR ''_'' \<notin> set f" and "CHR ''_'' \<notin> set f'"
    and "c @ ''__'' @ f = c' @ ''__'' @ f'"
  shows "c = c' \<and> f = f'"
proof -
  have e: "rev f @ CHR ''_'' # CHR ''_'' # rev c = rev f' @ CHR ''_'' # CHR ''_'' # rev c'"
    using arg_cong [OF assms(3), of rev] by simp
  have "takeWhile (\<lambda>x. x \<noteq> CHR ''_'') (rev f @ CHR ''_'' # zs) = rev f"
    if "CHR ''_'' \<notin> set f" for f zs
    using that by (subst takeWhile_append2) auto
  then have "rev f = rev f'" using e assms(1,2) by metis
  then show ?thesis using e by simp
qed

text \<open>
  Evidence files never collide: for fingerprints without an underscore (they are
  hexadecimal), two claims or two fingerprints have different files.
\<close>

theorem evidence_path_inject:
  assumes "CHR ''_'' \<notin> set fp" and "CHR ''_'' \<notin> set fp'"
    and "evidence_path c fp = evidence_path c' fp'"
  shows "c = c' \<and> fp = fp'"
proof -
  have "c @ ''__'' @ fp @ ''.json'' = c' @ ''__'' @ fp' @ ''.json''"
    using assms(3) by (simp add: evidence_path_def)
  then have "c @ ''__'' @ fp = c' @ ''__'' @ fp'"
    by (metis append_assoc append_same_eq)
  then show ?thesis using last_sep_unique assms(1,2) by blast
qed

theorem evidence_path_inject_witness:
  "evidence_path ''a'' ''f0'' \<noteq> evidence_path ''a__b'' ''f0''"
  using evidence_path_inject [of "''f0''" "''f0''" "''a''" "''a__b''"] by auto

text \<open>
  A listing by prefix is less careful: the files of a claim whose id continues another claim's
  with two underscores are taken for that other claim's files.
\<close>

theorem claim_file_confusion: "claim_file c (evidence_path (c @ ''__'' @ d) fp)"
proof -
  have "starts_with (c @ ''__'') (evidence_path (c @ ''__'' @ d) fp)"
    by (auto simp: evidence_path_def starts_with_iff)
  moreover have "ends_with ''.json'' (evidence_path (c @ ''__'' @ d) fp)"
    by (auto simp: evidence_path_def ends_with_def starts_with_iff)
  ultimately show ?thesis by (simp add: claim_file_def)
qed

subsection \<open>The newest evidence of a claim\<close>

definition latest_so_far :: "evidence list \<Rightarrow> evidence option \<Rightarrow> bool" where
  "latest_so_far evs best \<longleftrightarrow>
     (case best of None \<Rightarrow> evs = []
      | Some b \<Rightarrow> b \<in> set evs \<and> (\<forall>e\<in>set evs. ev_created_at e \<le> ev_created_at b))"

lemma latest_newer: "latest_so_far evs best \<Longrightarrow> latest_so_far (evs @ [ev]) (newer ev best)"
  by (cases best) (auto simp: latest_so_far_def newer_def intro: order_trans)

lemma latest_fold:
  "latest_so_far evs best \<Longrightarrow>
     latest_so_far (evs @ map snd (filter (\<lambda>(n, _). claim_file c n) xs))
       (fold (\<lambda>(n, ev) best. if claim_file c n then newer ev best else best) xs best)"
proof (induction xs arbitrary: evs best)
  case Nil
  then show ?case by simp
next
  case (Cons x xs)
  then show ?case
    using Cons.IH [of "evs @ [snd x]" "newer (snd x) best"] latest_newer [of evs best "snd x"]
    by (cases x) auto
qed

definition claim_evidence :: "evidence_dir \<Rightarrow> string \<Rightarrow> evidence list" where
  "claim_evidence d c = map snd (filter (\<lambda>(n, _). claim_file c n) (listed d))"

text \<open>
  \<open>latest_for_claim\<close> gives the newest record among the claim's listed files: there is
  none only if no file is the claim's, and no other of its records is more recent.
\<close>

theorem latest_is_newest: "latest_so_far (claim_evidence d c) (latest_for_claim d c)"
  using latest_fold [of "[]" None c "listed d"]
  by (simp add: latest_for_claim_def claim_evidence_def latest_so_far_def)

end
