(* ===== verification/Decision.thy ===== *)
theory Decision
  imports Evidence_Facts "HOL-Library.Multiset"
begin

section \<open>The decision engine and the assurance scale (crates/uni-decision)\<close>

text \<open>
  \<open>evaluate\<close> is one pass over the claims that accumulates the claim results and two
  counters. Reasons are constructors carrying what the printed reason names. The policy layer
  is in \<open>Policy\<close>.
\<close>

datatype decision = Accepted | Rejected | EvidenceRequired | Escalated

definition assurance_of :: "decision \<Rightarrow> nat" where
  "assurance_of d = (case d of Accepted \<Rightarrow> 2 | Rejected \<Rightarrow> 1 | _ \<Rightarrow> 0)"

definition assurance_label :: "nat \<Rightarrow> string" where
  "assurance_label level =
     (if level = 0 then ''DECLARED'' else if level = 1 then ''ARTIFACT''
      else if level = 2 then ''VERIFIED'' else if level = 3 then ''INDEPENDENTLY_VERIFIED''
      else if level = 4 then ''ATTESTED'' else ''?'')"

text \<open>The names serde gives the decisions, and reading one back (\<open>None\<close>: not a decision).\<close>

definition decision_name :: "decision \<Rightarrow> string" where
  "decision_name d = (case d of Accepted \<Rightarrow> ''Accepted'' | Rejected \<Rightarrow> ''Rejected''
     | EvidenceRequired \<Rightarrow> ''EvidenceRequired'' | Escalated \<Rightarrow> ''Escalated'')"

definition decision_of_name :: "string \<Rightarrow> decision option" where
  "decision_of_name s =
     (if s = ''Accepted'' then Some Accepted else if s = ''Rejected'' then Some Rejected
      else if s = ''EvidenceRequired'' then Some EvidenceRequired
      else if s = ''Escalated'' then Some Escalated else None)"

text \<open>\<open>assurance_of_json\<close> on a JSON value: \<open>None\<close> stands for a value that is no string.\<close>

definition assurance_of_json :: "string option \<Rightarrow> nat" where
  "assurance_of_json v =
     (case v of None \<Rightarrow> 0
      | Some s \<Rightarrow> (case decision_of_name s of None \<Rightarrow> 0 | Some d \<Rightarrow> assurance_of d))"

subsection \<open>Independence and identity\<close>

datatype independence = Independent | SameActor | Anonymous

fun independence_loop :: "evidence list \<Rightarrow> independence" where
  "independence_loop [] = Independent"
| "independence_loop (ev # evs) =
     (if is_anonymous (ev_actor ev) \<or> is_anonymous (ev_executor ev) then Anonymous
      else if ac_id (ev_actor ev) = ac_id (ev_executor ev) then SameActor
      else independence_loop evs)"

definition independence :: "evidence list \<Rightarrow> independence" where
  "independence evs = (if evs = [] then Anonymous else independence_loop evs)"

definition identity_assurance :: "evidence list \<Rightarrow> string" where
  "identity_assurance evs =
     (if evs = [] then ''SELF-DECLARED''
      else if list_all (\<lambda>ev. is_verified (ev_actor ev)) evs then ''VERIFIED''
      else ''SELF-DECLARED'')"

definition assurance_for :: "evidence list \<Rightarrow> string" where
  "assurance_for evs =
     (if evs = [] then ''A0''
      else if independence evs = Independent then
        (if identity_assurance evs = ''VERIFIED'' then ''A3'' else ''A3-D'')
      else ''A2'')"

subsection \<open>Claim results and the truth table\<close>

record claim_result =
  cr_claim_id :: string
  cr_required :: bool
  cr_critical :: bool
  cr_state :: evidence_state
  cr_detail :: string

datatype reason =
    CriticalFailures nat
  | Unverified nat
  | AllVerified
  | BelowRatio nat nat
  | EscalateOnStale reason
  | InvalidNotRejected reason
  | EscalateOnMissing reason
  | StaleNotRenewed reason

record decision_result =
  dr_decision :: decision
  dr_claims :: "claim_result list"
  dr_reason :: reason

record tally =
  tl_results :: "claim_result list"
  tl_critical_fail :: nat
  tl_missing :: nat

definition push_result :: "claim_ir \<Rightarrow> evidence_state \<Rightarrow> string \<Rightarrow> tally \<Rightarrow> tally" where
  "push_result c st detail t =
     t\<lparr>tl_results := tl_results t @
         [\<lparr>cr_claim_id = ci_id c, cr_required = ci_required c, cr_critical = ci_critical c,
           cr_state = st, cr_detail = detail\<rparr>]\<rparr>"

definition count_critical :: "tally \<Rightarrow> tally" where
  "count_critical t = t\<lparr>tl_critical_fail := tl_critical_fail t + 1\<rparr>"

definition count_missing :: "tally \<Rightarrow> tally" where
  "count_missing t = t\<lparr>tl_missing := tl_missing t + 1\<rparr>"

text \<open>One claim: the whole loop body.\<close>

definition evaluate_claim :: "evidence list \<Rightarrow> claim_ir \<Rightarrow> tally \<Rightarrow> tally" where
  "evaluate_claim evidences c t =
     (let evs = filter (\<lambda>e. ev_claim_id e = ci_id c) evidences in
      case List.find (\<lambda>e. ev_state e = Valid) evs of
        Some ev \<Rightarrow>
          if ev_exit_code ev \<noteq> 0 then
            (let t' = push_result c Invalid (''exit '' @ show_int (ev_exit_code ev)) t in
             if ci_critical c then count_critical t'
             else if ci_required c then count_missing t' else t')
          else push_result c Valid (''evidence '' @ ev_id ev) t
      | None \<Rightarrow>
          let st = (case evs of [] \<Rightarrow> Invalid
                    | e # _ \<Rightarrow> (if ev_state e = Stale then Stale else Invalid));
              t' = push_result c st ''no valid evidence'' t
          in if ci_critical c then
               (if list_ex (\<lambda>e. ev_state e = Invalid) evs then count_critical t'
                else count_missing t')
             else if ci_required c then count_missing t' else t')"

definition evaluate :: "ir \<Rightarrow> evidence list \<Rightarrow> decision_result" where
  "evaluate i evidences =
     (let t = fold (evaluate_claim evidences) (ir_claims i)
                \<lparr>tl_results = [], tl_critical_fail = 0, tl_missing = 0\<rparr>;
          (d, r) =
            (if 0 < tl_critical_fail t then (Rejected, CriticalFailures (tl_critical_fail t))
             else if 0 < tl_missing t then (EvidenceRequired, Unverified (tl_missing t))
             else (Accepted, AllVerified))
      in \<lparr>dr_decision = d, dr_claims = tl_results t, dr_reason = r\<rparr>)"

definition evaluate_intent :: "ir \<Rightarrow> evidence list \<Rightarrow> decision_result" where
  "evaluate_intent i evidences = evaluate i evidences"

subsection \<open>What the truth table means for one claim\<close>

text \<open>The evidence that speaks for a claim: the first valid record about it.\<close>

definition best_evidence :: "evidence list \<Rightarrow> string \<Rightarrow> evidence option" where
  "best_evidence evs c = List.find (\<lambda>e. ev_state e = Valid) (filter (\<lambda>e. ev_claim_id e = c) evs)"

definition proven :: "evidence list \<Rightarrow> string \<Rightarrow> bool" where
  "proven evs c \<longleftrightarrow> (case best_evidence evs c of None \<Rightarrow> False | Some e \<Rightarrow> ev_exit_code e = 0)"

definition disproved :: "evidence list \<Rightarrow> string \<Rightarrow> bool" where
  "disproved evs c \<longleftrightarrow>
     (case best_evidence evs c of
        Some e \<Rightarrow> ev_exit_code e \<noteq> 0
      | None \<Rightarrow> \<exists>e\<in>set evs. ev_claim_id e = c \<and> ev_state e = Invalid)"

definition is_critical_failure :: "evidence list \<Rightarrow> claim_ir \<Rightarrow> bool" where
  "is_critical_failure evs c \<longleftrightarrow> ci_critical c \<and> disproved evs (ci_id c)"

definition is_missing :: "evidence list \<Rightarrow> claim_ir \<Rightarrow> bool" where
  "is_missing evs c \<longleftrightarrow> \<not> proven evs (ci_id c) \<and>
     (if ci_critical c then \<not> disproved evs (ci_id c) else ci_required c)"

definition first_state :: "evidence list \<Rightarrow> string \<Rightarrow> evidence_state" where
  "first_state evs c =
     (case filter (\<lambda>e. ev_claim_id e = c) evs of
        [] \<Rightarrow> Invalid | e # _ \<Rightarrow> (if ev_state e = Stale then Stale else Invalid))"

definition result_of :: "evidence list \<Rightarrow> claim_ir \<Rightarrow> claim_result" where
  "result_of evs c =
     \<lparr>cr_claim_id = ci_id c, cr_required = ci_required c, cr_critical = ci_critical c,
      cr_state = (case best_evidence evs (ci_id c) of
                    Some e \<Rightarrow> (if ev_exit_code e = 0 then Valid else Invalid)
                  | None \<Rightarrow> first_state evs (ci_id c)),
      cr_detail = (case best_evidence evs (ci_id c) of
                     Some e \<Rightarrow> (if ev_exit_code e = 0 then ''evidence '' @ ev_id e
                                else ''exit '' @ show_int (ev_exit_code e))
                   | None \<Rightarrow> ''no valid evidence'')\<rparr>"

lemma not_proven_disproved: "proven evs c \<Longrightarrow> \<not> disproved evs c"
  by (auto simp: proven_def disproved_def split: option.splits)

lemma evaluate_claim_tally:
  "evaluate_claim evs c t =
     t\<lparr>tl_results := tl_results t @ [result_of evs c],
       tl_critical_fail := tl_critical_fail t + (if is_critical_failure evs c then 1 else 0),
       tl_missing := tl_missing t + (if is_missing evs c then 1 else 0)\<rparr>"
proof (cases "best_evidence evs (ci_id c)")
  case None
  then show ?thesis
    by (auto simp: evaluate_claim_def Let_def push_result_def count_critical_def count_missing_def
        result_of_def is_critical_failure_def is_missing_def proven_def disproved_def
        best_evidence_def first_state_def list_ex_iff split: list.splits)
next
  case (Some e)
  then show ?thesis
    by (auto simp: evaluate_claim_def Let_def push_result_def count_critical_def count_missing_def
        result_of_def is_critical_failure_def is_missing_def proven_def disproved_def
        best_evidence_def)
qed

lemma fold_evaluate:
  "fold (evaluate_claim evs) cs t =
     \<lparr>tl_results = tl_results t @ map (result_of evs) cs,
      tl_critical_fail = tl_critical_fail t + length (filter (is_critical_failure evs) cs),
      tl_missing = tl_missing t + length (filter (is_missing evs) cs)\<rparr>"
  by (induction cs arbitrary: t) (simp_all add: evaluate_claim_tally)

lemma evaluate_closed:
  "evaluate i evs =
     (let crit = length (filter (is_critical_failure evs) (ir_claims i));
          miss = length (filter (is_missing evs) (ir_claims i)) in
      \<lparr>dr_decision = (if 0 < crit then Rejected else if 0 < miss then EvidenceRequired else Accepted),
       dr_claims = map (result_of evs) (ir_claims i),
       dr_reason = (if 0 < crit then CriticalFailures crit
                    else if 0 < miss then Unverified miss else AllVerified)\<rparr>)"
  by (simp add: evaluate_def fold_evaluate Let_def)

lemma decision_cases:
  "dr_decision (evaluate i evs) = Rejected \<longleftrightarrow> (\<exists>c\<in>set (ir_claims i). is_critical_failure evs c)"
  "dr_decision (evaluate i evs) = Accepted \<longleftrightarrow>
     (\<forall>c\<in>set (ir_claims i). \<not> is_critical_failure evs c \<and> \<not> is_missing evs c)"
  "dr_decision (evaluate i evs) \<noteq> Escalated"
  by (auto simp: evaluate_closed Let_def filter_empty_conv)

lemma find_Some_mem: "best_evidence evs c = Some e \<Longrightarrow> e \<in> set evs \<and> ev_claim_id e = c \<and> ev_state e = Valid"
  by (auto simp: best_evidence_def dest: find_Some_iff2)

lemma find_None_mem: "best_evidence evs c = None \<Longrightarrow> e \<in> set evs \<Longrightarrow> ev_claim_id e = c \<Longrightarrow> ev_state e \<noteq> Valid"
  by (auto simp: best_evidence_def find_None_filter)


definition demo_actor :: "string \<Rightarrow> actor" where
  "demo_actor i = \<lparr>ac_id = i, ac_source = ''cli'', ac_assurance = ''self-declared''\<rparr>"

definition demo_evidence :: "string \<Rightarrow> evidence_state \<Rightarrow> int \<Rightarrow> evidence" where
  "demo_evidence c st code =
     \<lparr>ev_id = c @ ''-1'', ev_claim_id = c, ev_producer = ''shell'', ev_command = ''true'',
      ev_exit_code = code, ev_output_hash = [], ev_output_excerpt = [], ev_commit_sha = ''s'',
      ev_workspace_dirty = False, ev_state = st, ev_created_at = 0, ev_duration_ms = 0,
      ev_artifact_hash = [], ev_artifact_files = [], ev_fingerprint = ''f'',
      ev_registry_hash = [], ev_policy_hash = [], ev_contract_hash = [], ev_platform = [],
      ev_actor = demo_actor ''ci'', ev_executor = demo_actor ''dev'', ev_binding_hash = [],
      ev_expires_at = None\<rparr>"


lemma accepted_evidence:
  assumes "dr_decision (evaluate i evs) = Accepted" and "c \<in> set (ir_claims i)"
    and "ci_required c \<or> ci_critical c"
  shows "\<exists>e\<in>set evs. ev_claim_id e = ci_id c \<and> ev_state e = Valid \<and> ev_exit_code e = 0"
proof -
  have "proven evs (ci_id c)"
  proof (rule ccontr)
    assume n: "\<not> proven evs (ci_id c)"
    have "\<not> is_critical_failure evs c" and "\<not> is_missing evs c"
      using assms(1,2) by (auto simp: decision_cases)
    then show False
      using n assms(3) by (auto simp: is_critical_failure_def is_missing_def split: if_splits)
  qed
  then show ?thesis using find_Some_mem [of evs "ci_id c"] by (auto simp: proven_def split: option.splits)
qed

text \<open>
  No false accept: whenever the decision is Accepted, each required claim has a record
  about it, in the list of evidence, that is valid and exited with 0.
\<close>

theorem no_false_accept:
  assumes "dr_decision (evaluate i evs) = Accepted" and "c \<in> set (ir_claims i)"
    and "ci_required c \<or> ci_critical c"
  shows "\<exists>e\<in>set evs. ev_claim_id e = ci_id c \<and> ev_state e = Valid \<and> ev_exit_code e = 0"
  using accepted_evidence [OF assms] .

theorem no_false_accept_witness:
  "\<exists>e\<in>set [demo_evidence ''a'' Valid 0]. ev_claim_id e = ''a'' \<and> ev_state e = Valid \<and> ev_exit_code e = 0"
  using no_false_accept [of demo_ir "[demo_evidence ''a'' Valid 0]" "hd (ir_claims demo_ir)"]
  by (simp add: decision_cases demo_ir_def is_critical_failure_def is_missing_def proven_def
      disproved_def best_evidence_def demo_evidence_def)

text \<open>
  A contract is rejected exactly when a critical claim is disproved: the valid record
  that speaks for it exited with another code than 0, or there is no valid record and one
  about it is invalid. Stale or absent evidence alone never rejects.
\<close>

theorem rejected_iff:
  "dr_decision (evaluate i evs) = Rejected \<longleftrightarrow>
     (\<exists>c\<in>set (ir_claims i). ci_critical c \<and> disproved evs (ci_id c))"
  by (auto simp: decision_cases is_critical_failure_def)

subsection \<open>The order of the evidence\<close>

text \<open>
  Executed evidence is \<open>Valid\<close> only with exit code 0. On such lists the decision does not
  depend on the order in which the evidence is listed.
\<close>

definition sound_evidence :: "evidence list \<Rightarrow> bool" where
  "sound_evidence evs \<longleftrightarrow> list_all (\<lambda>e. ev_state e = Valid \<longrightarrow> ev_exit_code e = 0) evs"

lemma proven_sound:
  assumes "sound_evidence evs"
  shows "proven evs c \<longleftrightarrow> (\<exists>e\<in>set evs. ev_claim_id e = c \<and> ev_state e = Valid)"
proof (cases "best_evidence evs c")
  case None
  then show ?thesis using find_None_mem [OF None] by (auto simp: proven_def)
next
  case (Some e)
  then show ?thesis
    using find_Some_mem [OF Some] assms by (auto simp: proven_def sound_evidence_def list_all_iff)
qed

lemma disproved_sound:
  assumes "sound_evidence evs"
  shows "disproved evs c \<longleftrightarrow> \<not> (\<exists>e\<in>set evs. ev_claim_id e = c \<and> ev_state e = Valid) \<and>
     (\<exists>e\<in>set evs. ev_claim_id e = c \<and> ev_state e = Invalid)"
proof (cases "best_evidence evs c")
  case None
  then show ?thesis using find_None_mem [OF None] by (auto simp: disproved_def)
next
  case (Some e)
  then show ?thesis
    using find_Some_mem [OF Some] assms by (auto simp: disproved_def sound_evidence_def list_all_iff)
qed

text \<open>
  C32. The decision is a function of the set of evidence: on records that are valid only with
  exit code 0, any reordering or repetition of the evidence gives the same decision.
\<close>

theorem decision_set_invariant:
  assumes "set evs = set evs'" and "sound_evidence evs"
  shows "dr_decision (evaluate i evs) = dr_decision (evaluate i evs')"
proof -
  have s': "sound_evidence evs'" using assms by (simp add: sound_evidence_def list_all_iff)
  have "proven evs c = proven evs' c" "disproved evs c = disproved evs' c" for c
    using proven_sound [OF assms(2)] proven_sound [OF s'] disproved_sound [OF assms(2)]
      disproved_sound [OF s'] assms(1) by simp_all
  then have "is_critical_failure evs = is_critical_failure evs'" "is_missing evs = is_missing evs'"
    by (auto simp: fun_eq_iff is_critical_failure_def is_missing_def)
  then show ?thesis by (simp add: evaluate_closed Let_def)
qed

theorem decision_set_invariant_witness:
  "dr_decision (evaluate demo_ir [demo_evidence ''a'' Stale 0, demo_evidence ''a'' Valid 0]) =
   dr_decision (evaluate demo_ir [demo_evidence ''a'' Valid 0, demo_evidence ''a'' Stale 0])"
  by (rule decision_set_invariant) (auto simp: sound_evidence_def demo_evidence_def)

text \<open>Without that condition the first valid record decides, so the order matters.\<close>

theorem decision_order_matters:
  "\<exists>i e e'. dr_decision (evaluate i [e, e']) = Accepted \<and>
     dr_decision (evaluate i [e', e]) = EvidenceRequired"
proof (intro exI conjI)
  let ?e = "demo_evidence ''a'' Valid 0" and ?f = "demo_evidence ''a'' Valid 1"
  show "dr_decision (evaluate demo_ir [?e, ?f]) = Accepted" by code_simp
  show "dr_decision (evaluate demo_ir [?f, ?e]) = EvidenceRequired" by code_simp
qed

text \<open>
  The state listed for a claim depends on the order even on sound evidence: a stale record
  before an invalid one makes the claim stale, the other way round it is invalid.
\<close>

theorem listed_state_order_matters:
  "\<exists>i e e'. sound_evidence [e, e'] \<and>
     map cr_state (dr_claims (evaluate i [e, e'])) \<noteq> map cr_state (dr_claims (evaluate i [e', e]))"
proof (intro exI conjI)
  let ?e = "demo_evidence ''a'' Stale 0" and ?f = "demo_evidence ''a'' Invalid 1"
  show "sound_evidence [?e, ?f]" by code_simp
  show "map cr_state (dr_claims (evaluate demo_ir [?e, ?f])) \<noteq>
        map cr_state (dr_claims (evaluate demo_ir [?f, ?e]))" by code_simp
qed

subsection \<open>The assurance scale\<close>

lemma independence_loop_iff:
  "independence_loop evs = Independent \<longleftrightarrow>
     list_all (\<lambda>ev. \<not> is_anonymous (ev_actor ev) \<and> \<not> is_anonymous (ev_executor ev) \<and>
       ac_id (ev_actor ev) \<noteq> ac_id (ev_executor ev)) evs"
  by (induction evs) auto

text \<open>
  C37. The scale never over-reports: A3 means there is evidence and every record of it has a
  named executor and a named, externally verified actor that are two different identities;
  A3-D the same without the verification; A0 means there is none.
\<close>

theorem assurance_exact:
  "(assurance_for evs = ''A0'' \<longleftrightarrow> evs = []) \<and>
   (assurance_for evs = ''A3'' \<longleftrightarrow> evs \<noteq> [] \<and>
      (\<forall>ev\<in>set evs. \<not> is_anonymous (ev_actor ev) \<and> \<not> is_anonymous (ev_executor ev) \<and>
         ac_id (ev_actor ev) \<noteq> ac_id (ev_executor ev) \<and> is_verified (ev_actor ev))) \<and>
   (assurance_for evs \<in> {''A3'', ''A3-D''} \<longleftrightarrow> evs \<noteq> [] \<and>
      (\<forall>ev\<in>set evs. \<not> is_anonymous (ev_actor ev) \<and> \<not> is_anonymous (ev_executor ev) \<and>
         ac_id (ev_actor ev) \<noteq> ac_id (ev_executor ev)))"
  by (auto simp: assurance_for_def independence_def identity_assurance_def independence_loop_iff
      list_all_iff)

theorem assurance_exact_witness:
  "assurance_for [(demo_evidence ''a'' Valid 0)\<lparr>ev_actor := verified_actor ''ci:1'' ''oidc''\<rparr>] = ''A3''"
  using assurance_exact [of "[(demo_evidence ''a'' Valid 0)\<lparr>ev_actor := verified_actor ''ci:1'' ''oidc''\<rparr>]"]
  by (simp add: demo_evidence_def demo_actor_def verified_actor_def is_verified_def
      is_anonymous_def trim_def trim_matches_def trim_start_matches_def trim_end_matches_def is_ws_def)

text \<open>
  Adding evidence can only lower the reported level: a flag-declared or anonymous actor
  anywhere in the set removes A3.
\<close>

lemma assurance_A3_subset:
  "assurance_for evs = ''A3'' \<Longrightarrow> set evs' \<subseteq> set evs \<Longrightarrow> evs' \<noteq> [] \<Longrightarrow> assurance_for evs' = ''A3''"
  by (auto simp: assurance_for_def independence_def identity_assurance_def independence_loop_iff
      list_all_iff split: if_splits)

lemma assurance_of_json_bound: "assurance_of_json v \<le> 2"
  by (auto simp: assurance_of_json_def assurance_of_def split: option.splits decision.splits)

lemma decision_name_roundtrip: "decision_of_name (decision_name d) = Some d"
  by (cases d) (simp_all add: decision_name_def decision_of_name_def)

end
