(* ===== verification/Policy.thy ===== *)
theory Policy
  imports Decision Documents
begin

section \<open>The policy layer (crates/uni-decision, policies and their providers)\<close>

text \<open>
  \<open>apply_policy\<close> adjusts a decision that the truth table made; a policy comes from the TOML
  files of \<open>.uni/policies\<close> or from an external \<open>opa\<close> process. The directory is given as the
  entries \<open>read_dir\<close> lists, each with its text where it can be read.
\<close>

record policy =
  reject_on_invalid :: bool
  escalate_on_stale :: bool
  escalate_on_missing :: bool
  min_verified_ratio :: f64

definition default_policy :: policy where
  "default_policy =
     \<lparr>reject_on_invalid = True, escalate_on_stale = False, escalate_on_missing = False,
      min_verified_ratio = Fin 0\<rparr>"

definition count_verified :: "claim_result list \<Rightarrow> nat" where
  "count_verified cs = length (filter (\<lambda>c. cr_state c = Valid) cs)"

definition has_state :: "evidence_state \<Rightarrow> claim_result list \<Rightarrow> bool" where
  "has_state st cs = list_ex (\<lambda>c. cr_state c = st) cs"

definition below_ratio :: "claim_result list \<Rightarrow> policy \<Rightarrow> bool" where
  "below_ratio cs p \<longleftrightarrow>
     0 < length cs \<and> f64_less (Fin 0) (min_verified_ratio p) \<and>
     f64_less (f64_quot (count_verified cs) (max (length cs) 1)) (min_verified_ratio p)"

definition decide :: "decision \<Rightarrow> reason \<Rightarrow> decision_result \<Rightarrow> decision_result" where
  "decide d r res = res\<lparr>dr_decision := d, dr_reason := r\<rparr>"

definition apply_policy :: "decision_result \<Rightarrow> policy \<Rightarrow> decision_result" where
  "apply_policy r p =
     (if below_ratio (dr_claims r) p then
        decide Rejected (BelowRatio (count_verified (dr_claims r)) (length (dr_claims r))) r
      else
        let has_stale = has_state Stale (dr_claims r);
            has_invalid = has_state Invalid (dr_claims r)
        in
        if has_stale \<and> escalate_on_stale p \<and> dr_decision r \<noteq> Accepted then
          decide Escalated (EscalateOnStale (dr_reason r)) r
        else if has_invalid \<and> \<not> reject_on_invalid p \<and> dr_decision r = Rejected then
          decide Escalated (InvalidNotRejected (dr_reason r)) r
        else if has_invalid \<and> escalate_on_missing p \<and> dr_decision r = EvidenceRequired then
          decide Escalated (EscalateOnMissing (dr_reason r)) r
        else r)"

subsection \<open>The TOML stack\<close>

type_synonym text_dir = "(string \<times> string option) list"

definition read_policy :: "toml btree \<Rightarrow> policy \<Rightarrow> policy" where
  "read_policy t p =
     (let get_bool = (\<lambda>k. Option.bind (bt_get t k) as_bool);
          get_f64 = (\<lambda>k. Option.bind (bt_get t k) as_float);
          p1 = (case get_bool ''reject_on_invalid'' of
                  Some b \<Rightarrow> p\<lparr>reject_on_invalid := b\<rparr> | None \<Rightarrow> p);
          p2 = (case get_bool ''escalate_on_stale'' of
                  Some b \<Rightarrow> p1\<lparr>escalate_on_stale := (escalate_on_stale p1 \<or> b)\<rparr> | None \<Rightarrow> p1);
          p3 = (case get_bool ''escalate_on_missing'' of
                  Some b \<Rightarrow> p2\<lparr>escalate_on_missing := (escalate_on_missing p2 \<or> b)\<rparr> | None \<Rightarrow> p2)
      in (case get_f64 ''min_verified_ratio'' of
            Some f \<Rightarrow> p3\<lparr>min_verified_ratio := f64_max (min_verified_ratio p3) f\<rparr> | None \<Rightarrow> p3))"

text \<open>The \<open>[policy]\<close> table of one file; an unreadable or unparsable file has none.\<close>

definition policy_table :: "(string \<Rightarrow> toml option) \<Rightarrow> string option \<Rightarrow> toml btree option" where
  "policy_table parse_toml content =
     Option.bind content (\<lambda>text. Option.bind (parse_toml text)
       (\<lambda>v. Option.bind (toml_get v ''policy'') as_table))"

definition policy_files :: "text_dir \<Rightarrow> text_dir" where
  "policy_files d = sort_key fst (filter (\<lambda>(n, _). path_extension n = Some ''toml'') d)"

definition load_policies :: "(string \<Rightarrow> toml option) \<Rightarrow> text_dir option \<Rightarrow> policy" where
  "load_policies parse_toml dir =
     (case dir of
        None \<Rightarrow> default_policy
      | Some d \<Rightarrow>
          fold (\<lambda>(n, content) p.
                  case policy_table parse_toml content of
                    None \<Rightarrow> p | Some t \<Rightarrow> read_policy t p)
               (policy_files d) default_policy)"

subsection \<open>The external engine\<close>

text \<open>
  What the \<open>opa\<close> process gave: it could not be started, or it exited, successfully or not,
  with its standard output where that is UTF-8.
\<close>

datatype opa_run = OpaAbsent | OpaExit bool "string option"

definition escalate_flag :: "bool option \<Rightarrow> bool" where
  "escalate_flag b = (case b of Some x \<Rightarrow> x | None \<Rightarrow> False)"

definition opa_policy :: "(string \<Rightarrow> json option) \<Rightarrow> opa_run \<Rightarrow> policy" where
  "opa_policy parse_json run = (case run of
     OpaAbsent \<Rightarrow> default_policy
   | OpaExit success out \<Rightarrow>
       if \<not> success then default_policy
       else (case out of
         None \<Rightarrow> default_policy
       | Some text \<Rightarrow>
           let v = (case parse_json text of Some v \<Rightarrow> v | None \<Rightarrow> JNull);
               first = (case json_array v of
                          Some (x # _) \<Rightarrow> (case json_object x of Some m \<Rightarrow> m | None \<Rightarrow> [])
                        | _ \<Rightarrow> [])
           in \<lparr>reject_on_invalid =
                 (case Option.bind (bt_get first ''reject_on_invalid'') json_bool of
                    Some b \<Rightarrow> b | None \<Rightarrow> True),
               escalate_on_stale =
                 escalate_flag (Option.bind (bt_get first ''escalate_on_stale'') json_bool),
               escalate_on_missing =
                 escalate_flag (Option.bind (bt_get first ''escalate_on_missing'') json_bool),
               min_verified_ratio =
                 (case Option.bind (bt_get first ''min_verified_ratio'') json_f64 of
                    Some f \<Rightarrow> f | None \<Rightarrow> Fin 0)\<rparr>))"

subsection \<open>The interface of a policy provider\<close>

text \<open>
  A provider resolves a source to a policy, and falls back to the default policy on a source
  that has nothing to say: then no decision is changed.
\<close>

lemma apply_default: "apply_policy r default_policy = r"
  by (simp add: apply_policy_def below_ratio_def default_policy_def f64_less_def Let_def)

locale policy_provider =
  fixes resolve :: "'s \<Rightarrow> policy" and silent :: "'s \<Rightarrow> bool"
  assumes silent_default: "silent s \<Longrightarrow> resolve s = default_policy"
begin

lemma silent_keeps: "silent s \<Longrightarrow> apply_policy r (resolve s) = r"
  by (simp add: silent_default apply_default)

end

text \<open>A TOML stack is silent if no file of it parses to a document with a policy table.\<close>

definition toml_silent :: "(string \<Rightarrow> toml option) \<Rightarrow> text_dir option \<Rightarrow> bool" where
  "toml_silent parse_toml dir \<longleftrightarrow>
     (case dir of None \<Rightarrow> True
      | Some d \<Rightarrow> list_all (\<lambda>(n, content). policy_table parse_toml content = None) (policy_files d))"

definition opa_silent :: "(string \<Rightarrow> json option) \<Rightarrow> opa_run \<Rightarrow> bool" where
  "opa_silent parse_json run \<longleftrightarrow> (case run of
     OpaAbsent \<Rightarrow> True
   | OpaExit success out \<Rightarrow> \<not> success \<or>
       (case out of None \<Rightarrow> True | Some text \<Rightarrow> parse_json text = None))"

lemma toml_silent_fold:
  "list_all (\<lambda>(n, content). policy_table pt content = None) xs \<Longrightarrow>
     fold (\<lambda>(n, content) p. case policy_table pt content of None \<Rightarrow> p | Some t \<Rightarrow> read_policy t p)
       xs p = p"
  by (induction xs arbitrary: p) auto

interpretation toml: policy_provider "load_policies pt" "toml_silent pt" for pt
  by unfold_locales
    (auto simp: load_policies_def toml_silent_def toml_silent_fold split: option.splits)

interpretation opa: policy_provider "opa_policy pj" "opa_silent pj" for pj
  by unfold_locales
    (auto simp: opa_policy_def opa_silent_def default_policy_def json_array_def escalate_flag_def
      split: opa_run.splits option.splits)

subsection \<open>What a policy can do to a decision\<close>

lemma apply_policy_claims [simp]: "dr_claims (apply_policy r p) = dr_claims r"
  by (simp add: apply_policy_def decide_def Let_def)

text \<open>
  C33. A policy never accepts: it keeps the claim results, and if the outcome under a policy
  is Accepted, the truth table had accepted and the verified ratio is not below the minimum.
\<close>

theorem policy_never_accepts:
  "dr_claims (apply_policy r p) = dr_claims r \<and>
   (dr_decision (apply_policy r p) = Accepted \<longleftrightarrow>
      dr_decision r = Accepted \<and> \<not> below_ratio (dr_claims r) p)"
  by (auto simp: apply_policy_def decide_def Let_def)

text \<open>
  Applying a policy twice decides what applying it once does.\<close>

theorem policy_idempotent:
  "dr_decision (apply_policy (apply_policy r p) p) = dr_decision (apply_policy r p)"
  by (auto simp: apply_policy_def decide_def Let_def)

lemma count_verified_le: "count_verified cs \<le> length cs"
  by (simp add: count_verified_def)

lemma count_verified_all: "count_verified cs = length cs \<longleftrightarrow> (\<forall>c\<in>set cs. cr_state c = Valid)"
proof -
  have "length (filter P xs) = length xs \<longleftrightarrow> (\<forall>x\<in>set xs. P x)" for P :: "'z \<Rightarrow> bool" and xs
    by (metis filter_True filter_id_conv length_filter_less less_irrefl)
  then show ?thesis by (simp add: count_verified_def)
qed

text \<open>
  C40. A minimum ratio of 1 is exact despite floating-point division: with at most
  \<open>2 ^ 53\<close> claims, an outcome under such a policy is Accepted only if every claim, the optional
  ones included, is verified.
\<close>

theorem full_ratio_exact:
  assumes "min_verified_ratio p = Fin 1" and "dr_decision (apply_policy r p) = Accepted"
    and "length (dr_claims r) \<le> 2 ^ 53"
  shows "\<forall>c\<in>set (dr_claims r). cr_state c = Valid"
proof (rule ccontr)
  let ?cs = "dr_claims r"
  assume "\<not> (\<forall>c\<in>set ?cs. cr_state c = Valid)"
  then have "?cs \<noteq> []" and "count_verified ?cs \<noteq> length ?cs"
    using count_verified_all [of ?cs] by auto
  then have "count_verified ?cs < length ?cs" using count_verified_le [of ?cs] by simp
  then obtain q where "f64_quot (count_verified ?cs) (length ?cs) = Fin q" and "q < 1"
    using f64_quot_less assms(3) by blast
  moreover have "max (length ?cs) 1 = length ?cs" using \<open>?cs \<noteq> []\<close> by (cases ?cs) simp_all
  ultimately have "below_ratio ?cs p"
    using assms(1) \<open>?cs \<noteq> []\<close> by (simp add: below_ratio_def f64_less_def)
  then have "dr_decision (apply_policy r p) = Rejected"
    by (simp add: apply_policy_def decide_def)
  then show False using assms(2) by simp
qed

definition strict_policy :: policy where
  "strict_policy = default_policy\<lparr>min_verified_ratio := Fin 1\<rparr>"

theorem full_ratio_exact_witness:
  "map cr_state (dr_claims (evaluate demo_ir [demo_evidence ''a'' Valid 0])) = [Valid]"
proof -
  have e: "evaluate demo_ir [demo_evidence ''a'' Valid 0] =
      \<lparr>dr_decision = Accepted,
       dr_claims = [\<lparr>cr_claim_id = ''a'', cr_required = True, cr_critical = False,
                     cr_state = Valid, cr_detail = ''evidence a-1''\<rparr>],
       dr_reason = AllVerified\<rparr>"
    by code_simp
  have "min_verified_ratio strict_policy = Fin 1" by (simp add: strict_policy_def)
  moreover have "dr_decision (apply_policy (evaluate demo_ir [demo_evidence ''a'' Valid 0]) strict_policy) = Accepted"
    by (simp add: e apply_policy_def below_ratio_def count_verified_def
        f64_quot_self f64_less_def has_state_def strict_policy_def default_policy_def Let_def)
  ultimately have "\<forall>c\<in>set (dr_claims (evaluate demo_ir [demo_evidence ''a'' Valid 0])). cr_state c = Valid"
    by (rule full_ratio_exact) (simp add: e)
  then show ?thesis by (simp add: e)
qed

subsection \<open>What the policy files add up to\<close>

definition policy_tables :: "(string \<Rightarrow> toml option) \<Rightarrow> text_dir \<Rightarrow> toml btree list" where
  "policy_tables pt d = List.map_filter (\<lambda>(n, c). policy_table pt c) (policy_files d)"

definition flag_of :: "string \<Rightarrow> toml btree \<Rightarrow> bool option" where
  "flag_of k t = Option.bind (bt_get t k) as_bool"

definition last_flag :: "bool \<Rightarrow> bool option list \<Rightarrow> bool" where
  "last_flag b0 xs = fold (\<lambda>x b. case x of Some y \<Rightarrow> y | None \<Rightarrow> b) xs b0"

lemma load_policies_tables:
  "load_policies pt (Some d) = fold read_policy (policy_tables pt d) default_policy"
proof -
  have "fold (\<lambda>(n, content) p. case policy_table pt content of None \<Rightarrow> p | Some t \<Rightarrow> read_policy t p) xs p =
        fold read_policy (List.map_filter (\<lambda>(n, c). policy_table pt c) xs) p" for xs p
    by (induction xs arbitrary: p) (auto simp: map_filter_simps split: option.splits)
  then show ?thesis by (simp add: load_policies_def policy_tables_def)
qed

lemma read_policy_fields:
  "escalate_on_stale (read_policy t p) \<longleftrightarrow> escalate_on_stale p \<or> flag_of ''escalate_on_stale'' t = Some True"
  "escalate_on_missing (read_policy t p) \<longleftrightarrow> escalate_on_missing p \<or> flag_of ''escalate_on_missing'' t = Some True"
  "reject_on_invalid (read_policy t p) =
     (case flag_of ''reject_on_invalid'' t of Some y \<Rightarrow> y | None \<Rightarrow> reject_on_invalid p)"
  by (auto simp: read_policy_def flag_of_def Let_def split: option.splits)

lemma fold_read_policy:
  "escalate_on_stale (fold read_policy ts p) \<longleftrightarrow>
     escalate_on_stale p \<or> (\<exists>t\<in>set ts. flag_of ''escalate_on_stale'' t = Some True)"
  "escalate_on_missing (fold read_policy ts p) \<longleftrightarrow>
     escalate_on_missing p \<or> (\<exists>t\<in>set ts. flag_of ''escalate_on_missing'' t = Some True)"
  "reject_on_invalid (fold read_policy ts p) =
     last_flag (reject_on_invalid p) (map (flag_of ''reject_on_invalid'') ts)"
  by (induction ts arbitrary: p) (auto simp: read_policy_fields last_flag_def)

text \<open>
  The merged policy is the sum of its files: an escalation is on exactly when some file's
  table sets it to true, whatever the other files say; \<open>reject_on_invalid\<close> is what the last
  file, in the order of the names, that sets it says, and true if none does.
\<close>

theorem load_policies_merge:
  "escalate_on_stale (load_policies pt (Some d)) =
     (\<exists>t\<in>set (policy_tables pt d). flag_of ''escalate_on_stale'' t = Some True) \<and>
   escalate_on_missing (load_policies pt (Some d)) =
     (\<exists>t\<in>set (policy_tables pt d). flag_of ''escalate_on_missing'' t = Some True) \<and>
   reject_on_invalid (load_policies pt (Some d)) =
     last_flag True (map (flag_of ''reject_on_invalid'') (policy_tables pt d))"
  by (simp add: load_policies_tables fold_read_policy default_policy_def)

text \<open>
  The policy depends on the files and not on the order in which the directory lists them.
\<close>

theorem load_policies_listing:
  assumes "mset d = mset d'" and "distinct (map fst d)"
  shows "load_policies pt (Some d) = load_policies pt (Some d')"
proof -
  let ?toml = "\<lambda>(n :: string, _ :: string option). path_extension n = Some ''toml''"
  have "inj_on fst (set d)" using assms(2) by (simp add: distinct_map)
  then have "inj_on fst (set (filter ?toml d))" by (rule inj_on_subset) auto
  then have "policy_files d = policy_files d'"
    unfolding policy_files_def
    by (intro sort_key_inj_key_eq) (auto simp: assms(1))
  then show ?thesis by (simp add: load_policies_def)
qed

theorem load_policies_listing_witness:
  "load_policies (\<lambda>_. None) (Some [(''b.toml'', None), (''a.toml'', Some [])]) =
   load_policies (\<lambda>_. None) (Some [(''a.toml'', Some []), (''b.toml'', None)])"
  by (rule load_policies_listing) simp_all

text \<open>
  The escalation of stale evidence is not limited to \<open>EvidenceRequired\<close>: a stale optional claim
  turns the rejection for a disproved critical claim into an escalation.
\<close>

definition demo_two_claims :: ir where
  "demo_two_claims =
     demo_ir\<lparr>ir_claims :=
       [\<lparr>ci_id = ''c'', ci_kind = ''invariant'', ci_required = True, ci_critical = True, ci_ensure = []\<rparr>,
        \<lparr>ci_id = ''o'', ci_kind = ''claim'', ci_required = False, ci_critical = False, ci_ensure = []\<rparr>]\<rparr>"

theorem stale_policy_lifts_rejection:
  "\<exists>i evs p. dr_decision (evaluate i evs) = Rejected \<and> reject_on_invalid p \<and>
     dr_decision (apply_policy (evaluate i evs) p) = Escalated"
proof (intro exI conjI)
  let ?evs = "[demo_evidence ''c'' Invalid 1, demo_evidence ''o'' Stale 0]"
  let ?p = "default_policy\<lparr>escalate_on_stale := True\<rparr>"
  show "dr_decision (evaluate demo_two_claims ?evs) = Rejected" by code_simp
  show "reject_on_invalid ?p" by (simp add: default_policy_def)
  have "dr_claims (evaluate demo_two_claims ?evs) =
      [\<lparr>cr_claim_id = ''c'', cr_required = True, cr_critical = True, cr_state = Invalid,
        cr_detail = ''no valid evidence''\<rparr>,
       \<lparr>cr_claim_id = ''o'', cr_required = False, cr_critical = False, cr_state = Stale,
        cr_detail = ''no valid evidence''\<rparr>]"
    by code_simp
  moreover have "dr_decision (evaluate demo_two_claims ?evs) = Rejected" by code_simp
  ultimately show "dr_decision (apply_policy (evaluate demo_two_claims ?evs) ?p) = Escalated"
    by (simp add: apply_policy_def below_ratio_def default_policy_def f64_less_def has_state_def
        decide_def Let_def)
qed

end
