(* ===== verification/Bindings.thy ===== *)
theory Bindings
  imports Evidence_Facts Documents
begin

section \<open>Authorized bindings (crates/uni-evidence, binding.rs)\<close>

text \<open>
  \<open>.uni/bindings.toml\<close> and the legacy files of \<open>.uni/bindings/\<close>, both decoded; the human acts
  that write the reviewed file, and the reading of it that the verify path does. \<open>digest\<close> is
  the SHA-256 of the sha2 crate. An absent file and one that does not decode are both \<open>None\<close>,
  as \<open>read_file\<close> treats them.
\<close>

record verifier_binding =
  vb_claim_id :: string
  vb_verifier_ref :: string
  vb_requirement :: string
  vb_selector :: "string option"
  vb_authorized_by :: string
  vb_authorized_at :: string
  vb_binding_hash :: string

record binding_entry =
  be_verifier :: string
  be_requirement :: string
  be_selector :: "string option"
  be_authorized_by :: string
  be_authorized_at :: string
  be_binding_hash :: string

type_synonym binding_file = "binding_entry btree"

record bindings_state =
  bs_file :: "binding_file option"
  bs_legacy :: "(string \<times> verifier_binding option) list"

datatype bind_error = NoBindingEntries

subsection \<open>The hash of an authorization\<close>

definition binding_seed :: "string \<Rightarrow> string \<Rightarrow> string \<Rightarrow> string option \<Rightarrow> string" where
  "binding_seed claim_id verifier_ref requirement selector =
     claim_id @ ''|'' @ verifier_ref @ ''|'' @ requirement @ ''|selector:'' @
     (case selector of Some s \<Rightarrow> s | None \<Rightarrow> [])"

definition binding_hash ::
  "(string \<Rightarrow> nat list) \<Rightarrow> string \<Rightarrow> string \<Rightarrow> string \<Rightarrow> string option \<Rightarrow> string" where
  "binding_hash digest claim_id verifier_ref requirement selector =
     take 12 (sha256_hex digest (binding_seed claim_id verifier_ref requirement selector))"

subsection \<open>The two views of an authorization\<close>

definition to_binding :: "string \<Rightarrow> binding_entry \<Rightarrow> verifier_binding" where
  "to_binding claim_id e =
     \<lparr>vb_claim_id = claim_id, vb_verifier_ref = be_verifier e, vb_requirement = be_requirement e,
      vb_selector = be_selector e, vb_authorized_by = be_authorized_by e,
      vb_authorized_at = be_authorized_at e, vb_binding_hash = be_binding_hash e\<rparr>"

definition to_entry :: "verifier_binding \<Rightarrow> binding_entry" where
  "to_entry b =
     \<lparr>be_verifier = vb_verifier_ref b, be_requirement = vb_requirement b,
      be_selector = vb_selector b, be_authorized_by = vb_authorized_by b,
      be_authorized_at = vb_authorized_at b, be_binding_hash = vb_binding_hash b\<rparr>"

lemma to_binding_to_entry [simp]: "to_binding (vb_claim_id b) (to_entry b) = b"
  by (simp add: to_binding_def to_entry_def)

subsection \<open>Reading\<close>

definition read_bindings :: "binding_file option \<Rightarrow> binding_file" where
  "read_bindings f = (case f of Some m \<Rightarrow> m | None \<Rightarrow> [])"

definition or_insert :: "string \<Rightarrow> 'v \<Rightarrow> 'v btree \<Rightarrow> 'v btree" where
  "or_insert k v m = (if bt_get m k = None then bt_insert k v m else m)"

definition load_legacy ::
  "string \<times> verifier_binding option \<Rightarrow> verifier_binding btree \<Rightarrow> verifier_binding btree" where
  "load_legacy = (\<lambda>(name, decoded) out.
     if path_extension name = Some ''json'' then
       (case decoded of Some b \<Rightarrow> or_insert (path_stem name) b out | None \<Rightarrow> out)
     else out)"

definition load_all :: "bindings_state \<Rightarrow> verifier_binding btree" where
  "load_all s =
     fold load_legacy (bs_legacy s)
       (map (\<lambda>(claim, e). (claim, to_binding claim e)) (read_bindings (bs_file s)))"

definition load_binding :: "bindings_state \<Rightarrow> string \<Rightarrow> verifier_binding option" where
  "load_binding s claim_id = bt_get (load_all s) claim_id"

subsection \<open>The acts\<close>

definition write_binding :: "verifier_binding \<Rightarrow> bindings_state \<Rightarrow> bindings_state" where
  "write_binding b s =
     s\<lparr>bs_file := Some (bt_insert (vb_claim_id b) (to_entry b) (read_bindings (bs_file s)))\<rparr>"

definition stamp ::
  "(string \<Rightarrow> nat list) \<Rightarrow> string \<Rightarrow> string \<Rightarrow> string \<Rightarrow> string option \<Rightarrow> string \<Rightarrow> string \<Rightarrow> verifier_binding" where
  "stamp digest claim_id verifier_ref requirement selector by_whom now =
     \<lparr>vb_claim_id = claim_id, vb_verifier_ref = verifier_ref, vb_requirement = requirement,
      vb_selector = selector, vb_authorized_by = by_whom, vb_authorized_at = now,
      vb_binding_hash = binding_hash digest claim_id verifier_ref requirement selector\<rparr>"

definition authorize ::
  "(string \<Rightarrow> nat list) \<Rightarrow> string \<Rightarrow> string \<Rightarrow> string \<Rightarrow> string \<Rightarrow> string option \<Rightarrow> string \<Rightarrow>
   bindings_state \<Rightarrow> verifier_binding \<times> bindings_state" where
  "authorize digest now claim_id verifier_ref requirement selector by_whom s =
     (let b = stamp digest claim_id verifier_ref requirement selector by_whom now
      in (b, write_binding b s))"

definition stamp_entry ::
  "(string \<Rightarrow> nat list) \<Rightarrow> string \<Rightarrow> string \<Rightarrow> string \<times> binding_entry \<Rightarrow> verifier_binding" where
  "stamp_entry digest now by_whom = (\<lambda>(claim, e).
     stamp digest claim (be_verifier e) (be_requirement e) (be_selector e) by_whom now)"

definition authorize_from_file ::
  "(string \<Rightarrow> nat list) \<Rightarrow> string \<Rightarrow> binding_file option \<Rightarrow> string \<Rightarrow> bindings_state \<Rightarrow>
   bind_error + verifier_binding list \<times> bindings_state" where
  "authorize_from_file digest now source by_whom s =
     (let incoming = read_bindings source in
      if incoming = [] then Inl NoBindingEntries
      else
        let out = map (stamp_entry digest now by_whom) incoming
        in Inr (out, s\<lparr>bs_file :=
             Some (fold (\<lambda>b file. bt_insert (vb_claim_id b) (to_entry b) file) out
                     (read_bindings (bs_file s)))\<rparr>))"

subsection \<open>The interface of a binding store\<close>

locale binding_store =
  fixes load :: "'s \<Rightarrow> string \<Rightarrow> verifier_binding option"
    and put :: "verifier_binding \<Rightarrow> 's \<Rightarrow> 's"
    and ok :: "'s \<Rightarrow> bool"
  assumes load_put: "ok s \<Longrightarrow> load (put b s) c = (if c = vb_claim_id b then Some b else load s c)"
    and ok_put: "ok s \<Longrightarrow> ok (put b s)"
begin

lemma ok_put_all: "ok s \<Longrightarrow> ok (fold put bs s)"
  by (induction bs arbitrary: s) (auto intro: ok_put)

lemma load_put_all:
  "ok s \<Longrightarrow> load (fold put bs s) c =
     (case map_of (rev (map (\<lambda>b. (vb_claim_id b, b)) bs)) c of
        Some b \<Rightarrow> Some b | None \<Rightarrow> load s c)"
  by (induction bs arbitrary: s) (auto simp: load_put ok_put map_add_def split: option.splits)

lemma load_put_all_distinct:
  assumes "ok s" and "distinct (map vb_claim_id bs)" and "b \<in> set bs"
  shows "load (fold put bs s) (vb_claim_id b) = Some b"
proof -
  have "distinct (map fst (rev (map (\<lambda>b. (vb_claim_id b, b)) bs)))"
    using assms(2) by (simp add: rev_map [symmetric] o_def)
  then have "map_of (rev (map (\<lambda>b. (vb_claim_id b, b)) bs)) (vb_claim_id b) = Some b"
    using assms(3) by (intro map_of_is_SomeI) auto
  then show ?thesis by (simp add: load_put_all assms(1))
qed

lemma load_put_all_other:
  "ok s \<Longrightarrow> c \<notin> vb_claim_id ` set bs \<Longrightarrow> load (fold put bs s) c = load s c"
  by (induction bs arbitrary: s) (auto simp: load_put ok_put)

end

text \<open>The reviewed file is a B-tree map, so its keys are distinct and sorted.\<close>

definition bindings_ok :: "bindings_state \<Rightarrow> bool" where
  "bindings_ok s \<longleftrightarrow> bt_ok (read_bindings (bs_file s))"

definition reviewed :: "bindings_state \<Rightarrow> verifier_binding btree" where
  "reviewed s = map (\<lambda>(claim, e). (claim, to_binding claim e)) (read_bindings (bs_file s))"

lemma reviewed_get: "bt_get (reviewed s) c = map_option (to_binding c) (bt_get (read_bindings (bs_file s)) c)"
proof -
  have "bt_get (map (\<lambda>(claim, e). (claim, to_binding claim e)) m) c = map_option (to_binding c) (bt_get m c)" for m
    by (induction m) (auto simp: bt_get_def)
  then show ?thesis by (simp add: reviewed_def)
qed

lemma reviewed_ok: "bindings_ok s \<Longrightarrow> bt_ok (reviewed s)"
  by (simp add: bindings_ok_def bt_ok_def bt_keys_def reviewed_def o_def case_prod_beta')

text \<open>The first legacy file of a claim that decodes.\<close>

fun legacy_of :: "(string \<times> verifier_binding option) list \<Rightarrow> string \<Rightarrow> verifier_binding option" where
  "legacy_of [] c = None"
| "legacy_of ((name, decoded) # xs) c =
     (if path_extension name = Some ''json'' \<and> path_stem name = c \<and> decoded \<noteq> None then decoded
      else legacy_of xs c)"

lemma load_legacy_ok: "bt_ok m \<Longrightarrow> bt_ok (load_legacy x m)"
  by (cases x) (auto simp: load_legacy_def or_insert_def bt.ok_ins split: option.splits)

lemma fold_legacy_get:
  "bt_ok m \<Longrightarrow> bt_get (fold load_legacy xs m) c =
     (case bt_get m c of Some b \<Rightarrow> Some b | None \<Rightarrow> legacy_of xs c)"
proof (induction xs arbitrary: m)
  case Nil
  then show ?case by (simp split: option.splits)
next
  case (Cons x xs)
  have "bt_get (load_legacy x m) c =
      (case bt_get m c of Some b \<Rightarrow> Some b | None \<Rightarrow>
        (case x of (name, decoded) \<Rightarrow>
           if path_extension name = Some ''json'' \<and> path_stem name = c then decoded else None))"
    using Cons.prems
    by (auto simp: load_legacy_def or_insert_def bt.get_ins split: option.splits prod.splits)
  then show ?case
    using Cons.IH [OF load_legacy_ok [OF Cons.prems, of x]]
    by (cases x) (auto split: option.splits)
qed

lemma load_binding_closed:
  "bindings_ok s \<Longrightarrow> load_binding s c =
     (case bt_get (read_bindings (bs_file s)) c of
        Some e \<Rightarrow> Some (to_binding c e) | None \<Rightarrow> legacy_of (bs_legacy s) c)"
  using fold_legacy_get [OF reviewed_ok, of s "bs_legacy s" c] reviewed_get [of s c]
  by (auto simp: load_binding_def load_all_def reviewed_def split: option.splits)

lemma read_write [simp]:
  "read_bindings (bs_file (write_binding b s)) =
     bt_insert (vb_claim_id b) (to_entry b) (read_bindings (bs_file s))"
  "bs_legacy (write_binding b s) = bs_legacy s"
  by (simp_all add: write_binding_def read_bindings_def)

interpretation bs: binding_store load_binding write_binding bindings_ok
proof
  fix s :: bindings_state and b c
  assume ok: "bindings_ok s"
  then show ok': "bindings_ok (write_binding b s)"
    by (simp add: bindings_ok_def bt.ok_ins)
  show "load_binding (write_binding b s) c = (if c = vb_claim_id b then Some b else load_binding s c)"
    using ok bt.get_ins [of "read_bindings (bs_file s)"]
    by (auto simp: load_binding_closed [OF ok] load_binding_closed [OF ok'] bindings_ok_def
        split: option.splits)
qed

subsection \<open>What the acts guarantee\<close>

text \<open>
  Authorizing a claim is exactly what the verify path reads back: the claim now has the
  binding the act returned, carrying the hash of what was authorized, and every other claim
  keeps the binding it had, from the reviewed file or from a legacy file.
\<close>

theorem authorize_load:
  assumes "bindings_ok s" and "authorize digest now c v r sel who s = (b, s')"
  shows "bindings_ok s' \<and>
    load_binding s' j = (if j = c then Some b else load_binding s j) \<and>
    vb_binding_hash b = binding_hash digest c v r sel \<and> vb_verifier_ref b = v \<and>
    vb_requirement b = r \<and> vb_selector b = sel"
  using assms bs.load_put [OF assms(1)] bs.ok_put [OF assms(1)]
  by (auto simp: authorize_def stamp_def Let_def)

definition empty_bindings :: bindings_state where
  "empty_bindings = \<lparr>bs_file = None, bs_legacy = []\<rparr>"

definition demo_binding :: verifier_binding where
  "demo_binding = stamp (\<lambda>_. replicate 32 0) ''a'' ''k'' ''r'' (Some ''t'') ''local:x'' ''now''"

theorem authorize_load_witness:
  "load_binding (snd (authorize (\<lambda>_. replicate 32 0) ''now'' ''a'' ''k'' ''r'' (Some ''t'') ''local:x''
      empty_bindings)) ''a'' = Some demo_binding"
proof -
  have ok: "bindings_ok empty_bindings"
    by (simp add: bindings_ok_def empty_bindings_def read_bindings_def)
  show ?thesis
    using authorize_load [OF ok, of "\<lambda>_. replicate 32 0" "''now''" "''a''" "''k''" "''r''" "Some ''t''"
      "''local:x''" "demo_binding" "write_binding demo_binding empty_bindings" "''a''"]
    by (simp add: authorize_def demo_binding_def Let_def)
qed

lemma fold_write:
  "bs_file s = Some f \<Longrightarrow> fold write_binding bs s =
     s\<lparr>bs_file := Some (fold (\<lambda>b file. bt_insert (vb_claim_id b) (to_entry b) file) bs f)\<rparr>"
  by (induction bs arbitrary: s f) (simp_all add: write_binding_def read_bindings_def)

lemma authorize_from_file_fold:
  assumes "authorize_from_file digest now src who s = Inr (out, s')"
  shows "out \<noteq> [] \<and> out = map (stamp_entry digest now who) (read_bindings src) \<and>
    s' = fold write_binding out s"
proof -
  have src: "read_bindings src \<noteq> []" and out: "out = map (stamp_entry digest now who) (read_bindings src)"
    and s': "s' = s\<lparr>bs_file := Some (fold (\<lambda>b file. bt_insert (vb_claim_id b) (to_entry b) file) out
                     (read_bindings (bs_file s)))\<rparr>"
    using assms by (auto simp: authorize_from_file_def Let_def split: if_splits)
  obtain b bs where b: "out = b # bs" using src out by (cases out) auto
  have "bs_file (write_binding b s) = Some (bt_insert (vb_claim_id b) (to_entry b) (read_bindings (bs_file s)))"
    by (simp add: write_binding_def)
  from fold_write [OF this, of bs] have "s' = fold write_binding out s"
    unfolding s' b by (simp add: write_binding_def)
  moreover have "out \<noteq> []" using b by simp
  ultimately show ?thesis using out by blast
qed

lemma stamp_entry_ids: "map vb_claim_id (map (stamp_entry digest now who) m) = bt_keys m"
  by (induction m) (auto simp: stamp_entry_def stamp_def bt_keys_def)

text \<open>
  A reviewed file is authorized as a whole: each of its entries becomes, stamped, the
  binding of its claim, and claims it does not list keep theirs. A file without entries is
  refused.
\<close>

theorem authorize_from_file_load:
  assumes "bindings_ok s" and "bt_ok (read_bindings src)"
  shows "(case authorize_from_file digest now src who s of
      Inl NoBindingEntries \<Rightarrow> read_bindings src = []
    | Inr (out, s') \<Rightarrow>
        map vb_claim_id out = bt_keys (read_bindings src) \<and>
        (\<forall>b\<in>set out. load_binding s' (vb_claim_id b) = Some b \<and>
           vb_binding_hash b = binding_hash digest (vb_claim_id b) (vb_verifier_ref b)
             (vb_requirement b) (vb_selector b)) \<and>
        (\<forall>c. c \<notin> set (bt_keys (read_bindings src)) \<longrightarrow> load_binding s' c = load_binding s c))"
proof (cases "authorize_from_file digest now src who s")
  case (Inl e)
  then show ?thesis
    by (auto simp: authorize_from_file_def Let_def split: bind_error.splits if_splits)
next
  case (Inr r)
  then obtain out s' where r: "r = (out, s')" by (cases r)
  from Inr have *: "out = map (stamp_entry digest now who) (read_bindings src)"
    "s' = fold write_binding out s"
    using authorize_from_file_fold r by auto
  have keys: "map vb_claim_id out = bt_keys (read_bindings src)"
    unfolding *(1) by (rule stamp_entry_ids)
  then have d: "distinct (map vb_claim_id out)"
    using assms(2) by (simp add: bt_ok_def strict_sorted_iff)
  have h: "vb_binding_hash b = binding_hash digest (vb_claim_id b) (vb_verifier_ref b)
             (vb_requirement b) (vb_selector b)" if "b \<in> set out" for b
    using that by (auto simp: *(1) stamp_entry_def stamp_def)
  have "set (bt_keys (read_bindings src)) = vb_claim_id ` set out"
    using arg_cong [OF keys, of set] by simp
  then show ?thesis
    using Inr r keys h bs.load_put_all_distinct [OF assms(1) d] bs.load_put_all_other [OF assms(1), of _ out]
    by (simp add: *(2))
qed

definition demo_entry :: binding_entry where
  "demo_entry =
     \<lparr>be_verifier = ''k'', be_requirement = [], be_selector = None, be_authorized_by = [],
      be_authorized_at = [], be_binding_hash = []\<rparr>"

theorem authorize_from_file_load_witness:
  "\<exists>s'. authorize_from_file (\<lambda>_. []) ''now'' (Some [(''a'', demo_entry)]) ''x'' empty_bindings =
       Inr ([stamp (\<lambda>_. []) ''a'' ''k'' [] None ''x'' ''now''], s') \<and>
     load_binding s' ''a'' = Some (stamp (\<lambda>_. []) ''a'' ''k'' [] None ''x'' ''now'')"
proof -
  have ok: "bindings_ok empty_bindings" "bt_ok (read_bindings (Some [(''a'', demo_entry)]))"
    by (simp_all add: bindings_ok_def empty_bindings_def read_bindings_def bt_ok_def bt_keys_def)
  show ?thesis
    using authorize_from_file_load [OF ok, of "\<lambda>_. []" "''now''" "''x''"]
    by (simp add: authorize_from_file_def read_bindings_def stamp_entry_def demo_entry_def Let_def
        stamp_def)
qed

text \<open>
  The reviewed file wins: a claim it mentions is never read from a legacy file.
\<close>

lemma reviewed_wins:
  "bindings_ok s \<Longrightarrow> bt_get (read_bindings (bs_file s)) c = Some e \<Longrightarrow> load_binding s c = Some (to_binding c e)"
  by (simp add: load_binding_closed)

text \<open>
  A reviewed file that does not decode counts as empty, so the next authorization replaces
  it: the claims that were bound in it, and have no legacy file, are no longer bound.
\<close>

theorem undecodable_file_is_lost:
  "load_binding (snd (authorize digest now c v r sel who \<lparr>bs_file = None, bs_legacy = []\<rparr>)) j =
     (if j = c then Some (stamp digest c v r sel who now) else None)"
  by (simp add: authorize_def Let_def load_binding_def load_all_def write_binding_def
      read_bindings_def stamp_def to_entry_def to_binding_def bt_get_def)

subsection \<open>What the hash binds\<close>

lemma split_bar:
  "CHR ''|'' \<notin> set a \<Longrightarrow> CHR ''|'' \<notin> set a' \<Longrightarrow> a @ CHR ''|'' # s = a' @ CHR ''|'' # s' \<Longrightarrow> a = a' \<and> s = s'"
  by (induction a arbitrary: a') (case_tac a'; auto)+

text \<open>
  The seed of the hash determines the authorization when no field contains the separator:
  claim, verifier, requirement and selector can be read back from it, an absent selector and an
  empty one being the same.
\<close>

theorem binding_seed_inject:
  assumes "\<forall>s\<in>{c, v, r, c', v', r'}. CHR ''|'' \<notin> set s"
    and "binding_seed c v r sel = binding_seed c' v' r' sel'"
  shows "c = c' \<and> v = v' \<and> r = r' \<and>
    (case sel of None \<Rightarrow> [] | Some s \<Rightarrow> s) = (case sel' of None \<Rightarrow> [] | Some s \<Rightarrow> s)"
proof -
  let ?o = "\<lambda>x. case x of None \<Rightarrow> [] | Some s \<Rightarrow> s"
  have "c @ CHR ''|'' # (v @ CHR ''|'' # (r @ CHR ''|'' # ''selector:'' @ ?o sel)) =
        c' @ CHR ''|'' # (v' @ CHR ''|'' # (r' @ CHR ''|'' # ''selector:'' @ ?o sel'))"
    using assms(2) by (simp add: binding_seed_def)
  from split_bar [OF _ _ this] have 1: "c = c'"
    "v @ CHR ''|'' # (r @ CHR ''|'' # ''selector:'' @ ?o sel) =
     v' @ CHR ''|'' # (r' @ CHR ''|'' # ''selector:'' @ ?o sel')"
    using assms(1) by auto
  from split_bar [OF _ _ 1(2)] have 2: "v = v'"
    "r @ CHR ''|'' # ''selector:'' @ ?o sel = r' @ CHR ''|'' # ''selector:'' @ ?o sel'"
    using assms(1) by auto
  from split_bar [OF _ _ 2(2)] show ?thesis using 1(1) 2(1) assms(1) by auto
qed

theorem binding_seed_inject_witness:
  "binding_seed ''a'' ''k'' ''r'' (Some ''u'') \<noteq> binding_seed ''a'' ''k'' ''r'' (Some ''t'')"
  using binding_seed_inject [of "''a''" "''k''" "''r''" "''a''" "''k''" "''r''" "Some ''u''" "Some ''t''"]
  by auto

text \<open>With the separator inside a field two authorizations share a seed, hence a hash.\<close>

theorem binding_hash_collision:
  "binding_hash digest c v (r @ ''|selector:'' @ s) None =
     binding_hash digest c v r (Some (s @ ''|selector:''))"
  by (simp add: binding_hash_def binding_seed_def)

end
