(* ===== verification/Registry.thy ===== *)
theory Registry
  imports Documents Evidence_Facts
begin

section \<open>The trusted verifier registry (crates/uni-verify, lib.rs)\<close>

text \<open>
  \<open>.uni/config.toml\<close> names the commands a contract may refer to. Loading it keeps the usable
  entries only; \<open>resolve_command\<close> turns a reference of a contract into a specification, and
  refuses what the registry does not hold. The TOML parser is a parameter.
\<close>

record verifier_spec =
  vs_kind :: string
  vs_run :: string
  vs_expect :: string
  vs_expect_not :: string
  vs_files :: "string list"
  vs_expect_sha256 :: "string btree"
  vs_timeout :: nat
  vs_max_age_hours :: nat

abbreviation DEFAULT_TIMEOUT_SECS :: nat where
  "DEFAULT_TIMEOUT_SECS \<equiv> 300"

definition shell_spec :: "string \<Rightarrow> verifier_spec" where
  "shell_spec cmd =
     \<lparr>vs_kind = ''shell'', vs_run = cmd, vs_expect = [], vs_expect_not = [], vs_files = [],
      vs_expect_sha256 = [], vs_timeout = DEFAULT_TIMEOUT_SECS, vs_max_age_hours = 0\<rparr>"

type_synonym registry = "verifier_spec btree"

datatype verify_error =
    ShellNeedsCommand
  | InlineNotTrusted string
  | UnknownVerifier string
  | InlineOnKind string string
  | InlineMismatch string
  | NoSelector string
  | UnknownKind string
  | SpawnFailed
  | Panicked

subsection \<open>Loading\<close>

definition str_or :: "string \<Rightarrow> toml btree \<Rightarrow> string \<Rightarrow> string" where
  "str_or k t d = (case Option.bind (bt_get t k) as_str of Some s \<Rightarrow> s | None \<Rightarrow> d)"

text \<open>\<open>as u64\<close> of an \<open>i64\<close>: a negative value wraps around.\<close>

definition u64_of :: "int \<Rightarrow> nat" where
  "u64_of i = nat (i mod 2 ^ 64)"

definition int_or :: "string \<Rightarrow> toml btree \<Rightarrow> int \<Rightarrow> int" where
  "int_or k t d = (case Option.bind (bt_get t k) as_integer of Some i \<Rightarrow> i | None \<Rightarrow> d)"

definition spec_files :: "toml btree \<Rightarrow> string list" where
  "spec_files t =
     (case Option.bind (bt_get t ''files'') as_array of
        Some xs \<Rightarrow> List.map_filter as_str xs | None \<Rightarrow> [])"

definition spec_hashes :: "toml btree \<Rightarrow> string list \<Rightarrow> string btree" where
  "spec_hashes t files =
     (case bt_get t ''expect_sha256'' of
        Some (TString h) \<Rightarrow> (case files of f # _ \<Rightarrow> bt_insert f h [] | [] \<Rightarrow> [])
      | Some (TTable m) \<Rightarrow>
          fold (\<lambda>(path, h) out. case as_str h of Some s \<Rightarrow> bt_insert path s out | None \<Rightarrow> out) m []
      | _ \<Rightarrow> [])"

definition table_spec :: "toml btree \<Rightarrow> verifier_spec" where
  "table_spec t =
     (let files = spec_files t in
      \<lparr>vs_kind = str_or ''type'' t ''shell'', vs_run = str_or ''run'' t [],
       vs_expect = str_or ''expect'' t [], vs_expect_not = str_or ''expect_not'' t [],
       vs_files = files, vs_expect_sha256 = spec_hashes t files,
       vs_timeout = u64_of (int_or ''timeout'' t (int DEFAULT_TIMEOUT_SECS)),
       vs_max_age_hours = u64_of (int_or ''max_age_hours'' t 0)\<rparr>)"

definition usable :: "verifier_spec \<Rightarrow> bool" where
  "usable s \<longleftrightarrow> (vs_kind s = ''shell'' \<and> vs_run s \<noteq> []) \<or>
     (vs_kind s = ''file-hash'' \<and> vs_expect_sha256 s \<noteq> [])"

definition load_entry :: "string \<times> toml \<Rightarrow> registry \<Rightarrow> registry" where
  "load_entry = (\<lambda>(k, v) out.
     case as_str v of
       Some s \<Rightarrow> bt_insert k (shell_spec s) out
     | None \<Rightarrow>
         (case as_table v of
            Some t \<Rightarrow> (if usable (table_spec t) then bt_insert k (table_spec t) out else out)
          | None \<Rightarrow> out))"

definition load_registry :: "(string \<Rightarrow> toml option) \<Rightarrow> string option \<Rightarrow> registry" where
  "load_registry parse_toml config =
     (case Option.bind config parse_toml of
        None \<Rightarrow> []
      | Some v \<Rightarrow>
          (case Option.bind (toml_get v ''verifiers'') as_table of
             None \<Rightarrow> [] | Some t \<Rightarrow> fold load_entry t []))"

subsection \<open>Resolving a reference\<close>

definition resolve_command ::
  "string \<Rightarrow> string option \<Rightarrow> registry \<Rightarrow> verify_error + verifier_spec" where
  "resolve_command verifier_ref inline reg =
     (if verifier_ref = ''shell'' then
        bind_r (ok_or inline ShellNeedsCommand) (\<lambda>cmd.
          if reg = [] then Inr (shell_spec cmd)
          else if list_ex (\<lambda>(_, v). vs_kind v = ''shell'' \<and> vs_run v = cmd) reg
          then Inr (shell_spec cmd)
          else Inl (InlineNotTrusted cmd))
      else
        bind_r (ok_or (bt_get reg verifier_ref) (UnknownVerifier verifier_ref)) (\<lambda>trusted.
          case inline of
            None \<Rightarrow> Inr trusted
          | Some cmd \<Rightarrow>
              if vs_kind trusted \<noteq> ''shell'' then Inl (InlineOnKind verifier_ref (vs_kind trusted))
              else if cmd \<noteq> vs_run trusted then Inl (InlineMismatch verifier_ref)
              else Inr trusted))"

subsection \<open>Selector templates\<close>

abbreviation SELECTOR_TOKEN :: string where
  "SELECTOR_TOKEN \<equiv> ''{{selector}}''"

definition is_selector_template :: "verifier_spec \<Rightarrow> bool" where
  "is_selector_template s \<longleftrightarrow> vs_kind s = ''shell'' \<and> contains (vs_run s) SELECTOR_TOKEN"

definition with_selector :: "verifier_spec \<Rightarrow> string option \<Rightarrow> verify_error + verifier_spec" where
  "with_selector s selector =
     (if \<not> is_selector_template s then Inr s
      else case selector of
             None \<Rightarrow> Inl (NoSelector (vs_run s))
           | Some sel \<Rightarrow>
               if trim sel = [] then Inl (NoSelector (vs_run s))
               else Inr (s\<lparr>vs_run := replace_str (vs_run s) SELECTOR_TOKEN sel\<rparr>))"

fun unittest_named :: "string \<Rightarrow> string list \<Rightarrow> bool" where
  "unittest_named prev [] = False"
| "unittest_named prev (tok # toks) =
     ((prev = ''unittest'' \<and> \<not> starts_with ''-'' tok) \<or> unittest_named tok toks)"

definition pinned_test_selector :: "verifier_spec \<Rightarrow> bool" where
  "pinned_test_selector s \<longleftrightarrow>
     vs_kind s = ''shell'' \<and> \<not> is_selector_template s \<and>
     (let run = vs_run s; toks = split_whitespace run in
      list_ex (\<lambda>(a, b, c). a = ''cargo'' \<and> b = ''test'' \<and> \<not> starts_with ''-'' c \<and>
                           \<not> contains c ''{{'') (windows3 toks) \<or>
      (contains run ''--test-name-pattern'' \<and> \<not> contains run ''{{'') \<or>
      (contains run ''unittest'' \<and> \<not> contains run ''discover'' \<and> \<not> contains run ''{{'' \<and>
       unittest_named [] toks))"

subsection \<open>The fingerprint of a specification\<close>

definition fingerprint_seed :: "string \<Rightarrow> verifier_spec \<Rightarrow> string \<Rightarrow> string" where
  "fingerprint_seed verifier_ref s actor_id =
     verifier_ref @ ''|'' @ vs_run s @ ''|'' @ vs_expect s @ ''|'' @ vs_expect_not s @ ''|'' @
     join '','' (vs_files s) @ ''|actor:'' @ actor_id"

definition spec_fingerprint ::
  "(string \<Rightarrow> nat list) \<Rightarrow> string \<Rightarrow> verifier_spec \<Rightarrow> string \<Rightarrow> string" where
  "spec_fingerprint digest verifier_ref s actor_id =
     take 12 (sha256_hex digest (fingerprint_seed verifier_ref s actor_id))"

subsection \<open>What the registry holds\<close>

definition spec_ok :: "verifier_spec \<Rightarrow> bool" where
  "spec_ok s \<longleftrightarrow> vs_kind s = ''shell'' \<or> (vs_kind s = ''file-hash'' \<and> vs_expect_sha256 s \<noteq> [])"

definition registry_ok :: "registry \<Rightarrow> bool" where
  "registry_ok reg \<longleftrightarrow> bt_ok reg \<and> list_all (\<lambda>(_, s). spec_ok s \<and> vs_timeout s < 2 ^ 64 \<and> vs_max_age_hours s < 2 ^ 64) reg"

lemma u64_of_bound: "u64_of i < 2 ^ 64"
proof -
  have "i mod 2 ^ 64 < (2 :: int) ^ 64" by (rule pos_mod_bound) simp
  moreover have "0 \<le> i mod (2 :: int) ^ 64" by (rule pos_mod_sign) simp
  ultimately show ?thesis by (simp add: u64_of_def nat_less_iff)
qed

lemma registry_ok_insert:
  assumes "registry_ok reg" and "spec_ok s" and "vs_timeout s < 2 ^ 64" and "vs_max_age_hours s < 2 ^ 64"
  shows "registry_ok (bt_insert k s reg)"
  using assms bt.ok_ins [of reg k s]
  by (auto simp: registry_ok_def list_all_iff dest!: set_bt_insert)

lemma registry_ok_entry: "registry_ok reg \<Longrightarrow> registry_ok (load_entry e reg)"
  using u64_of_bound
  by (auto simp: load_entry_def shell_spec_def spec_ok_def usable_def table_spec_def Let_def
      split: prod.splits option.splits intro!: registry_ok_insert)

lemma registry_ok_fold: "registry_ok reg \<Longrightarrow> registry_ok (fold load_entry es reg)"
  by (induction es arbitrary: reg) (auto intro: registry_ok_entry)


text \<open>The short form is not checked: an entry \<open>"k" = ""\<close> is kept, and runs the empty command.\<close>

theorem empty_command_kept:
  "load_registry (\<lambda>_. Some (TTable [(''verifiers'', TTable [(''k'', TString [])])])) (Some cfg) =
     [(''k'', shell_spec [])]"
  by (simp add: load_registry_def toml_get_def as_table_def bt_get_def load_entry_def as_str_def)

subsection \<open>The trust boundary\<close>

lemma registry_get_mem: "bt_get reg k = Some s \<Longrightarrow> (k, s) \<in> set reg"
  by (auto simp: bt_get_def dest: map_of_SomeD)

lemma resolve_registry:
  assumes "resolve_command ref inline reg = Inr s" and "reg \<noteq> []"
  shows "\<exists>k t. (k, t) \<in> set reg \<and> vs_kind t = vs_kind s \<and> vs_run t = vs_run s \<and>
     (ref \<noteq> ''shell'' \<longrightarrow> k = ref \<and> t = s)"
proof (cases "ref = ''shell''")
  case True
  obtain cmd where cmd: "inline = Some cmd"
    using assms(1) True by (cases inline) (simp_all add: resolve_command_def)
  have l: "list_ex (\<lambda>(_, v). vs_kind v = ''shell'' \<and> vs_run v = cmd) reg" and s: "s = shell_spec cmd"
    using assms True cmd by (simp_all add: resolve_command_def split: if_splits)
  from l obtain k t where "(k, t) \<in> set reg" "vs_kind t = ''shell''" "vs_run t = cmd"
    unfolding list_ex_iff by blast
  then show ?thesis using True s by (auto simp: shell_spec_def)
next
  case False
  then obtain t where t: "bt_get reg ref = Some t"
    using assms(1) by (cases "bt_get reg ref") (simp_all add: resolve_command_def)
  then have "s = t"
    using assms(1) False by (simp add: resolve_command_def split: option.splits if_splits)
  then show ?thesis using registry_get_mem [OF t] by blast
qed

text \<open>
  C20. What resolves, exactly: under a name, the entry of the registry with that name, and only
  if the contract has no inline text or the entry is a shell entry with that very text; under
  \<open>shell\<close>, the plain shell specification of the inline text, and only if the registry is empty or
  has a shell entry with that command. With a non-empty registry nothing runs that it does not
  name.
\<close>

theorem resolve_trusted:
  "resolve_command ref inline reg = Inr s \<longleftrightarrow>
     (if ref = ''shell''
      then \<exists>cmd. inline = Some cmd \<and> s = shell_spec cmd \<and>
             (reg = [] \<or> (\<exists>(_, t)\<in>set reg. vs_kind t = ''shell'' \<and> vs_run t = cmd))
      else bt_get reg ref = Some s \<and>
           (inline = None \<or> vs_kind s = ''shell'' \<and> inline = Some (vs_run s)))"
proof (cases "ref = ''shell''")
  case True
  then show ?thesis
    by (cases inline) (auto simp: resolve_command_def list_ex_iff)
next
  case False
  then show ?thesis
    by (cases "bt_get reg ref"; cases inline) (auto simp: resolve_command_def)
qed

text \<open>
  A registry that does not load is an empty registry, and under an empty registry every inline
  command of a contract is trusted as it stands.
\<close>

theorem unparsable_registry_trusts_inline:
  "resolve_command ''shell'' (Some cmd) (load_registry (\<lambda>_. None) (Some text)) = Inr (shell_spec cmd)"
  by (simp add: load_registry_def resolve_command_def)

text \<open>
  An inline command that equals a registry command loses the expectations of that entry: what
  runs is the bare command.
\<close>

theorem inline_drops_expectations:
  "\<exists>reg s k t. resolve_command ''shell'' (Some cmd) reg = Inr s \<and> (k, t) \<in> set reg \<and>
     vs_run t = cmd \<and> vs_expect t = ''1 passed'' \<and> vs_expect s = []"
  by (rule exI [of _ "[(''k'', (shell_spec cmd)\<lparr>vs_expect := ''1 passed''\<rparr>)]"])
    (simp add: resolve_command_def shell_spec_def)

subsection \<open>Selectors\<close>

text \<open>
  A template never runs unresolved: with a selector that is present and not blank it
  becomes the same specification with the selector in place of the token, and otherwise it is
  an error; a specification that is no template is left as it is, with any selector.
\<close>

theorem with_selector_spec:
  "(is_selector_template s \<longrightarrow>
      (case with_selector s sel of
         Inl e \<Rightarrow> (sel = None \<or> trim (the sel) = []) \<and> e = NoSelector (vs_run s)
       | Inr s' \<Rightarrow> sel \<noteq> None \<and> trim (the sel) \<noteq> [] \<and>
           s' = s\<lparr>vs_run := join (the sel) (split_str SELECTOR_TOKEN (vs_run s))\<rparr>)) \<and>
   (\<not> is_selector_template s \<longrightarrow> with_selector s sel = Inr s)"
  by (auto simp: with_selector_def replace_str_def split: option.splits)

theorem with_selector_spec_witness:
  "with_selector (shell_spec ''cargo test {{selector}} -- --exact'') (Some ''clamps'') =
     Inr (shell_spec ''cargo test clamps -- --exact'')"
proof -
  let ?s = "shell_spec ''cargo test {{selector}} -- --exact''"
  have t: "is_selector_template ?s" by code_simp
  have r: "join ''clamps'' (split_str SELECTOR_TOKEN (vs_run ?s)) = ''cargo test clamps -- --exact''"
    by code_simp
  have "trim ''clamps'' \<noteq> []" by code_simp
  then show ?thesis
    using with_selector_spec [of ?s "Some ''clamps''"] t r
    by (auto simp: shell_spec_def split: sum.splits)
qed

lemma template_not_pinned: "is_selector_template s \<Longrightarrow> \<not> pinned_test_selector s"
  by (simp add: pinned_test_selector_def)

text \<open>
  Two specifications that differ only in what they check, the expected hashes or the kind,
  have one fingerprint.
\<close>

lemma fingerprint_ignores_hashes:
  "spec_fingerprint digest r (s\<lparr>vs_expect_sha256 := h, vs_kind := k, vs_timeout := t\<rparr>) a =
     spec_fingerprint digest r s a"
  by (simp add: spec_fingerprint_def fingerprint_seed_def)

end
