(* ===== verification/Artifacts.thy ===== *)
theory Artifacts
  imports Registry
begin

section \<open>Watched files (crates/uni-verify, artifact_hash and artifact_hashes)\<close>

text \<open>
  The glob matcher over path segments, the walk of the workspace with its explicit stack of
  directories, and the two hashes of the watched files. The workspace is a tree: directory
  entries in the order \<open>read_dir\<close> gives them, a file with its content where it can be read; a
  directory that cannot be read has no entries.
\<close>

subsection \<open>Globs\<close>

text \<open>The local function \<open>m\<close> of the source, on the segments of the pattern and of the path.\<close>

fun glob_m :: "string list \<Rightarrow> string list \<Rightarrow> bool" where
  "glob_m [] r = (r = [])"
| "glob_m (seg # ps) r =
     (if seg = ''**'' then list_ex (\<lambda>i. glob_m ps (drop i r)) [0..<Suc (length r)]
      else if seg = ''*'' then (case r of [] \<Rightarrow> False | _ # rs \<Rightarrow> glob_m ps rs)
      else (case r of [] \<Rightarrow> False | x # rs \<Rightarrow> x = seg \<and> glob_m ps rs))"

definition matches_glob :: "string \<Rightarrow> string \<Rightarrow> bool" where
  "matches_glob rel pat = glob_m (split_str ''/'' pat) (split_str ''/'' rel)"

text \<open>What one segment of a pattern stands for: a run of path segments.\<close>

definition seg_matches :: "string \<Rightarrow> string list \<Rightarrow> bool" where
  "seg_matches seg chunk \<longleftrightarrow>
     (if seg = ''**'' then True else if seg = ''*'' then length chunk = 1 else chunk = [seg])"

lemma glob_star2: "glob_m (''**'' # ps) r \<longleftrightarrow> (\<exists>c s. r = c @ s \<and> glob_m ps s)"
proof
  assume "glob_m (''**'' # ps) r"
  then have "list_ex (\<lambda>i. glob_m ps (drop i r)) [0..<Suc (length r)]" by simp
  then obtain i where "glob_m ps (drop i r)" unfolding list_ex_iff by blast
  then show "\<exists>c s. r = c @ s \<and> glob_m ps s" by (intro exI [of _ "take i r"] exI [of _ "drop i r"]) simp
next
  assume "\<exists>c s. r = c @ s \<and> glob_m ps s"
  then obtain c s where "r = c @ s" "glob_m ps s" by blast
  then show "glob_m (''**'' # ps) r"
    by (auto simp: list_ex_iff intro!: bexI [of _ "length c"])
qed

lemma glob_seg: "glob_m (p # ps) r \<longleftrightarrow> (\<exists>c s. r = c @ s \<and> seg_matches p c \<and> glob_m ps s)"
proof (cases "p = ''**''")
  case True
  then show ?thesis using glob_star2 [of ps r] by (simp add: seg_matches_def)
next
  case False
  have single: "(\<exists>c s. r = c @ s \<and> (\<exists>y. c = [y] \<and> P y) \<and> glob_m ps s) \<longleftrightarrow>
      (case r of [] \<Rightarrow> False | x # rs \<Rightarrow> P x \<and> glob_m ps rs)" for P
  proof (cases r)
    case (Cons a list)
    have "P a \<and> glob_m ps list \<Longrightarrow> \<exists>c s. a # list = c @ s \<and> (\<exists>y. c = [y] \<and> P y) \<and> glob_m ps s"
      by (intro exI [of _ "[a]"] exI [of _ list]) simp
    then show ?thesis unfolding Cons by auto
  qed simp
  show ?thesis
  proof (cases "p = ''*''")
    case True
    then show ?thesis
      using single [of "\<lambda>_. True"] by (simp add: seg_matches_def length_Suc_conv cong: list.case_cong)
  next
    case star: False
    then show ?thesis
      using single [of "\<lambda>y. y = p"] False by (simp add: seg_matches_def cong: list.case_cong)
  qed
qed


text \<open>A star is a whole segment: inside a segment it is a literal character.\<close>

theorem star_inside_segment_is_literal:
  "\<not> matches_glob ''src/main.rs'' ''src/*.rs'' \<and> matches_glob ''src/*.rs'' ''src/*.rs''"
  by code_simp

subsection \<open>The walk\<close>

datatype node =
    File "string option"
  | Dir "(string \<times> node) list"

type_synonym tree = "(string \<times> node) list"

fun join_path :: "string \<Rightarrow> string \<Rightarrow> string" where
  "join_path [] name = name"
| "join_path (c # cs) name = (c # cs) @ ''/'' @ name"

text \<open>The path relative to the workspace, with backslashes turned into slashes.\<close>

definition rel_path :: "string \<Rightarrow> string \<Rightarrow> string" where
  "rel_path prefix name = map (\<lambda>c. if c = CHR 0x5C then CHR ''/'' else c) (join_path prefix name)"

text \<open>What one directory adds: the subdirectories to visit, and its watched files, in order.\<close>

definition subdirs :: "string list \<Rightarrow> string \<Rightarrow> tree \<Rightarrow> (string \<times> tree) list" where
  "subdirs skip prefix es = List.map_filter (\<lambda>(name, n). case n of
       Dir sub \<Rightarrow> (if name \<in> set skip then None else Some (join_path prefix name, sub))
     | File _ \<Rightarrow> None) es"

definition watched :: "string list \<Rightarrow> string \<Rightarrow> tree \<Rightarrow> (string \<times> string option) list" where
  "watched globs prefix es = List.map_filter (\<lambda>(name, n). case n of
       Dir _ \<Rightarrow> None
     | File content \<Rightarrow>
         (if list_ex (matches_glob (rel_path prefix name)) globs
          then Some (rel_path prefix name, content) else None)) es"

fun node_size :: "node \<Rightarrow> nat" and tree_size :: "(string \<times> node) list \<Rightarrow> nat" where
  "node_size (File c) = 1"
| "node_size (Dir es) = 1 + tree_size es"
| "tree_size [] = 0"
| "tree_size ((name, n) # es) = node_size n + tree_size es"

definition stack_size :: "(string \<times> tree) list \<Rightarrow> nat" where
  "stack_size st = (\<Sum>(p, es)\<leftarrow>st. Suc (tree_size es))"

lemma stack_size_subdirs: "stack_size (subdirs skip prefix es) \<le> tree_size es"
  by (induction es) (auto simp: stack_size_def subdirs_def map_filter_simps split: node.splits)

text \<open>
  The worklist: \<open>stack.pop()\<close> takes the directory pushed last, here the head of the list.
\<close>

function walk :: "string list \<Rightarrow> string list \<Rightarrow> (string \<times> tree) list \<Rightarrow> (string \<times> string option) list" where
  "walk skip globs [] = []"
| "walk skip globs ((prefix, es) # stack) =
     watched globs prefix es @ walk skip globs (rev (subdirs skip prefix es) @ stack)"
  by pat_completeness auto
termination
proof (relation "measure (\<lambda>(skip, globs, st). stack_size st)")
  fix skip globs :: "string list" and prefix es and stack :: "(string \<times> tree) list"
  have "stack_size (rev (subdirs skip prefix es)) = stack_size (subdirs skip prefix es)"
    by (simp add: stack_size_def rev_map [symmetric] sum_list_rev)
  then show "((skip, globs, rev (subdirs skip prefix es) @ stack), skip, globs, (prefix, es) # stack)
      \<in> measure (\<lambda>(skip, globs, st). stack_size st)"
    using stack_size_subdirs [of skip prefix es] by (simp add: stack_size_def)
qed simp

declare walk.simps [simp del]

definition artifact_hashes :: "(string \<Rightarrow> nat list) \<Rightarrow> verifier_spec \<Rightarrow> tree \<Rightarrow> string btree" where
  "artifact_hashes digest s ws =
     (if vs_files s = [] then []
      else fold (\<lambda>(rel, content) out.
                   case content of Some b \<Rightarrow> bt_insert rel (sha256_hex digest b) out | None \<Rightarrow> out)
             (walk [''target'', ''.git'', ''.uni'', ''evidence''] (vs_files s) [([], ws)]) [])"

text \<open>\<open>format!("{rel}:{h:?};")\<close>\<close>

definition hash_line :: "(string \<Rightarrow> nat list) \<Rightarrow> string \<times> string option \<Rightarrow> string" where
  "hash_line digest = (\<lambda>(rel, content).
     rel @ '':'' @
     (case content of Some b \<Rightarrow> ''Some('' @ [dquote] @ sha256_hex digest b @ [dquote] @ '')''
                    | None \<Rightarrow> ''None'') @ '';'')"

definition artifact_hash :: "(string \<Rightarrow> nat list) \<Rightarrow> verifier_spec \<Rightarrow> tree \<Rightarrow> string option" where
  "artifact_hash digest s ws =
     (if vs_files s = [] then None
      else
        let matched = walk [''target'', ''.git'', ''.uni''] (vs_files s) [([], ws)] in
        if matched = [] then None
        else Some (sha256_hex digest (concat (map (hash_line digest) matched))))"

subsection \<open>The files of a tree, declaratively\<close>

text \<open>\<open>file_at skip es prefix p c\<close>: below \<open>prefix\<close>, outside the skipped directories, \<open>p\<close> is a file.\<close>

inductive file_at :: "string list \<Rightarrow> tree \<Rightarrow> string \<Rightarrow> string \<Rightarrow> string option \<Rightarrow> bool"
  for skip :: "string list" where
  here: "(name, File c) \<in> set es \<Longrightarrow> file_at skip es prefix (rel_path prefix name) c"
| below: "(name, Dir sub) \<in> set es \<Longrightarrow> name \<notin> set skip \<Longrightarrow> file_at skip sub (join_path prefix name) p c \<Longrightarrow>
    file_at skip es prefix p c"

inductive_cases file_at_cases: "file_at skip es prefix p c"

lemma watched_iff:
  "(p, c) \<in> set (watched globs prefix es) \<longleftrightarrow>
     (\<exists>name. (name, File c) \<in> set es \<and> p = rel_path prefix name \<and> list_ex (matches_glob p) globs)"
  unfolding watched_def set_map_filter mem_Collect_eq
  by (rule iffI)
    (fastforce split: node.splits if_splits, auto intro!: bexI [where x = "(_, File c)"])

lemma subdirs_iff:
  "(q, sub) \<in> set (subdirs skip prefix es) \<longleftrightarrow>
     (\<exists>name. (name, Dir sub) \<in> set es \<and> name \<notin> set skip \<and> q = join_path prefix name)"
  unfolding subdirs_def set_map_filter mem_Collect_eq
  by (rule iffI)
    (fastforce split: node.splits if_splits, auto intro!: bexI [where x = "(_, Dir sub)"])

lemma file_at_step:
  "file_at skip es prefix p c \<longleftrightarrow>
     (\<exists>name. (name, File c) \<in> set es \<and> p = rel_path prefix name) \<or>
     (\<exists>q sub. (q, sub) \<in> set (subdirs skip prefix es) \<and> file_at skip sub q p c)"
proof
  assume "file_at skip es prefix p c"
  then show "(\<exists>name. (name, File c) \<in> set es \<and> p = rel_path prefix name) \<or>
     (\<exists>q sub. (q, sub) \<in> set (subdirs skip prefix es) \<and> file_at skip sub q p c)"
    by (cases rule: file_at.cases) (auto simp: subdirs_iff)
next
  assume "(\<exists>name. (name, File c) \<in> set es \<and> p = rel_path prefix name) \<or>
     (\<exists>q sub. (q, sub) \<in> set (subdirs skip prefix es) \<and> file_at skip sub q p c)"
  then show "file_at skip es prefix p c"
    unfolding subdirs_iff by (blast intro: file_at.intros)
qed

lemma walk_iff:
  "(p, c) \<in> set (walk skip globs st) \<longleftrightarrow>
     list_ex (matches_glob p) globs \<and> (\<exists>(q, es)\<in>set st. file_at skip es q p c)"
proof (induction skip globs st rule: walk.induct)
  case (1 skip globs)
  then show ?case by (simp add: walk.simps)
next
  case (2 skip globs prefix es stack)
  show ?case
    unfolding walk.simps set_append Un_iff watched_iff "2.IH"
    using file_at_step [of skip es prefix p c] by auto
qed

text \<open>
  The watch covers exactly the files of the workspace that a pattern matches: the walk
  lists a path with a content if and only if the path is a file with that content, in no
  skipped directory, and some pattern matches it. In particular the loop over the stack ends
  and misses no directory.
\<close>

theorem walk_complete:
  "(p, c) \<in> set (walk skip globs [([], ws)]) \<longleftrightarrow>
     (\<exists>g\<in>set globs. matches_glob p g) \<and> file_at skip ws [] p c"
  by (simp add: walk_iff list_ex_iff)

text \<open>
  No binding is invented: a verifier without patterns, or whose patterns match no file,
  has no artifact hash; if some file is matched there is one.
\<close>

theorem artifact_hash_none:
  "artifact_hash digest s ws = None \<longleftrightarrow>
     (\<forall>p c. \<not> ((\<exists>g\<in>set (vs_files s). matches_glob p g) \<and> file_at [''target'', ''.git'', ''.uni''] ws [] p c))"
proof -
  have "walk skip globs [([], ws)] = [] \<longleftrightarrow>
      (\<forall>p c. \<not> ((\<exists>g\<in>set globs. matches_glob p g) \<and> file_at skip ws [] p c))" for skip globs
  proof -
    have "walk skip globs [([], ws)] = [] \<longleftrightarrow> (\<forall>p c. (p, c) \<notin> set (walk skip globs [([], ws)]))"
      by (cases "walk skip globs [([], ws)]") auto
    then show ?thesis by (simp add: walk_iff list_ex_iff)
  qed
  then show ?thesis by (auto simp: artifact_hash_def Let_def)
qed

definition two_files :: tree where
  "two_files = [(''a'', File (Some ''x'')), (''b'', File (Some ''y''))]"

definition put_hash :: "(string \<Rightarrow> nat list) \<Rightarrow> string \<times> string option \<Rightarrow> string btree \<Rightarrow> string btree" where
  "put_hash digest = (\<lambda>(rel, content) out.
     case content of Some b \<Rightarrow> bt_insert rel (sha256_hex digest b) out | None \<Rightarrow> out)"

lemma put_hash_ok: "bt_ok m \<Longrightarrow> bt_ok (put_hash d x m)"
  by (auto simp: put_hash_def bt.ok_ins split: prod.splits option.splits)

lemma fold_put_hash_ok: "bt_ok m \<Longrightarrow> bt_ok (fold (put_hash d) xs m)"
  by (induction xs arbitrary: m) (auto intro: put_hash_ok)

lemma fold_put_hash_get:
  "bt_ok m \<Longrightarrow> bt_get (fold (put_hash d) xs m) p = Some h \<Longrightarrow>
     bt_get m p = Some h \<or> (\<exists>c. (p, Some c) \<in> set xs \<and> h = sha256_hex d c)"
proof (induction xs arbitrary: m)
  case Nil
  then show ?case by simp
next
  case (Cons x xs)
  then show ?case
    using Cons.IH [OF put_hash_ok [OF Cons.prems(1), of d x]]
    by (auto simp: put_hash_def bt.get_ins split: prod.splits option.splits if_splits)
qed

lemma fold_put_hash_keeps:
  "bt_ok m \<Longrightarrow> (\<exists>c. (p, Some c) \<in> set xs) \<or> bt_get m p \<noteq> None \<Longrightarrow> bt_get (fold (put_hash d) xs m) p \<noteq> None"
proof (induction xs arbitrary: m)
  case Nil
  then show ?case by simp
next
  case (Cons x xs)
  have "(\<exists>c. (p, Some c) \<in> set xs) \<or> bt_get (put_hash d x m) p \<noteq> None"
    using Cons.prems by (auto simp: put_hash_def bt.get_ins split: prod.splits option.splits)
  then show ?case using Cons.IH [OF put_hash_ok [OF Cons.prems(1), of d x]] by simp
qed

lemma artifact_hashes_fold:
  "vs_files s \<noteq> [] \<Longrightarrow> artifact_hashes d s ws =
     fold (put_hash d) (walk [''target'', ''.git'', ''.uni'', ''evidence''] (vs_files s) [([], ws)]) []"
  by (simp add: artifact_hashes_def put_hash_def)

lemma artifact_hashes_ok: "bt_ok (artifact_hashes d s ws)"
  by (cases "vs_files s = []") (simp_all add: artifact_hashes_fold fold_put_hash_ok, simp add: artifact_hashes_def)

text \<open>
  C35. The per-file hashes name exactly the readable watched files, each with the digest of
  a content it has in the workspace.
\<close>

theorem artifact_hashes_exact:
  "(bt_get (artifact_hashes d s ws) p \<noteq> None \<longleftrightarrow>
      (\<exists>g\<in>set (vs_files s). matches_glob p g) \<and>
      (\<exists>c. file_at [''target'', ''.git'', ''.uni'', ''evidence''] ws [] p (Some c))) \<and>
   (bt_get (artifact_hashes d s ws) p = Some h \<longrightarrow>
      (\<exists>c. file_at [''target'', ''.git'', ''.uni'', ''evidence''] ws [] p (Some c) \<and> h = sha256_hex d c))"
proof (cases "vs_files s = []")
  case True
  then show ?thesis by (simp add: artifact_hashes_def)
next
  case False
  let ?w = "walk [''target'', ''.git'', ''.uni'', ''evidence''] (vs_files s) [([], ws)]"
  have mem: "(p, Some c) \<in> set ?w \<longleftrightarrow> (\<exists>g\<in>set (vs_files s). matches_glob p g) \<and>
      file_at [''target'', ''.git'', ''.uni'', ''evidence''] ws [] p (Some c)" for c
    by (simp add: walk_iff list_ex_iff)
  have "bt_get (fold (put_hash d) ?w []) p \<noteq> None \<longleftrightarrow> (\<exists>c. (p, Some c) \<in> set ?w)"
    using fold_put_hash_get [of "[]" d ?w p] fold_put_hash_keeps [of "[]" p ?w d] by auto
  moreover have "bt_get (fold (put_hash d) ?w []) p = Some h \<Longrightarrow> \<exists>c. (p, Some c) \<in> set ?w \<and> h = sha256_hex d c"
    using fold_put_hash_get [of "[]" d ?w p h] by auto
  ultimately show ?thesis unfolding artifact_hashes_fold [OF False] mem by blast
qed

theorem artifact_hashes_exact_witness:
  "bt_get (artifact_hashes (\<lambda>_. [171]) ((shell_spec [])\<lparr>vs_files := [''a'']\<rparr>) two_files) ''a'' = Some ''ab''"
proof -
  have m: "matches_glob ''a'' ''a''" by code_simp
  have f: "file_at [''target'', ''.git'', ''.uni'', ''evidence''] two_files [] ''a'' (Some ''x'')"
    using file_at.here [of "''a''" "Some ''x''" two_files _ "[]"]
    by (simp add: two_files_def rel_path_def)
  have "\<exists>h. bt_get (artifact_hashes (\<lambda>_. [171]) ((shell_spec [])\<lparr>vs_files := [''a'']\<rparr>) two_files) ''a'' = Some h"
    using artifact_hashes_exact [of "\<lambda>_. [171]" "(shell_spec [])\<lparr>vs_files := [''a'']\<rparr>" two_files "''a''"] m f
    by auto
  moreover have "sha256_hex (\<lambda>_. [171]) c = ''ab''" for c :: string
  proof -
    have "hex_encode [171] = ''ab''" by code_simp
    then show ?thesis by (simp add: sha256_hex_def)
  qed
  ultimately show ?thesis
    using artifact_hashes_exact [of "\<lambda>_. [171]" "(shell_spec [])\<lparr>vs_files := [''a'']\<rparr>" two_files "''a''"]
    by auto
qed

text \<open>
  The hash is over the files in the order of the walk, which is the listing order: the same
  files listed in another order are hashed from another text.
\<close>

lemma two_files_matched:
  "walk [] [''*''] [([], two_files)] = [(''a'', Some ''x''), (''b'', Some ''y'')]"
  "walk [] [''*''] [([], rev two_files)] = [(''b'', Some ''y''), (''a'', Some ''x'')]"
  by code_simp+

theorem walk_order_dependent:
  "\<exists>ws ws' globs. set ws = set ws' \<and>
     concat (map (hash_line d) (walk [] globs [([], ws)])) \<noteq>
     concat (map (hash_line d) (walk [] globs [([], ws')]))"
proof (intro exI conjI)
  show "set two_files = set (rev two_files)" by simp
  show "concat (map (hash_line d) (walk [] [''*''] [([], two_files)])) \<noteq>
     concat (map (hash_line d) (walk [] [''*''] [([], rev two_files)]))"
    by (simp add: two_files_matched hash_line_def)
qed

end
