(* ===== verification/Verifiers.thy ===== *)
theory Verifiers
  imports Artifacts Decision
begin

section \<open>Running a verifier (crates/uni-verify, lib.rs)\<close>

text \<open>
  The two built-in verifiers, \<open>run_spec\<close>, which turns an outcome into evidence, and
  \<open>assure_contract\<close>. What is outside the program is a record of parameters over the state
  \<open>'w\<close> of the machine: git, the clock, the files, the digest and the execution of a shell
  command, which may change the machine. The output of a process is its standard output
  followed by its standard error, decoded as UTF-8 with replacement.
\<close>

datatype proc_run =
    SpawnError
  | Exited "int option" string
  | TimedOut string

record 'w os =
  os_digest :: "string \<Rightarrow> nat list"
  os_git_head :: "'w \<Rightarrow> string option"
  os_git_status :: "'w \<Rightarrow> string option"
  os_now :: "'w \<Rightarrow> int"
  os_tree :: "'w \<Rightarrow> tree"
  os_read :: "'w \<Rightarrow> string \<Rightarrow> string + string"
  os_sh :: "string \<Rightarrow> nat \<Rightarrow> 'w \<Rightarrow> proc_run \<times> 'w"
  os_elapsed_ms :: "'w \<Rightarrow> 'w \<Rightarrow> nat"
  os_add_hours :: "int \<Rightarrow> nat \<Rightarrow> int option"

definition os_git :: "'w os \<Rightarrow> 'w \<Rightarrow> string \<times> bool" where
  "os_git os w = git_info (os_git_head os w) (os_git_status os w)"

record outcome =
  oc_state :: evidence_state
  oc_exit_code :: int
  oc_command :: string
  oc_output :: string

subsection \<open>The shell\<close>

text \<open>
  The time limit is at least one second. A killed process counts as exit code \<open>-1\<close>, as does
  one that ended without an exit code (by a signal).
\<close>

definition run_shell :: "'w os \<Rightarrow> string \<Rightarrow> nat \<Rightarrow> 'w \<Rightarrow> verify_error + (int \<times> string) \<times> 'w" where
  "run_shell os command timeout_secs w =
     (let (res, w') = os_sh os command (max timeout_secs 1) w in
      case res of
        SpawnError \<Rightarrow> Inl SpawnFailed
      | Exited code out \<Rightarrow> Inr ((case code of Some c \<Rightarrow> c | None \<Rightarrow> -1, out), w')
      | TimedOut out \<Rightarrow>
          Inr ((-1, out @ [nl] @ ''[uni] verifier killed after '' @ show_nat timeout_secs @
                    ''s timeout''), w'))"

definition run_shell_verifier :: "'w os \<Rightarrow> verifier_spec \<Rightarrow> 'w \<Rightarrow> verify_error + outcome \<times> 'w" where
  "run_shell_verifier os s w =
     bind_r (run_shell os (vs_run s) (vs_timeout s) w) (\<lambda>((code, output), w').
       Inr (\<lparr>oc_state = (if code = 0 then Valid else Invalid), oc_exit_code = code,
             oc_command = vs_run s, oc_output = output\<rparr>, w'))"

subsection \<open>Expected hashes\<close>

text \<open>\<open>&s[..k]\<close>: \<open>None\<close> is the panic on a byte offset that is no character boundary.\<close>

definition byte_take :: "nat \<Rightarrow> string \<Rightarrow> string option" where
  "byte_take k s =
     (case byte_drop k s of None \<Rightarrow> None | Some r \<Rightarrow> Some (take (length s - length r) s))"

definition check_hash ::
  "'w os \<Rightarrow> 'w \<Rightarrow> string \<times> string \<Rightarrow> bool \<times> string list \<Rightarrow> verify_error + bool \<times> string list" where
  "check_hash os w = (\<lambda>(rel, expected) (ok, out).
     case os_read os w rel of
       Inl e \<Rightarrow> Inr (False, out @ [rel @ '': MISSING ('' @ e @ '')''])
     | Inr bytes \<Rightarrow>
         let matched = (sha256_hex (os_digest os) bytes = expected) in
         bind_r (ok_or (byte_take (min 12 (utf8_len expected)) expected) Panicked) (\<lambda>head.
           Inr (ok \<and> matched,
                out @ [rel @ '': '' @ (if matched then ''MATCH'' else ''MISMATCH'') @
                       '' (expected '' @ head @ '')''])))"

definition run_file_hash_verifier :: "'w os \<Rightarrow> verifier_spec \<Rightarrow> 'w \<Rightarrow> verify_error + outcome \<times> 'w" where
  "run_file_hash_verifier os s w =
     bind_r (fold_r (check_hash os w) (vs_expect_sha256 s) (True, [])) (\<lambda>(ok, out).
       Inr (\<lparr>oc_state = (if ok then Valid else Invalid), oc_exit_code = (if ok then 0 else 1),
             oc_command = ''file-hash: '' @ join '', '' (bt_keys (vs_expect_sha256 s)),
             oc_output = join [nl] out\<rparr>, w))"

subsection \<open>The seam\<close>

datatype verifier = ShellVerifier | FileHashVerifier

definition verifier_for :: "verifier_spec \<Rightarrow> verify_error + verifier" where
  "verifier_for s =
     (if vs_kind s = ''shell'' then Inr ShellVerifier
      else if vs_kind s = ''file-hash'' then Inr FileHashVerifier
      else Inl (UnknownKind (vs_kind s)))"

definition verifier_name :: "verifier \<Rightarrow> string" where
  "verifier_name v = (case v of ShellVerifier \<Rightarrow> ''shell-verifier''
                      | FileHashVerifier \<Rightarrow> ''file-hash-verifier'')"

definition verifier_run :: "'w os \<Rightarrow> verifier \<Rightarrow> verifier_spec \<Rightarrow> 'w \<Rightarrow> verify_error + outcome \<times> 'w" where
  "verifier_run os v = (case v of ShellVerifier \<Rightarrow> run_shell_verifier os
                        | FileHashVerifier \<Rightarrow> run_file_hash_verifier os)"

definition build_evidence ::
  "'w os \<Rightarrow> string \<Rightarrow> string \<Rightarrow> string \<Rightarrow> outcome \<Rightarrow> 'w \<Rightarrow> evidence" where
  "build_evidence os claim_id producer command oc w =
     (let (commit_sha, dirty) = os_git os w in
      \<lparr>ev_id = claim_id @ ''-'' @ take 8 (sha256_hex (os_digest os) command),
       ev_claim_id = claim_id, ev_producer = producer, ev_command = command,
       ev_exit_code = oc_exit_code oc,
       ev_output_hash = sha256_hex (os_digest os) (oc_output oc),
       ev_output_excerpt = take 2000 (oc_output oc), ev_commit_sha = commit_sha,
       ev_workspace_dirty = dirty, ev_state = oc_state oc, ev_created_at = os_now os w,
       ev_duration_ms = 0, ev_artifact_hash = [], ev_artifact_files = [], ev_fingerprint = [],
       ev_registry_hash = [], ev_policy_hash = [], ev_contract_hash = [], ev_platform = [],
       ev_actor = default_actor, ev_executor = default_actor, ev_binding_hash = [],
       ev_expires_at = None\<rparr>)"

text \<open>
  The expiry of a proof: chrono panics when the number of hours, or the sum, is out of its
  range, which \<open>os_add_hours\<close> gives as \<open>None\<close>.
\<close>

definition expiry :: "'w os \<Rightarrow> verifier_spec \<Rightarrow> evidence \<Rightarrow> verify_error + evidence" where
  "expiry os s ev =
     (if 0 < vs_max_age_hours s then
        bind_r (ok_or (os_add_hours os (ev_created_at ev) (min (vs_max_age_hours s) (2 ^ 63 - 1))) Panicked)
          (\<lambda>t. Inr (ev\<lparr>ev_expires_at := Some t\<rparr>))
      else Inr ev)"

definition invalidate_if :: "bool \<Rightarrow> evidence \<Rightarrow> evidence" where
  "invalidate_if b ev = (if b then ev\<lparr>ev_state := Invalid\<rparr> else ev)"

definition run_spec ::
  "'w os \<Rightarrow> string \<Rightarrow> string \<Rightarrow> verifier_spec \<Rightarrow> actor \<Rightarrow> actor \<Rightarrow> 'w \<Rightarrow> verify_error + evidence \<times> 'w" where
  "run_spec os claim_id verifier_ref s actor executor w =
     bind_r (verifier_for s) (\<lambda>v.
     bind_r (verifier_run os v s w) (\<lambda>(oc, w').
       let ev0 = build_evidence os claim_id (verifier_name v) (oc_command oc) oc w';
           ev1 = ev0\<lparr>ev_duration_ms := os_elapsed_ms os w w',
                     ev_artifact_files := artifact_hashes (os_digest os) s (os_tree os w'),
                     ev_artifact_hash :=
                       (case artifact_hash (os_digest os) s (os_tree os w') of
                          Some h \<Rightarrow> h | None \<Rightarrow> [])\<rparr>
       in bind_r (expiry os s ev1) (\<lambda>ev2.
            let ev3 = invalidate_if (vs_files s \<noteq> [] \<and> ev_artifact_hash ev2 = []) ev2;
                ev4 = ev3\<lparr>ev_fingerprint := spec_fingerprint (os_digest os) verifier_ref s (ac_id actor),
                          ev_actor := actor, ev_executor := executor\<rparr>;
                ev5 = invalidate_if (vs_expect s \<noteq> [] \<and> \<not> contains (oc_output oc) (vs_expect s)) ev4;
                ev6 = invalidate_if (vs_expect_not s \<noteq> [] \<and> contains (oc_output oc) (vs_expect_not s)) ev5
            in Inr (ev6, w'))))"

text \<open>One verification of the contract, and all of them in order.\<close>

definition assure_one ::
  "'w os \<Rightarrow> registry \<Rightarrow> actor \<Rightarrow> verification_ir \<Rightarrow> evidence list \<times> 'w \<Rightarrow> verify_error + evidence list \<times> 'w" where
  "assure_one os reg actor v = (\<lambda>(out, w).
     bind_r (resolve_command (vi_verifier_ref v) (vi_inline_shell v) reg) (\<lambda>s.
     bind_r (run_spec os (vi_claim_id v) (vi_verifier_ref v) s actor actor w) (\<lambda>(ev, w').
       Inr (out @ [ev], w'))))"

definition assure_contract ::
  "'w os \<Rightarrow> (string \<Rightarrow> toml option) \<Rightarrow> string option \<Rightarrow> actor \<Rightarrow> ir \<Rightarrow> 'w \<Rightarrow> verify_error + evidence list \<times> 'w" where
  "assure_contract os parse_toml config local_user i w =
     fold_r (assure_one os (load_registry parse_toml config) local_user) (ir_verification i) ([], w)"

subsection \<open>The interface of a verifier\<close>

text \<open>
  A verifier reports \<open>Valid\<close> exactly with exit code 0, and never a stale outcome. What
  \<open>run_spec\<close> relies on is proved from that.
\<close>

locale sound_verifier =
  fixes run :: "verifier_spec \<Rightarrow> 'w \<Rightarrow> verify_error + outcome \<times> 'w"
  assumes valid_iff: "run s w = Inr (oc, w') \<Longrightarrow> oc_state oc = Valid \<longleftrightarrow> oc_exit_code oc = 0"
    and never_stale: "run s w = Inr (oc, w') \<Longrightarrow> oc_state oc \<noteq> Stale"
begin

lemma failed_is_invalid: "run s w = Inr (oc, w') \<Longrightarrow> oc_exit_code oc \<noteq> 0 \<Longrightarrow> oc_state oc = Invalid"
  using valid_iff [of s w oc w'] never_stale [of s w oc w'] by (cases "oc_state oc") auto

end

interpretation shell: sound_verifier "run_shell_verifier os" for os
  by unfold_locales (auto simp: run_shell_verifier_def bind_r_Inr_iff split: if_splits)

interpretation file_hash: sound_verifier "run_file_hash_verifier os" for os
  by unfold_locales (auto simp: run_file_hash_verifier_def bind_r_Inr_iff split: if_splits)

interpretation any_verifier: sound_verifier "verifier_run os v" for os v
proof
  fix s w oc w'
  assume r: "verifier_run os v s w = Inr (oc, w')"
  show "(oc_state oc = Valid) = (oc_exit_code oc = 0)"
    using r shell.valid_iff [of os s w oc w'] file_hash.valid_iff [of os s w oc w']
    by (cases v) (simp_all add: verifier_run_def)
  show "oc_state oc \<noteq> Stale"
    using r shell.never_stale [of os s w oc w'] file_hash.never_stale [of os s w oc w']
    by (cases v) (simp_all add: verifier_run_def)
qed

subsection \<open>What run\_spec guarantees\<close>

definition conditions_met :: "verifier_spec \<Rightarrow> string \<Rightarrow> bool" where
  "conditions_met s out \<longleftrightarrow>
     (vs_expect s = [] \<or> contains out (vs_expect s)) \<and>
     (vs_expect_not s = [] \<or> \<not> contains out (vs_expect_not s))"

lemma invalidate_if_simps [simp]:
  "ev_state (invalidate_if b ev) = (if b then Invalid else ev_state ev)"
  "ev_exit_code (invalidate_if b ev) = ev_exit_code ev"
  "ev_claim_id (invalidate_if b ev) = ev_claim_id ev"
  "ev_artifact_hash (invalidate_if b ev) = ev_artifact_hash ev"
  "ev_fingerprint (invalidate_if b ev) = ev_fingerprint ev"
  "ev_actor (invalidate_if b ev) = ev_actor ev"
  "ev_executor (invalidate_if b ev) = ev_executor ev"
  "ev_output_excerpt (invalidate_if b ev) = ev_output_excerpt ev"
  "ev_artifact_files (invalidate_if b ev) = ev_artifact_files ev"
  "ev_expires_at (invalidate_if b ev) = ev_expires_at ev"
  "ev_commit_sha (invalidate_if b ev) = ev_commit_sha ev"
  "ev_workspace_dirty (invalidate_if b ev) = ev_workspace_dirty ev"
  "ev_created_at (invalidate_if b ev) = ev_created_at ev"
  by (simp_all add: invalidate_if_def)

lemma build_evidence_simps [simp]:
  "ev_state (build_evidence os c p cmd oc w) = oc_state oc"
  "ev_exit_code (build_evidence os c p cmd oc w) = oc_exit_code oc"
  "ev_claim_id (build_evidence os c p cmd oc w) = c"
  "ev_output_excerpt (build_evidence os c p cmd oc w) = take 2000 (oc_output oc)"
  "ev_commit_sha (build_evidence os c p cmd oc w) = fst (os_git os w)"
  "ev_workspace_dirty (build_evidence os c p cmd oc w) = snd (os_git os w)"
  "ev_created_at (build_evidence os c p cmd oc w) = os_now os w"
  "ev_expires_at (build_evidence os c p cmd oc w) = None"
  by (simp_all add: build_evidence_def split: prod.splits)

lemma expiry_frame:
  "expiry os s ev = Inr ev' \<Longrightarrow> \<exists>t. ev' = ev\<lparr>ev_expires_at := t\<rparr>"
proof (cases "0 < vs_max_age_hours s")
  case True
  then show "expiry os s ev = Inr ev' \<Longrightarrow> ?thesis"
    by (auto simp: expiry_def bind_r_Inr_iff)
next
  case False
  then show "expiry os s ev = Inr ev' \<Longrightarrow> ?thesis"
    by (intro exI [of _ "ev_expires_at ev"]) (simp add: expiry_def)
qed

lemma run_shell_zero:
  assumes "run_shell os cmd t w = Inr ((code, out), w')"
  shows "code = 0 \<longleftrightarrow> os_sh os cmd (max t 1) w = (Exited (Some 0) out, w')"
proof -
  obtain res w'' where r: "os_sh os cmd (max t 1) w = (res, w'')" by fastforce
  show ?thesis
    using assms unfolding run_shell_def r by (cases res) (auto split: option.splits)
qed

lemma run_shell_exited:
  "os_sh os cmd (max t 1) w = (Exited (Some c) out, w') \<Longrightarrow> run_shell os cmd t w = Inr ((c, out), w')"
  by (simp add: run_shell_def)

definition watched_hash :: "'w os \<Rightarrow> verifier_spec \<Rightarrow> 'w \<Rightarrow> string" where
  "watched_hash os s w =
     (case artifact_hash (os_digest os) s (os_tree os w) of Some h \<Rightarrow> h | None \<Rightarrow> [])"

text \<open>Everything a successful \<open>run_spec\<close> tells about its evidence.\<close>

lemma run_spec_Inr:
  assumes "run_spec os c r s act exe w = Inr (ev, w')"
  shows "\<exists>v oc. verifier_for s = Inr v \<and> verifier_run os v s w = Inr (oc, w') \<and>
    ev_exit_code ev = oc_exit_code oc \<and> ev_claim_id ev = c \<and>
    ev_artifact_hash ev = watched_hash os s w' \<and>
    ev_artifact_files ev = artifact_hashes (os_digest os) s (os_tree os w') \<and>
    ev_fingerprint ev = spec_fingerprint (os_digest os) r s (ac_id act) \<and>
    ev_actor ev = act \<and> ev_executor ev = exe \<and>
    ev_commit_sha ev = fst (os_git os w') \<and> ev_workspace_dirty ev = snd (os_git os w') \<and>
    ev_output_excerpt ev = take 2000 (oc_output oc) \<and>
    ev_state ev = (if (vs_files s \<noteq> [] \<and> watched_hash os s w' = []) \<or> \<not> conditions_met s (oc_output oc)
                   then Invalid else oc_state oc)"
proof -
  obtain v oc where v: "verifier_for s = Inr v" and o: "verifier_run os v s w = Inr (oc, w')"
    using assms by (auto simp: run_spec_def bind_r_Inr_iff Let_def)
  obtain ev2 where e: "expiry os s
      ((build_evidence os c (verifier_name v) (oc_command oc) oc w')
        \<lparr>ev_duration_ms := os_elapsed_ms os w w',
         ev_artifact_files := artifact_hashes (os_digest os) s (os_tree os w'),
         ev_artifact_hash := watched_hash os s w'\<rparr>) = Inr ev2"
    and ev: "ev = invalidate_if (vs_expect_not s \<noteq> [] \<and> contains (oc_output oc) (vs_expect_not s))
      (invalidate_if (vs_expect s \<noteq> [] \<and> \<not> contains (oc_output oc) (vs_expect s))
        ((invalidate_if (vs_files s \<noteq> [] \<and> ev_artifact_hash ev2 = []) ev2)
           \<lparr>ev_fingerprint := spec_fingerprint (os_digest os) r s (ac_id act),
            ev_actor := act, ev_executor := exe\<rparr>))"
    using assms v o by (auto simp: run_spec_def bind_r_Inr_iff Let_def watched_hash_def)
  from expiry_frame [OF e] obtain t where ev2: "ev2 =
      (build_evidence os c (verifier_name v) (oc_command oc) oc w')
        \<lparr>ev_duration_ms := os_elapsed_ms os w w',
         ev_artifact_files := artifact_hashes (os_digest os) s (os_tree os w'),
         ev_artifact_hash := watched_hash os s w', ev_expires_at := t\<rparr>"
    by auto
  show ?thesis
    by (intro exI [of _ v] exI [of _ oc]) (auto simp: v o ev ev2 conditions_met_def)
qed

lemma run_spec_no_expiry:
  assumes "run_spec os c r s act exe w = Inr (ev, w')" and "vs_max_age_hours s = 0"
  shows "ev_expires_at ev = None"
  using assms by (auto simp: run_spec_def bind_r_Inr_iff Let_def expiry_def)

lemma run_spec_sound: "run_spec os c r s act exe w = Inr (ev, w') \<Longrightarrow> ev_state ev = Valid \<Longrightarrow> ev_exit_code ev = 0"
  using any_verifier.valid_iff by (fastforce dest!: run_spec_Inr split: if_splits)

text \<open>
  C16. A shell proof is valid exactly when the process was started, ran to its end within the
  limit with exit code 0, printed what is expected and not what is refused (in its whole
  output), and, if files are watched, some are there to be hashed. A killed process, a signal
  and a process that did not start never count.
\<close>

theorem shell_valid_iff:
  assumes "run_spec os c r s act exe w = Inr (ev, w')" and "vs_kind s = ''shell''"
  shows "ev_state ev = Valid \<longleftrightarrow>
    (\<exists>out. os_sh os (vs_run s) (max (vs_timeout s) 1) w = (Exited (Some 0) out, w') \<and>
       conditions_met s out \<and> (vs_files s = [] \<or> watched_hash os s w' \<noteq> []))"
proof -
  obtain v oc where v: "verifier_for s = Inr v" "verifier_run os v s w = Inr (oc, w')"
    and st: "ev_state ev = (if (vs_files s \<noteq> [] \<and> watched_hash os s w' = []) \<or> \<not> conditions_met s (oc_output oc)
                   then Invalid else oc_state oc)"
    using run_spec_Inr [OF assms(1)] by blast
  have "v = ShellVerifier" using v(1) assms(2) by (simp add: verifier_for_def)
  then obtain code where sh: "run_shell os (vs_run s) (vs_timeout s) w = Inr ((code, oc_output oc), w')"
    and oc: "oc_state oc = (if code = 0 then Valid else Invalid)"
    using v(2) by (auto simp: verifier_run_def run_shell_verifier_def bind_r_Inr_iff)
  have zero: "code = 0 \<longleftrightarrow> os_sh os (vs_run s) (max (vs_timeout s) 1) w = (Exited (Some 0) (oc_output oc), w')"
    using sh by (rule run_shell_zero)
  have out: "out = oc_output oc"
    if "os_sh os (vs_run s) (max (vs_timeout s) 1) w = (Exited (Some 0) out, w')" for out
    using sh run_shell_exited [OF that] by simp
  have "ev_state ev = Valid \<longleftrightarrow> code = 0 \<and> conditions_met s (oc_output oc) \<and> (vs_files s = [] \<or> watched_hash os s w' \<noteq> [])"
    using st oc by auto
  then show ?thesis using zero out by metis
qed

definition demo_os :: "(nat \<Rightarrow> proc_run) \<Rightarrow> nat os" where
  "demo_os prog =
     \<lparr>os_digest = (\<lambda>s. replicate 32 (length s mod 256)), os_git_head = (\<lambda>_. Some (''abc'' @ [nl])),
      os_git_status = (\<lambda>_. Some []),
      os_now = int, os_tree = (\<lambda>_. []), os_read = (\<lambda>_ _. Inl ''no such file''),
      os_sh = (\<lambda>cmd t w. (prog w, Suc w)), os_elapsed_ms = (\<lambda>_ _. 5),
      os_add_hours = (\<lambda>t h. Some (t + int h))\<rparr>"

lemma demo_os_git [simp]: "os_git (demo_os prog) = (\<lambda>_. (''abc'', False))"
proof -
  have "trim (''abc'' @ [nl]) = ''abc''" by code_simp
  then show ?thesis by (simp add: os_git_def git_info_def demo_os_def fun_eq_iff)
qed

lemma demo_run:
  "\<exists>ev. run_spec (demo_os (\<lambda>_. Exited (Some 0) out)) c ''k'' (shell_spec cmd) act exe w = Inr (ev, Suc w)"
  by (simp add: run_spec_def verifier_for_def shell_spec_def verifier_run_def run_shell_verifier_def
      run_shell_def demo_os_def Let_def expiry_def)

theorem shell_valid_iff_witness:
  "\<exists>ev. run_spec (demo_os (\<lambda>_. Exited (Some 0) ''ok'')) ''a'' ''k'' (shell_spec ''true'')
       (demo_actor ''ci'') (demo_actor ''dev'') 7 = Inr (ev, Suc 7) \<and> ev_state ev = Valid"
proof -
  obtain ev where ev: "run_spec (demo_os (\<lambda>_. Exited (Some 0) ''ok'')) ''a'' ''k'' (shell_spec ''true'')
       (demo_actor ''ci'') (demo_actor ''dev'') 7 = Inr (ev, Suc 7)"
    using demo_run by blast
  have "vs_kind (shell_spec ''true'') = ''shell''" by (simp add: shell_spec_def)
  from shell_valid_iff [OF ev this] have "ev_state ev = Valid"
    by (simp add: demo_os_def conditions_met_def shell_spec_def)
  then show ?thesis using ev by blast
qed

subsection \<open>Expected hashes\<close>

definition hash_matches :: "'w os \<Rightarrow> 'w \<Rightarrow> string \<times> string \<Rightarrow> bool" where
  "hash_matches os w = (\<lambda>(rel, expected).
     case os_read os w rel of Inl _ \<Rightarrow> False | Inr bytes \<Rightarrow> sha256_hex (os_digest os) bytes = expected)"

lemma check_hash_ok:
  "check_hash os w x (ok, out) = Inr (ok', out') \<Longrightarrow> ok' = (ok \<and> hash_matches os w x)"
  by (auto simp: check_hash_def hash_matches_def Let_def bind_r_Inr_iff split: prod.splits sum.splits)

lemma check_hashes_ok:
  "fold_r (check_hash os w) xs (ok, out) = Inr (ok', out') \<Longrightarrow> ok' = (ok \<and> list_all (hash_matches os w) xs)"
proof (induction xs arbitrary: ok out)
  case Nil
  then show ?case by simp
next
  case (Cons x xs)
  then obtain ok1 out1 where 1: "check_hash os w x (ok, out) = Inr (ok1, out1)"
    and 2: "fold_r (check_hash os w) xs (ok1, out1) = Inr (ok', out')"
    by (auto simp: bind_r_Inr_iff)
  show ?case using Cons.IH [OF 2] check_hash_ok [OF 1] by auto
qed

text \<open>
  A file-hash proof runs no process and leaves the machine as it was; it is valid exactly
  when every expected path can be read and its digest is the expected one, and the further
  conditions of the specification hold of its report.
\<close>

theorem file_hash_valid_iff:
  assumes "run_spec os c r s act exe w = Inr (ev, w')" and "vs_kind s = ''file-hash''"
    and "vs_expect s = []" and "vs_expect_not s = []"
  shows "w' = w \<and> (ev_state ev = Valid \<longleftrightarrow>
    (\<forall>(rel, expected)\<in>set (vs_expect_sha256 s). \<exists>bytes.
       os_read os w rel = Inr bytes \<and> sha256_hex (os_digest os) bytes = expected) \<and>
    (vs_files s = [] \<or> watched_hash os s w \<noteq> []))"
proof -
  obtain v oc where v: "verifier_for s = Inr v" "verifier_run os v s w = Inr (oc, w')"
    and st: "ev_state ev = (if (vs_files s \<noteq> [] \<and> watched_hash os s w' = []) \<or> \<not> conditions_met s (oc_output oc)
                   then Invalid else oc_state oc)"
    using run_spec_Inr [OF assms(1)] by blast
  have "v = FileHashVerifier" using v(1) assms(2) by (simp add: verifier_for_def)
  then obtain ok out where f: "fold_r (check_hash os w) (vs_expect_sha256 s) (True, []) = Inr (ok, out)"
    and oc: "oc_state oc = (if ok then Valid else Invalid)" and w: "w' = w"
    using v(2) by (auto simp: verifier_run_def run_file_hash_verifier_def bind_r_Inr_iff)
  have "conditions_met s (oc_output oc)" using assms(3,4) by (simp add: conditions_met_def)
  then have "ev_state ev = Valid \<longleftrightarrow> ok \<and> (vs_files s = [] \<or> watched_hash os s w \<noteq> [])"
    using st oc w by auto
  moreover have "ok \<longleftrightarrow> (\<forall>(rel, expected)\<in>set (vs_expect_sha256 s). \<exists>bytes.
       os_read os w rel = Inr bytes \<and> sha256_hex (os_digest os) bytes = expected)"
  proof -
    have "hash_matches os w x \<longleftrightarrow> (case x of (rel, expected) \<Rightarrow> \<exists>bytes.
       os_read os w rel = Inr bytes \<and> sha256_hex (os_digest os) bytes = expected)" for x
      by (cases x; cases "os_read os w (fst x)") (auto simp: hash_matches_def)
    then show ?thesis using check_hashes_ok [OF f] by (simp add: list_all_iff)
  qed
  ultimately show ?thesis using w by simp
qed

definition hash_os :: "nat os" where
  "hash_os = (demo_os (\<lambda>_. SpawnError))\<lparr>os_read := (\<lambda>_ p. if p = ''a'' then Inr ''x'' else Inl ''none''),
                os_digest := (\<lambda>s. [171])\<rparr>"

definition hash_spec :: verifier_spec where
  "hash_spec = (shell_spec [])\<lparr>vs_kind := ''file-hash'', vs_expect_sha256 := [(''a'', ''ab'')]\<rparr>"

theorem file_hash_valid_iff_witness:
  "\<exists>ev. run_spec hash_os ''c'' ''k'' hash_spec default_actor default_actor 3 = Inr (ev, 3) \<and>
     ev_state ev = Valid"
proof -
  have h: "sha256_hex (os_digest hash_os) ''x'' = ''ab''" by code_simp
  have b: "byte_take (min 12 (utf8_len ''ab'')) ''ab'' = Some ''ab''" by code_simp
  have r: "os_read hash_os 3 ''a'' = Inr ''x''" by (simp add: hash_os_def)
  obtain ev where ev: "run_spec hash_os ''c'' ''k'' hash_spec default_actor default_actor 3 = Inr (ev, 3)"
    using h b r
    by (simp add: run_spec_def verifier_for_def hash_spec_def shell_spec_def verifier_run_def
        run_file_hash_verifier_def check_hash_def Let_def expiry_def)
  have s: "vs_kind hash_spec = ''file-hash''" "vs_expect hash_spec = []" "vs_expect_not hash_spec = []"
    "vs_expect_sha256 hash_spec = [(''a'', ''ab'')]" "vs_files hash_spec = []"
    by (simp_all add: hash_spec_def shell_spec_def)
  have "ev_state ev = Valid"
    using file_hash_valid_iff [OF ev s(1-3)] h r by (simp add: s)
  then show ?thesis using ev by blast
qed

subsection \<open>A whole contract\<close>

lemma assure_one_Inr:
  assumes "assure_one os reg act v (out, w) = Inr (out', w')"
  shows "\<exists>s ev. resolve_command (vi_verifier_ref v) (vi_inline_shell v) reg = Inr s \<and>
    run_spec os (vi_claim_id v) (vi_verifier_ref v) s act act w = Inr (ev, w') \<and> out' = out @ [ev]"
  using assms by (auto simp: assure_one_def bind_r_Inr_iff)

lemma assure_fold:
  "fold_r (assure_one os reg act) vs (out, w) = Inr (out', w') \<Longrightarrow> sound_evidence out \<Longrightarrow>
     sound_evidence out' \<and> map ev_claim_id out' = map ev_claim_id out @ map vi_claim_id vs"
proof (induction vs arbitrary: out w)
  case Nil
  then show ?case by simp
next
  case (Cons v vs)
  then obtain out1 w1 where 1: "assure_one os reg act v (out, w) = Inr (out1, w1)"
    and 2: "fold_r (assure_one os reg act) vs (out1, w1) = Inr (out', w')"
    by (auto simp: bind_r_Inr_iff)
  obtain s ev where ev: "run_spec os (vi_claim_id v) (vi_verifier_ref v) s act act w = Inr (ev, w1)"
    and out1: "out1 = out @ [ev]"
    using assure_one_Inr [OF 1] by blast
  have "ev_claim_id ev = vi_claim_id v" using run_spec_Inr [OF ev] by blast
  moreover have "sound_evidence out1"
    using Cons.prems(2) run_spec_sound [OF ev] by (auto simp: out1 sound_evidence_def)
  ultimately show ?case using Cons.IH [OF 2] by (simp add: out1)
qed

text \<open>
  Assuring a contract gives one record per verification, about its claim and in its
  order, or the error of the first verification that could not be resolved or run; every
  record that says valid exited with 0, which is what the decision relies on.
\<close>

theorem assure_contract_sound:
  assumes "assure_contract os parse_toml config usr i w = Inr (evs, w')"
  shows "map ev_claim_id evs = map vi_claim_id (ir_verification i) \<and> sound_evidence evs"
  using assms assure_fold [of os _ usr "ir_verification i" "[]" w evs w']
  by (auto simp: assure_contract_def sound_evidence_def)

theorem assure_contract_sound_witness:
  "\<exists>evs w'. assure_contract (demo_os (\<lambda>_. Exited (Some 0) ''ok''))
       (\<lambda>_. Some (TTable [(''verifiers'', TTable [(''k'', TString ''true'')])])) (Some ''cfg'')
       (demo_actor ''ci'') demo_ir 0 = Inr (evs, w') \<and> map ev_claim_id evs = [''a'']"
proof -
  let ?os = "demo_os (\<lambda>_. Exited (Some 0) ''ok'')"
  let ?pt = "\<lambda>_ :: string. Some (TTable [(''verifiers'', TTable [(''k'', TString ''true'')])])"
  have reg: "load_registry ?pt (Some ''cfg'') = [(''k'', shell_spec ''true'')]"
    by (simp add: load_registry_def toml_get_def as_table_def bt_get_def load_entry_def as_str_def)
  obtain ev where ev: "run_spec ?os ''a'' ''k'' (shell_spec ''true'') (demo_actor ''ci'') (demo_actor ''ci'') 0 = Inr (ev, Suc 0)"
    using demo_run by blast
  have a: "assure_contract ?os ?pt (Some ''cfg'') (demo_actor ''ci'') demo_ir 0 = Inr ([ev], Suc 0)"
    using ev by (simp add: assure_contract_def reg assure_one_def demo_ir_def resolve_command_def bt_get_def)
  show ?thesis using assure_contract_sound [OF a] a by (auto simp: demo_ir_def)
qed

end
