(* ===== verification/Trust_Boundary.thy ===== *)
theory Trust_Boundary
  imports Registry
begin

section \<open>Naming what changed in the registry (crates/uni-verify, registry_diff)\<close>

text \<open>
  The difference between the acknowledged registry and the current one, key by key over the
  tables \<open>[verifiers]\<close> and \<open>[identities]\<close>. Values are compared as decoded values.
\<close>

record registry_diff =
  rd_added :: "string list"
  rd_removed :: "string list"
  rd_changed :: "string list"

definition no_diff :: registry_diff where
  "no_diff = \<lparr>rd_added = [], rd_removed = [], rd_changed = []\<rparr>"

definition named_table :: "(string \<Rightarrow> toml option) \<Rightarrow> string \<Rightarrow> string \<Rightarrow> toml btree" where
  "named_table parse_toml text name =
     (case Option.bind (parse_toml text) (\<lambda>v. Option.bind (toml_get v name) as_table) of
        Some t \<Rightarrow> t | None \<Rightarrow> [])"

definition diff_table :: "toml btree \<Rightarrow> toml btree \<Rightarrow> string \<Rightarrow> registry_diff" where
  "diff_table old new prefix =
     \<lparr>rd_added = map (\<lambda>k. prefix @ k) (filter (\<lambda>k. bt_get old k = None) (bt_keys new)),
      rd_removed = map (\<lambda>k. prefix @ k) (filter (\<lambda>k. bt_get new k = None) (bt_keys old)),
      rd_changed = map (\<lambda>k. prefix @ k)
        (filter (\<lambda>k. bt_get old k \<noteq> None \<and> bt_get old k \<noteq> bt_get new k) (bt_keys new))\<rparr>"

definition registry_diff_of :: "(string \<Rightarrow> toml option) \<Rightarrow> string \<Rightarrow> string \<Rightarrow> registry_diff" where
  "registry_diff_of parse_toml old_text new_text =
     (let v = diff_table (named_table parse_toml old_text ''verifiers'')
                (named_table parse_toml new_text ''verifiers'') [];
          i = diff_table (named_table parse_toml old_text ''identities'')
                (named_table parse_toml new_text ''identities'') ''identity:''
      in \<lparr>rd_added = sort (rd_added v @ rd_added i), rd_removed = sort (rd_removed v @ rd_removed i),
          rd_changed = sort (rd_changed v @ rd_changed i)\<rparr>)"

lemma diff_table_mem:
  "x \<in> set (rd_added (diff_table old new pre)) \<longleftrightarrow> (\<exists>k. x = pre @ k \<and> bt_get old k = None \<and> bt_get new k \<noteq> None)"
  "x \<in> set (rd_removed (diff_table old new pre)) \<longleftrightarrow> (\<exists>k. x = pre @ k \<and> bt_get old k \<noteq> None \<and> bt_get new k = None)"
  "x \<in> set (rd_changed (diff_table old new pre)) \<longleftrightarrow>
     (\<exists>k. x = pre @ k \<and> bt_get old k \<noteq> None \<and> bt_get new k \<noteq> None \<and> bt_get old k \<noteq> bt_get new k)"
  by (auto simp: diff_table_def bt_get_keys [symmetric])

definition same_boundary :: "(string \<Rightarrow> toml option) \<Rightarrow> string \<Rightarrow> string \<Rightarrow> bool" where
  "same_boundary parse_toml old new \<longleftrightarrow>
     (\<forall>k. bt_get (named_table parse_toml old ''verifiers'') k = bt_get (named_table parse_toml new ''verifiers'') k) \<and>
     (\<forall>k. bt_get (named_table parse_toml old ''identities'') k = bt_get (named_table parse_toml new ''identities'') k)"

text \<open>
  The difference is empty exactly when both tables bind the same names to the same
  values: no change of a verifier or of a trusted issuer goes unnamed, and nothing is named
  that did not change.
\<close>

theorem registry_diff_complete:
  "registry_diff_of parse_toml old new = no_diff \<longleftrightarrow> same_boundary parse_toml old new"
proof -
  have n: "r = no_diff \<longleftrightarrow> rd_added r = [] \<and> rd_removed r = [] \<and> rd_changed r = []" for r :: registry_diff
    by (cases r) (simp add: no_diff_def)
  have e: "diff_table o1 n1 pre = no_diff \<longleftrightarrow> (\<forall>k. bt_get o1 k = bt_get n1 k)" for o1 n1 pre
  proof
    assume d: "diff_table o1 n1 pre = no_diff"
    show "\<forall>k. bt_get o1 k = bt_get n1 k"
    proof
      fix k
      have "pre @ k \<notin> set (rd_added (diff_table o1 n1 pre))" "pre @ k \<notin> set (rd_removed (diff_table o1 n1 pre))"
        "pre @ k \<notin> set (rd_changed (diff_table o1 n1 pre))"
        using d by (simp_all add: no_diff_def)
      then show "bt_get o1 k = bt_get n1 k"
        unfolding diff_table_mem by (cases "bt_get o1 k"; cases "bt_get n1 k") simp_all
    qed
  next
    assume same: "\<forall>k. bt_get o1 k = bt_get n1 k"
    have "x \<notin> set (rd_added (diff_table o1 n1 pre))" "x \<notin> set (rd_removed (diff_table o1 n1 pre))"
      "x \<notin> set (rd_changed (diff_table o1 n1 pre))" for x
      unfolding diff_table_mem using same by auto
    then have "set (rd_added (diff_table o1 n1 pre)) = {}" "set (rd_removed (diff_table o1 n1 pre)) = {}"
      "set (rd_changed (diff_table o1 n1 pre)) = {}"
      by (simp_all add: subset_empty [symmetric] subset_iff del: set_empty)
    then show "diff_table o1 n1 pre = no_diff" unfolding n by simp
  qed
  have s: "sort (xs @ ys) = [] \<longleftrightarrow> xs = [] \<and> ys = []" for xs ys :: "string list"
    by (metis append_is_Nil_conv length_0_conv length_sort)
  have "registry_diff_of parse_toml old new = no_diff \<longleftrightarrow>
      diff_table (named_table parse_toml old ''verifiers'') (named_table parse_toml new ''verifiers'') [] = no_diff \<and>
      diff_table (named_table parse_toml old ''identities'') (named_table parse_toml new ''identities'') ''identity:'' = no_diff"
    unfolding n registry_diff_of_def Let_def registry_diff.simps s by blast
  then show ?thesis by (simp add: e same_boundary_def)
qed

lemma registry_diff_reverse:
  "set (rd_added (registry_diff_of pt a b)) = set (rd_removed (registry_diff_of pt b a))"
  by (auto simp: registry_diff_of_def Let_def diff_table_mem)

end
