(* ===== verification/Identity.thy ===== *)
theory Identity
  imports Evidence_Facts Documents
begin

section \<open>Identity adapters (crates/uni-verify, identity.rs)\<close>

text \<open>
  The trusted issuers of \<open>[identities]\<close> and the verification of a presented token against
  them, in the order of the issuers. The jsonwebtoken crate, the JWKS decoder and the file
  reads are parameters: the header of a token, the key a JWK gives, and the validation of a
  token under a key for one issuer, its audiences and the required claims.
\<close>

record identity_provider =
  ip_issuer :: string
  ip_source :: string
  ip_jwks_file :: string
  ip_audiences :: "string list"
  ip_algorithms :: "string list"

type_synonym identity_registry = "identity_provider btree"

datatype identity_error =
    ConfigUnparsable
  | EntryNotTable string
  | UnknownSource string string
  | NoJwksFile string
  | MalformedToken
  | NoIssuers
  | NotSpiffeSubject string string
  | RejectedByAll "string list"

definition str_list :: "toml btree \<Rightarrow> string \<Rightarrow> string list option" where
  "str_list t k = map_option (List.map_filter as_str) (Option.bind (bt_get t k) as_array)"

definition known_sources :: "string list" where
  "known_sources = [''oidc'', ''entra'', ''spiffe'']"

definition default_algorithms :: "string list" where
  "default_algorithms = [''RS256'', ''ES256'']"

text \<open>\<open>workspace.join\<close>: an absolute path stays as it is.\<close>

definition join_workspace :: "string \<Rightarrow> string \<Rightarrow> string" where
  "join_workspace ws p = (if starts_with ''/'' p then p else ws @ ''/'' @ p)"

definition load_identity ::
  "string \<Rightarrow> string \<times> toml \<Rightarrow> identity_registry \<Rightarrow> identity_error + identity_registry" where
  "load_identity ws = (\<lambda>(issuer, v) reg.
     bind_r (ok_or (as_table v) (EntryNotTable issuer)) (\<lambda>t.
       let src = (case Option.bind (bt_get t ''source'') as_str of Some s \<Rightarrow> s | None \<Rightarrow> ''oidc'') in
       if src \<notin> set known_sources then Inl (UnknownSource issuer src)
       else
         bind_r (ok_or (Option.bind (bt_get t ''jwks_file'') as_str) (NoJwksFile issuer)) (\<lambda>jwks.
           Inr (bt_insert issuer
             \<lparr>ip_issuer = issuer, ip_source = src, ip_jwks_file = join_workspace ws jwks,
              ip_audiences = (case str_list t ''audiences'' of Some xs \<Rightarrow> xs | None \<Rightarrow> []),
              ip_algorithms = (case str_list t ''algorithms'' of
                 Some xs \<Rightarrow> (if xs = [] then default_algorithms else xs)
               | None \<Rightarrow> default_algorithms)\<rparr> reg))))"

definition load_identities ::
  "(string \<Rightarrow> toml option) \<Rightarrow> string \<Rightarrow> string option \<Rightarrow> identity_error + identity_registry" where
  "load_identities parse_toml ws config =
     (case config of
        None \<Rightarrow> Inr []
      | Some text \<Rightarrow>
          bind_r (ok_or (parse_toml text) ConfigUnparsable) (\<lambda>v.
            case Option.bind (toml_get v ''identities'') as_table of
              None \<Rightarrow> Inr []
            | Some t \<Rightarrow> fold_r (load_identity ws) t []))"

subsection \<open>Tokens\<close>

record jwt_header =
  jh_alg :: string
  jh_kid :: "string option"

text \<open>
  The crate: the header of a token, the key set of a JWKS text (each key with its id), whether
  a JWK gives a decoding key, and \<open>decode\<close> with the issuer, the audiences (\<open>None\<close>: not
  enforced) and the algorithm, which gives the subject of a token it accepts.
\<close>

record ('k, 'd) jwt =
  jw_header :: "string \<Rightarrow> jwt_header option"
  jw_keys :: "string \<Rightarrow> (string option \<times> 'k) list option"
  jw_decoding_key :: "'k \<Rightarrow> 'd option"
  jw_decode :: "string \<Rightarrow> 'd \<Rightarrow> string \<Rightarrow> string \<Rightarrow> string list option \<Rightarrow> string option"

definition select_key :: "string option \<Rightarrow> (string option \<times> 'k) list \<Rightarrow> 'k option" where
  "select_key kid keys =
     (case kid of
        Some i \<Rightarrow> map_option snd (List.find (\<lambda>k. fst k = Some i) keys)
      | None \<Rightarrow> (case keys of [k] \<Rightarrow> Some (snd k) | _ \<Rightarrow> None))"

text \<open>One issuer: the subject, if the token is accepted for it (\<open>None\<close>: the next one is tried).\<close>

definition try_provider ::
  "('k, 'd) jwt \<Rightarrow> (string \<Rightarrow> string option) \<Rightarrow> string \<Rightarrow> jwt_header \<Rightarrow> identity_provider \<Rightarrow> string option" where
  "try_provider jw read_file tok h p =
     (if jh_alg h \<notin> set (ip_algorithms p) then None
      else Option.bind (read_file (ip_jwks_file p)) (\<lambda>text.
           Option.bind (jw_keys jw text) (\<lambda>keys.
           Option.bind (select_key (jh_kid h) keys) (\<lambda>jwk.
           Option.bind (jw_decoding_key jw jwk) (\<lambda>key.
             jw_decode jw tok key (jh_alg h) (ip_issuer p)
               (if ip_audiences p = [] then None else Some (ip_audiences p)))))))"

definition actor_of :: "identity_provider \<Rightarrow> string \<Rightarrow> identity_error + actor" where
  "actor_of p sub =
     (let subject = trim sub in
      if ip_source p = ''spiffe'' then
        (if \<not> starts_with ''spiffe://'' subject then Inl (NotSpiffeSubject (ip_issuer p) subject)
         else Inr (verified_actor subject ''spiffe''))
      else Inr (verified_actor (ip_source p @ '':'' @ ip_issuer p @ ''#'' @ subject) (ip_source p)))"

fun try_providers ::
  "('k, 'd) jwt \<Rightarrow> (string \<Rightarrow> string option) \<Rightarrow> string \<Rightarrow> jwt_header \<Rightarrow> string list \<Rightarrow>
   identity_provider list \<Rightarrow> identity_error + actor" where
  "try_providers jw rf tok h issuers [] = Inl (RejectedByAll issuers)"
| "try_providers jw rf tok h issuers (p # ps) =
     (case try_provider jw rf tok h p of
        Some sub \<Rightarrow> actor_of p sub
      | None \<Rightarrow> try_providers jw rf tok h issuers ps)"

definition verify_token ::
  "('k, 'd) jwt \<Rightarrow> (string \<Rightarrow> string option) \<Rightarrow> string \<Rightarrow> identity_registry \<Rightarrow> identity_error + actor" where
  "verify_token jw read_file tok reg =
     bind_r (ok_or (jw_header jw tok) MalformedToken) (\<lambda>h.
       if reg = [] then Inl NoIssuers
       else try_providers jw read_file tok h (bt_keys reg) (map snd reg))"

subsection \<open>What the registry of issuers holds\<close>

definition provider_ok :: "string \<times> identity_provider \<Rightarrow> bool" where
  "provider_ok = (\<lambda>(issuer, p). ip_issuer p = issuer \<and> ip_source p \<in> set known_sources \<and> ip_algorithms p \<noteq> [])"

definition identities_ok :: "identity_registry \<Rightarrow> bool" where
  "identities_ok reg \<longleftrightarrow> bt_ok reg \<and> list_all provider_ok reg"

lemma load_identity_ok:
  assumes "load_identity ws e reg = Inr reg'" and "identities_ok reg"
  shows "identities_ok reg' \<and> bt_get reg' (fst e) \<noteq> None \<and>
    (\<forall>j. bt_get reg j \<noteq> None \<longrightarrow> bt_get reg' j \<noteq> None)"
proof -
  obtain issuer v where e: "e = (issuer, v)" by (cases e)
  obtain p where p: "reg' = bt_insert issuer p reg" "provider_ok (issuer, p)"
    using assms(1) unfolding e load_identity_def
    by (auto simp: bind_r_Inr_iff Let_def provider_ok_def default_algorithms_def split: if_splits option.splits)
  have "bt_ok reg" using assms(2) by (simp add: identities_ok_def)
  then show ?thesis
    using assms(2) p bt.get_ins [of reg issuer p] bt.ok_ins [of reg issuer p]
    by (auto simp: e identities_ok_def list_all_iff dest: set_bt_insert)
qed

lemma fold_load_identity:
  "fold_r (load_identity ws) t reg = Inr reg' \<Longrightarrow> identities_ok reg \<Longrightarrow>
     identities_ok reg' \<and> (\<forall>j. j \<in> set (bt_keys t) \<or> bt_get reg j \<noteq> None \<longrightarrow> bt_get reg' j \<noteq> None)"
proof (induction t arbitrary: reg)
  case Nil
  then show ?case by (simp add: bt_keys_def)
next
  case (Cons e t)
  then obtain reg1 where 1: "load_identity ws e reg = Inr reg1" and 2: "fold_r (load_identity ws) t reg1 = Inr reg'"
    by (auto simp: bind_r_Inr_iff)
  show ?case using load_identity_ok [OF 1 Cons.prems(2)] Cons.IH [OF 2] by (auto simp: bt_keys_def)
qed

text \<open>
  No entry of \<open>[identities]\<close> is dropped silently: either loading fails, or every issuer of
  the table is in the registry, under its own name, with one of the three known sources and a
  non-empty list of algorithms.
\<close>

theorem load_identities_total:
  assumes "load_identities parse_toml ws (Some text) = Inr reg" and "parse_toml text = Some v"
    and "Option.bind (toml_get v ''identities'') as_table = Some t"
  shows "identities_ok reg \<and> (\<forall>j\<in>set (bt_keys t). bt_get reg j \<noteq> None)"
  using assms fold_load_identity [of ws t "[]" reg]
  by (auto simp: load_identities_def identities_ok_def)

theorem load_identities_total_witness:
  "bt_get [(''https://i'', \<lparr>ip_issuer = ''https://i'', ip_source = ''oidc'', ip_jwks_file = ''/w/k.json'',
       ip_audiences = [], ip_algorithms = default_algorithms\<rparr>)] ''https://i'' \<noteq> None"
proof -
  let ?t = "[(''https://i'', TTable [(''jwks_file'', TString ''k.json'')])]"
  let ?v = "TTable [(''identities'', TTable ?t)]"
  have t: "Option.bind (toml_get ?v ''identities'') as_table = Some ?t"
    by (simp add: toml_get_def as_table_def bt_get_def)
  have l: "load_identities (\<lambda>_. Some ?v) ''/w'' (Some []) =
      Inr [(''https://i'', \<lparr>ip_issuer = ''https://i'', ip_source = ''oidc'', ip_jwks_file = ''/w/k.json'',
       ip_audiences = [], ip_algorithms = default_algorithms\<rparr>)]"
    by code_simp
  show ?thesis using load_identities_total [OF l refl t] by (simp add: bt_keys_def)
qed

subsection \<open>Who is verified\<close>

lemma try_providers_Inr:
  "try_providers jw rf tok h is ps = Inr a \<Longrightarrow>
     \<exists>p\<in>set ps. \<exists>sub. try_provider jw rf tok h p = Some sub \<and> actor_of p sub = Inr a"
  by (induction ps) (auto split: option.splits)

text \<open>
  C19. Only a pinned issuer verifies anybody: an actor comes out of \<open>verify_token\<close> only if some
  issuer of the registry allows the token's algorithm, its pinned key set holds the key the
  token names (or is a single key, when it names none), and the token decodes under that key
  for that issuer; the actor is the verified identity of that issuer's subject.
\<close>

theorem verify_token_trusted:
  assumes "verify_token jw read_file tok reg = Inr a"
  shows "is_verified a \<and> (\<exists>p\<in>snd ` set reg. \<exists>h text keys jwk key sub.
    jw_header jw tok = Some h \<and> jh_alg h \<in> set (ip_algorithms p) \<and>
    read_file (ip_jwks_file p) = Some text \<and> jw_keys jw text = Some keys \<and>
    jwk \<in> snd ` set keys \<and> (jh_kid h = None \<longrightarrow> length keys = 1) \<and>
    (\<forall>i. jh_kid h = Some i \<longrightarrow> (Some i, jwk) \<in> set keys) \<and>
    jw_decoding_key jw jwk = Some key \<and>
    jw_decode jw tok key (jh_alg h) (ip_issuer p)
      (if ip_audiences p = [] then None else Some (ip_audiences p)) = Some sub \<and>
    actor_of p sub = Inr a)"
proof -
  obtain h where h: "jw_header jw tok = Some h"
    and tp: "try_providers jw read_file tok h (bt_keys reg) (map snd reg) = Inr a"
    using assms by (auto simp: verify_token_def bind_r_Inr_iff ok_or_Inr_iff split: if_splits)
  from try_providers_Inr [OF tp] obtain p sub where p: "p \<in> snd ` set reg"
    and t: "try_provider jw read_file tok h p = Some sub" and a: "actor_of p sub = Inr a"
    by auto
  obtain body keys jwk key where s: "jh_alg h \<in> set (ip_algorithms p)"
    "read_file (ip_jwks_file p) = Some body" "jw_keys jw body = Some keys"
    "select_key (jh_kid h) keys = Some jwk" "jw_decoding_key jw jwk = Some key"
    "jw_decode jw tok key (jh_alg h) (ip_issuer p)
      (if ip_audiences p = [] then None else Some (ip_audiences p)) = Some sub"
    using t by (auto simp: try_provider_def bind_eq_Some_conv split: if_splits)
  have k: "jwk \<in> snd ` set keys \<and> (jh_kid h = None \<longrightarrow> length keys = 1) \<and>
      (\<forall>i. jh_kid h = Some i \<longrightarrow> (Some i, jwk) \<in> set keys)"
  proof (cases "jh_kid h")
    case None
    then show ?thesis using s(4) by (auto simp: select_key_def split: list.splits)
  next
    case (Some i)
    then obtain k where "List.find (\<lambda>k. fst k = Some i) keys = Some k" "jwk = snd k"
      using s(4) by (auto simp: select_key_def)
    then have "(Some i, jwk) \<in> set keys" by (cases k) (auto dest!: find_Some_iff2)
    moreover from this have "jwk \<in> snd ` set keys" by (rule image_eqI [rotated]) simp
    ultimately show ?thesis using Some by simp
  qed
  have "is_verified a"
    using a by (auto simp: actor_of_def Let_def split: if_splits)
  then show ?thesis
    using h s a k
    by (intro conjI bexI [OF _ p] exI [of _ h] exI [of _ body] exI [of _ keys] exI [of _ jwk]
        exI [of _ key] exI [of _ sub]) simp_all
qed

definition demo_jwt :: "(nat, nat) jwt" where
  "demo_jwt =
     \<lparr>jw_header = (\<lambda>_. Some \<lparr>jh_alg = ''RS256'', jh_kid = None\<rparr>), jw_keys = (\<lambda>_. Some [(None, 1)]),
      jw_decoding_key = Some, jw_decode = (\<lambda>_ _ _ _ _. Some '' build-7 '')\<rparr>"

definition demo_identities :: identity_registry where
  "demo_identities =
     [(''https://i'', \<lparr>ip_issuer = ''https://i'', ip_source = ''oidc'', ip_jwks_file = ''/w/k.json'',
        ip_audiences = [], ip_algorithms = default_algorithms\<rparr>)]"

theorem verify_token_trusted_witness:
  "is_verified (verified_actor ''oidc:https://i#build-7'' ''oidc'')"
proof -
  have "verify_token demo_jwt (\<lambda>_. Some []) ''t'' demo_identities =
      Inr (verified_actor ''oidc:https://i#build-7'' ''oidc'')"
    by code_simp
  from verify_token_trusted [OF this] show ?thesis by blast
qed

text \<open>A subject of white space only is accepted, and is the empty name of its issuer.\<close>

theorem blank_subject_accepted:
  assumes "ip_source p = ''oidc''" and "trim sub = []"
  shows "actor_of p sub = Inr (verified_actor (''oidc:'' @ ip_issuer p @ ''#'') ''oidc'')"
  using assms by (simp add: actor_of_def Let_def)

end
