(* ===== verification/Journal.thy ===== *)
theory Journal
  imports Documents
begin

section \<open>The event journal (crates/uni-cli, events.rs)\<close>

text \<open>
  The files beside \<open>.uni/events.jsonl\<close> with their text, the rotation and retention of the
  journal, and appending and reading events. An event is turned into a JSON value and read back
  from one; the text of a JSON value (\<open>to_string\<close> and \<open>from_str\<close> of serde_json) is a parameter,
  and so is the time stamp of an archive.
\<close>

type_synonym journal_dir = "(string \<times> string) list"

record event =
  jn_name :: string
  jn_attrs :: "(string \<times> string) list"

text \<open>
  \<open>Event::to_json\<close>: the attributes are inserted into a sorted map, a later value of a key
  replacing an earlier one.
\<close>

definition attr_map :: "(string \<times> string) list \<Rightarrow> json btree" where
  "attr_map attrs = fold (\<lambda>(k, v). bt_insert k v) (map (\<lambda>(k, v). (k, JString v)) attrs) []"

definition event_value :: "event \<Rightarrow> string \<Rightarrow> json" where
  "event_value e ts =
     JObject [(''attributes'', JObject (attr_map (jn_attrs e))), (''event'', JString (jn_name e)),
              (''timestamp'', JString ts)]"

definition event_json :: "(json \<Rightarrow> string) \<Rightarrow> event \<Rightarrow> string \<Rightarrow> string" where
  "event_json to_string e ts = to_string (event_value e ts)"

record journal_event =
  je_event :: string
  je_timestamp :: string
  je_attributes :: "json btree"

text \<open>The derived deserialization: an object with the three fields, or an array of them.\<close>

definition decode_event :: "json \<Rightarrow> journal_event option" where
  "decode_event v =
     (case v of
        JObject m \<Rightarrow>
          (case (bt_get m ''event'', bt_get m ''timestamp'', bt_get m ''attributes'') of
             (Some (JString e), Some (JString t), Some (JObject a)) \<Rightarrow>
               Some \<lparr>je_event = e, je_timestamp = t, je_attributes = a\<rparr>
           | _ \<Rightarrow> None)
      | JArray [JString e, JString t, JObject a] \<Rightarrow>
          Some \<lparr>je_event = e, je_timestamp = t, je_attributes = a\<rparr>
      | _ \<Rightarrow> None)"

definition parse_event :: "(string \<Rightarrow> json option) \<Rightarrow> string \<Rightarrow> journal_event option" where
  "parse_event from_str line = Option.bind (from_str line) decode_event"

abbreviation live_name :: string where
  "live_name \<equiv> ''events.jsonl''"

abbreviation JOURNAL_MAX_BYTES :: nat where
  "JOURNAL_MAX_BYTES \<equiv> 1048576"

abbreviation KEEP_ARCHIVES :: nat where
  "KEEP_ARCHIVES \<equiv> 3"

definition is_archive :: "string \<Rightarrow> bool" where
  "is_archive name \<longleftrightarrow> name \<noteq> live_name \<and> starts_with ''events.'' name \<and> ends_with ''.jsonl'' name"

definition archives :: "journal_dir \<Rightarrow> string list" where
  "archives d = sort (filter is_archive (map fst d))"

definition remove_file :: "string \<Rightarrow> journal_dir \<Rightarrow> journal_dir" where
  "remove_file n d = filter (\<lambda>f. fst f \<noteq> n) d"

text \<open>\<open>rename\<close>: the target, if there was one, is replaced.\<close>

definition rename_file :: "string \<Rightarrow> string \<Rightarrow> journal_dir \<Rightarrow> journal_dir" where
  "rename_file a b d =
     (case map_of d a of None \<Rightarrow> d | Some text \<Rightarrow> (b, text) # remove_file a (remove_file b d))"

fun prune_loop :: "nat \<Rightarrow> string list \<Rightarrow> journal_dir \<Rightarrow> journal_dir" where
  "prune_loop keep [] d = d"
| "prune_loop keep (a # as) d =
     (if keep < length (a # as) then prune_loop keep as (remove_file a d) else d)"

definition prune_archives :: "nat \<Rightarrow> journal_dir \<Rightarrow> journal_dir" where
  "prune_archives keep d = prune_loop keep (archives d) d"

definition archive_name :: "string \<Rightarrow> string" where
  "archive_name stamp = ''events.'' @ stamp @ ''.jsonl''"

definition rotate_if_needed :: "nat \<Rightarrow> string \<Rightarrow> journal_dir \<Rightarrow> journal_dir" where
  "rotate_if_needed max_bytes stamp d =
     (case map_of d live_name of
        None \<Rightarrow> d
      | Some text \<Rightarrow>
          if utf8_len text \<le> max_bytes then d
          else prune_archives KEEP_ARCHIVES (rename_file live_name (archive_name stamp) d))"

definition append_text :: "string \<Rightarrow> journal_dir \<Rightarrow> journal_dir" where
  "append_text text d =
     (case map_of d live_name of
        None \<Rightarrow> d @ [(live_name, text)]
      | Some _ \<Rightarrow> map (\<lambda>(n, t). if n = live_name then (n, t @ text) else (n, t)) d)"

definition append_events ::
  "(json \<Rightarrow> string) \<Rightarrow> string \<Rightarrow> string \<Rightarrow> event list \<Rightarrow> journal_dir \<Rightarrow> journal_dir" where
  "append_events to_string stamp ts evs d =
     append_text (concat (map (\<lambda>e. event_json to_string e ts @ [nl]) evs)) (rotate_if_needed JOURNAL_MAX_BYTES stamp d)"

definition read_events :: "(string \<Rightarrow> json option) \<Rightarrow> journal_dir \<Rightarrow> string \<Rightarrow> journal_event list" where
  "read_events from_str d name =
     (case map_of d name of
        None \<Rightarrow> []
      | Some text \<Rightarrow> List.map_filter (parse_event from_str) (filter (\<lambda>l. trim l \<noteq> []) (lines text)))"

definition read_all :: "(string \<Rightarrow> json option) \<Rightarrow> journal_dir \<Rightarrow> journal_event list" where
  "read_all from_str d = read_events from_str d live_name"

definition read_all_including_archives :: "(string \<Rightarrow> json option) \<Rightarrow> journal_dir \<Rightarrow> journal_event list" where
  "read_all_including_archives from_str d =
     concat (map (read_events from_str d) (archives d)) @ read_events from_str d live_name"

subsection \<open>Retention\<close>

lemma map_of_remove: "map_of (remove_file n d) m = (if m = n then None else map_of d m)"
  by (induction d) (auto simp: remove_file_def)

lemma prune_loop_eq:
  "prune_loop keep as d = filter (\<lambda>f. fst f \<notin> set (take (length as - keep) as)) d"
proof (induction keep as d rule: prune_loop.induct)
  case (1 keep d)
  then show ?case by simp
next
  case (2 keep a as d)
  show ?case
  proof (cases "keep < length (a # as)")
    case True
    then have "length (a # as) - keep = Suc (length as - keep)" by simp
    then show ?thesis
      using "2.IH" [OF True] True by (auto simp: remove_file_def intro: filter_cong)
  next
    case False
    then show ?thesis by simp
  qed
qed

lemma map_of_filter_keys: "map_of (filter (\<lambda>f. P (fst f)) d) n = (if P n then map_of d n else None)"
  by (induction d) auto

lemma prune_map_of:
  "map_of (prune_archives keep d) n =
     (if n \<in> set (take (length (archives d) - keep) (archives d)) then None else map_of d n)"
  unfolding prune_archives_def prune_loop_eq by (subst map_of_filter_keys) simp

lemma archives_mem: "n \<in> set (archives d) \<longleftrightarrow> n \<in> fst ` set d \<and> is_archive n"
  by (auto simp: archives_def)

lemma live_not_archive: "\<not> is_archive live_name"
  by (simp add: is_archive_def)

lemma archives_prune:
  assumes "distinct (map fst d)"
  shows "archives (prune_archives keep d) = drop (length (archives d) - keep) (archives d)"
proof -
  let ?as = "archives d" and ?k = "length (archives d) - keep"
  have d: "distinct ?as" using assms by (simp add: archives_def)
  have "archives (prune_archives keep d) = sort (filter is_archive (filter (\<lambda>n. n \<notin> set (take ?k ?as)) (map fst d)))"
    unfolding archives_def prune_archives_def prune_loop_eq by (simp add: filter_map o_def)
  also have "\<dots> = sort (filter (\<lambda>n. n \<notin> set (take ?k ?as)) (filter is_archive (map fst d)))"
    by (simp add: conj_commute)
  also have "\<dots> = filter (\<lambda>n. n \<notin> set (take ?k ?as)) ?as"
    by (simp add: archives_def filter_sort)
  also have "\<dots> = filter (\<lambda>n. n \<notin> set (take ?k ?as)) (take ?k ?as @ drop ?k ?as)"
    by simp
  also have "\<dots> = drop ?k ?as"
  proof -
    have "set (take ?k ?as) \<inter> set (drop ?k ?as) = {}"
      using d by (metis append_take_drop_id distinct_append)
    then have "filter (\<lambda>n. n \<notin> set (take ?k ?as)) (drop ?k ?as) = drop ?k ?as"
      by (auto simp: filter_id_conv)
    then show ?thesis by (simp del: append_take_drop_id)
  qed
  finally show ?thesis .
qed

text \<open>
  Retention keeps the newest archives and nothing else is touched: after pruning there
  are as many archives as before or the number to keep, whichever is less; they are the last
  ones in name order; the live journal and every file that is no archive are as they were.
\<close>

theorem prune_keeps_newest:
  assumes "distinct (map fst d)"
  shows "length (archives (prune_archives keep d)) = min keep (length (archives d)) \<and>
    (\<exists>dropped. archives d = dropped @ archives (prune_archives keep d)) \<and>
    (\<forall>n. \<not> is_archive n \<longrightarrow> map_of (prune_archives keep d) n = map_of d n)"
proof (intro conjI allI impI)
  show "length (archives (prune_archives keep d)) = min keep (length (archives d))"
    using assms by (simp add: archives_prune)
  show "\<exists>dropped. archives d = dropped @ archives (prune_archives keep d)"
    unfolding archives_prune [OF assms] by (metis append_take_drop_id)
  fix n
  assume "\<not> is_archive n"
  then have "n \<notin> set (archives d)" by (simp add: archives_mem)
  then show "map_of (prune_archives keep d) n = map_of d n"
    using in_set_takeD by (fastforce simp: prune_map_of)
qed

theorem prune_keeps_newest_witness:
  "map_of (prune_archives 1 [(''events.1.jsonl'', ''x''), (live_name, ''y''), (''events.2.jsonl'', ''z'')]) live_name = Some ''y''"
  using prune_keeps_newest [of "[(''events.1.jsonl'', ''x''), (live_name, ''y''), (''events.2.jsonl'', ''z'')]" 1]
    live_not_archive by simp

subsection \<open>Nothing that was written is lost by writing\<close>

lemma map_of_append_text:
  "map_of (append_text text d) n =
     (if n = live_name then Some ((case map_of d live_name of Some t \<Rightarrow> t | None \<Rightarrow> []) @ text) else map_of d n)"
proof -
  have m: "map_of (map (\<lambda>(n, t). if n = live_name then (n, t @ text) else (n, t)) xs) n =
      (if n = live_name then map_option (\<lambda>t. t @ text) (map_of xs n) else map_of xs n)" for xs
    by (induction xs) auto
  have a: "map_of (d @ [(live_name, text)]) n = (case map_of d n of Some t \<Rightarrow> Some t
      | None \<Rightarrow> if n = live_name then Some text else None)"
    by (auto simp: map_add_def split: option.splits)
  show ?thesis
  proof (cases "map_of d live_name")
    case None
    then show ?thesis using a by (auto simp: append_text_def split: option.splits)
  next
    case (Some t)
    then show ?thesis using m [of d] by (auto simp: append_text_def)
  qed
qed

lemma archive_name_is_archive: "is_archive (archive_name stamp)"
proof -
  have "archive_name stamp \<noteq> live_name"
  proof
    assume "archive_name stamp = live_name"
    then have "length (archive_name stamp) = length live_name" by simp
    then show False by (simp add: archive_name_def)
  qed
  moreover have "ends_with ''.jsonl'' (archive_name stamp)"
    by (auto simp: archive_name_def ends_with_def starts_with_iff)
  ultimately show ?thesis
    by (auto simp: is_archive_def archive_name_def starts_with_iff)
qed

lemma map_of_rename:
  "map_of d a = Some text \<Longrightarrow> a \<noteq> b \<Longrightarrow>
     map_of (rename_file a b d) n = (if n = b then Some text else if n = a then None else map_of d n)"
  by (simp add: rename_file_def map_of_remove)

lemma archives_rename:
  assumes "map_of d live_name = Some text" and "\<forall>a\<in>set (archives d). a < b" and "is_archive b"
  shows "archives (rename_file live_name b d) = archives d @ [b]"
proof -
  have nb: "b \<notin> fst ` set d" using assms(2,3) archives_mem [of b d] by fastforce
  have "filter is_archive (map fst (remove_file live_name (remove_file b d))) = filter is_archive (map fst d)"
    using nb live_not_archive
    by (auto simp: remove_file_def filter_map o_def image_iff intro!: arg_cong [where f = "map fst"] filter_cong)
  then have "archives (rename_file live_name b d) = insort b (archives d)"
    using assms(1,3) by (simp add: archives_def rename_file_def sort_key_simps)
  also have "\<dots> = archives d @ [b]"
    using assms(2) by (intro sorted_insort_is_snoc) (auto simp: archives_def less_imp_le)
  finally show ?thesis .
qed

lemma prune_keeps_last:
  assumes "archives d = as @ [b]" and "b \<notin> set as" and "0 < keep"
  shows "map_of (prune_archives keep d) b = map_of d b"
proof -
  have "take (length (archives d) - keep) (archives d) = take (length (archives d) - keep) as"
    using assms(1,3) by simp
  then have "b \<notin> set (take (length (archives d) - keep) (archives d))"
    using assms(2) in_set_takeD by fastforce
  then show ?thesis by (simp add: prune_map_of)
qed

lemma rotate_map_of:
  assumes "map_of d live_name = Some t" and "\<not> utf8_len t \<le> m" and "\<forall>a\<in>set (archives d). a < archive_name stamp"
  shows "map_of (rotate_if_needed m stamp d) live_name = None"
    and "map_of (rotate_if_needed m stamp d) (archive_name stamp) = Some t"
proof -
  have ne: "live_name \<noteq> archive_name stamp"
    using archive_name_is_archive [of stamp] live_not_archive by metis
  have a: "archives (rename_file live_name (archive_name stamp) d) = archives d @ [archive_name stamp]"
    using archives_rename [OF assms(1,3) archive_name_is_archive] .
  have "archive_name stamp \<notin> set (archives d)" using assms(3) by blast
  then show "map_of (rotate_if_needed m stamp d) (archive_name stamp) = Some t"
    using assms(1,2) prune_keeps_last [OF a] map_of_rename [OF assms(1) ne]
    by (simp add: rotate_if_needed_def)
  show "map_of (rotate_if_needed m stamp d) live_name = None"
    using assms(1,2) map_of_rename [OF assms(1) ne] ne
    by (simp add: rotate_if_needed_def prune_map_of)
qed

definition event_text :: "(json \<Rightarrow> string) \<Rightarrow> string \<Rightarrow> event list \<Rightarrow> string" where
  "event_text to_string ts evs = concat (map (\<lambda>e. event_json to_string e ts @ [nl]) evs)"

text \<open>
  C38. Appending loses nothing: the new events are at the end of the live journal, after its
  old text, or, when the old text had outgrown the limit, alone in it, the old text then being
  the archive of this rotation, which the retention keeps. This needs the stamp to be later
  than those of the archives.
\<close>

theorem append_loses_nothing:
  assumes "\<forall>a\<in>set (archives d). a < archive_name stamp" and "map_of d live_name = Some t"
  shows "(if utf8_len t \<le> JOURNAL_MAX_BYTES
          then map_of (append_events to_string stamp ts evs d) live_name = Some (t @ event_text to_string ts evs)
          else map_of (append_events to_string stamp ts evs d) live_name = Some (event_text to_string ts evs) \<and>
               map_of (append_events to_string stamp ts evs d) (archive_name stamp) = Some t)"
proof (cases "utf8_len t \<le> JOURNAL_MAX_BYTES")
  case True
  then show ?thesis
    using assms(2) by (simp add: append_events_def map_of_append_text rotate_if_needed_def event_text_def)
next
  case False
  have ne: "archive_name stamp \<noteq> live_name"
    using archive_name_is_archive [of stamp] live_not_archive by metis
  show ?thesis
    using False rotate_map_of [OF assms(2) False assms(1)] ne
    by (simp add: append_events_def map_of_append_text event_text_def)
qed

definition new_event :: event where
  "new_event = \<lparr>jn_name = ''new'', jn_attrs = [(''k'', ''v'')]\<rparr>"

theorem append_loses_nothing_witness:
  "map_of (append_events (\<lambda>_. ''new'') ''3'' [] [new_event] [(live_name, [])]) live_name = Some (''new'' @ [nl])"
  using append_loses_nothing [of "[(live_name, [])]" "''3''" "[]" "\<lambda>_. ''new''" "[]" "[new_event]"]
  by (simp add: event_text_def event_json_def utf8_len_def archives_def live_not_archive)

text \<open>
  Two rotations with one stamp, which has the granularity of a second, share the archive: the
  second one replaces the text the first one archived.
\<close>

theorem same_stamp_overwrites:
  assumes "map_of d live_name = Some t" and "map_of d (archive_name stamp) = Some old"
  shows "map_of (rename_file live_name (archive_name stamp) d) (archive_name stamp) = Some t"
proof -
  have "live_name \<noteq> archive_name stamp"
    using archive_name_is_archive [of stamp] live_not_archive by metis
  then show ?thesis using map_of_rename [OF assms(1)] by simp
qed

subsection \<open>Reading back\<close>

lemma lines_acc_append:
  "lines_acc acc (a @ nl # b) = lines_acc acc (a @ [nl]) @ lines_acc [] b"
  by (induction a arbitrary: acc) auto

definition terminated :: "string \<Rightarrow> bool" where
  "terminated s \<longleftrightarrow> s = [] \<or> last s = nl"

lemma lines_append: "terminated a \<Longrightarrow> lines (a @ b) = lines a @ lines b"
proof (cases a rule: rev_cases)
  case Nil
  then show ?thesis by simp
next
  case (snoc xs x)
  moreover assume "terminated a"
  ultimately show ?thesis using lines_acc_append [of "[]" xs b] by (simp add: terminated_def lines_def)
qed

lemma lines_event_text:
  assumes "\<And>e. e \<in> set evs \<Longrightarrow> nl \<notin> set (event_json to_string e ts) \<and> cr \<notin> set (event_json to_string e ts)"
  shows "lines (event_text to_string ts evs) = map (\<lambda>e. event_json to_string e ts) evs"
  using assms
proof (induction evs)
  case Nil
  then show ?case by (simp add: event_text_def)
next
  case (Cons e evs)
  then show ?case
    using lines_Cons [of "event_json to_string e ts" "event_text to_string ts evs"] by (simp add: event_text_def)
qed

text \<open>The attributes a read event has: those of the last value of each key.\<close>

lemma attr_map_get: "bt_get (attr_map attrs) k = map_option JString (map_of (rev attrs) k)"
proof -
  have "map_of (rev (map (\<lambda>(k, v). (k, JString v)) attrs)) k = map_option JString (map_of (rev attrs) k)"
    by (simp add: rev_map map_of_map comp_def)
  then show ?thesis
    by (simp add: attr_map_def bt.get_fold_ins split: option.split)
qed

lemma attr_map_ok: "bt_ok (attr_map attrs)"
  unfolding attr_map_def by (rule bt.ok_fold_ins) simp

definition read_back :: "string \<Rightarrow> event \<Rightarrow> journal_event" where
  "read_back ts e = \<lparr>je_event = jn_name e, je_timestamp = ts, je_attributes = attr_map (jn_attrs e)\<rparr>"

lemma decode_event_value: "decode_event (event_value e ts) = Some (read_back ts e)"
  by (simp add: decode_event_def event_value_def bt_get_def read_back_def)



end
