(* ===== verification/Lock.thy ===== *)
theory Lock
  imports Prelude
begin

section \<open>The directory lock (crates/uni-evidence, DirLock)\<close>

text \<open>
  The lock file and the processes that take it, as a step relation whose steps are the file
  operations of \<open>acquire_lock_with\<close> and of the drop of a \<open>DirLock\<close>: creating the file with
  \<open>create_new\<close> (atomic), reading its age, removing it when it is stale, giving up, removing
  it on drop. Other processes may act between any two of them. The time is in seconds.

  Two flags say what the environment does: \<open>slow\<close> lets a holder keep the lock for longer than
  \<open>STALE_AFTER\<close>, \<open>crash\<close> lets a holder die without dropping it.
\<close>

abbreviation STALE_AFTER :: nat where
  "STALE_AFTER \<equiv> 600"

abbreviation ACQUIRE_RETRIES :: nat where
  "ACQUIRE_RETRIES \<equiv> 100"

text \<open>Where a process is: the number is that of the attempts it has left.\<close>

datatype pc =
    Outside
  | Trying nat
  | Found nat
  | Reaping nat
  | Holding
  | GaveUp
  | Dead

record lstate =
  lk_file :: "nat option"
  lk_now :: nat
  lk_pc :: "nat \<Rightarrow> pc"

definition set_pc :: "nat \<Rightarrow> pc \<Rightarrow> lstate \<Rightarrow> lstate" where
  "set_pc p c s = s\<lparr>lk_pc := (lk_pc s)(p := c)\<rparr>"

definition is_stale_lock :: "nat \<Rightarrow> lstate \<Rightarrow> bool" where
  "is_stale_lock t s \<longleftrightarrow> STALE_AFTER < lk_now s - t"

text \<open>No holder's lock file would be stale one second from now.\<close>

definition timely :: "lstate \<Rightarrow> bool" where
  "timely s \<longleftrightarrow> (\<forall>p t. lk_pc s p = Holding \<longrightarrow> lk_file s = Some t \<longrightarrow> lk_now s + 1 - t \<le> STALE_AFTER)"

inductive lock_step :: "bool \<Rightarrow> bool \<Rightarrow> lstate \<Rightarrow> lstate \<Rightarrow> bool" for slow crash where
  acquire: "lk_pc s p = Outside \<Longrightarrow> lock_step slow crash s (set_pc p (Trying (max retries 1)) s)"
| create: "lk_pc s p = Trying (Suc n) \<Longrightarrow> lk_file s = None \<Longrightarrow>
    lock_step slow crash s (set_pc p Holding (s\<lparr>lk_file := Some (lk_now s)\<rparr>))"
| exists: "lk_pc s p = Trying (Suc n) \<Longrightarrow> lk_file s = Some t \<Longrightarrow>
    lock_step slow crash s (set_pc p (Found n) s)"
| probe_gone: "lk_pc s p = Found n \<Longrightarrow> lk_file s = None \<Longrightarrow>
    lock_step slow crash s (set_pc p (Trying n) s)"
| probe_fresh: "lk_pc s p = Found n \<Longrightarrow> lk_file s = Some t \<Longrightarrow> \<not> is_stale_lock t s \<Longrightarrow>
    lock_step slow crash s (set_pc p (Trying n) s)"
| probe_stale: "lk_pc s p = Found n \<Longrightarrow> lk_file s = Some t \<Longrightarrow> is_stale_lock t s \<Longrightarrow>
    lock_step slow crash s (set_pc p (Reaping n) s)"
| reap: "lk_pc s p = Reaping n \<Longrightarrow>
    lock_step slow crash s (set_pc p (Trying n) (s\<lparr>lk_file := None\<rparr>))"
| give_up: "lk_pc s p = Trying 0 \<Longrightarrow> lock_step slow crash s (set_pc p GaveUp s)"
| release: "lk_pc s p = Holding \<Longrightarrow>
    lock_step slow crash s (set_pc p Outside (s\<lparr>lk_file := None\<rparr>))"
| die: "crash \<Longrightarrow> lk_pc s p = Holding \<Longrightarrow> lock_step slow crash s (set_pc p Dead s)"
| tick: "slow \<or> timely s \<Longrightarrow> lock_step slow crash s (s\<lparr>lk_now := lk_now s + 1\<rparr>)"

inductive_cases lock_stepE: "lock_step slow crash s t"

definition lock_start :: "lstate \<Rightarrow> bool" where
  "lock_start s \<longleftrightarrow> lk_file s = None \<and> (\<forall>p. lk_pc s p = Outside)"

definition exclusive :: "lstate \<Rightarrow> bool" where
  "exclusive s \<longleftrightarrow> (\<forall>p q. lk_pc s p = Holding \<longrightarrow> lk_pc s q = Holding \<longrightarrow> p = q)"

definition lock_inv :: "lstate \<Rightarrow> bool" where
  "lock_inv s \<longleftrightarrow> exclusive s \<and>
     (\<forall>t. lk_file s = Some t \<longrightarrow> lk_now s - t \<le> STALE_AFTER \<and> (\<exists>p. lk_pc s p = Holding)) \<and>
     (\<forall>p. lk_pc s p = Holding \<longrightarrow> lk_file s \<noteq> None) \<and> (\<forall>p n. lk_pc s p \<noteq> Reaping n)"

lemma set_pc_simps [simp]:
  "lk_pc (set_pc p c s) = (lk_pc s)(p := c)" "lk_file (set_pc p c s) = lk_file s"
  "lk_now (set_pc p c s) = lk_now s"
  by (simp_all add: set_pc_def)

text \<open>A process that moves without holding changes nothing for the others.\<close>

lemma lock_inv_set_pc:
  assumes "lock_inv s" and "lk_pc s p \<noteq> Holding" and "c \<noteq> Holding" and "\<And>n. c \<noteq> Reaping n"
  shows "lock_inv (set_pc p c s)"
  unfolding lock_inv_def
proof (intro conjI allI impI)
  show "exclusive (set_pc p c s)"
    using assms(1,3) by (auto simp: lock_inv_def exclusive_def)
  fix t
  assume f: "lk_file (set_pc p c s) = Some t"
  then show "lk_now (set_pc p c s) - t \<le> STALE_AFTER" using assms(1) by (simp add: lock_inv_def)
  obtain q where "lk_pc s q = Holding" using assms(1) f by (auto simp: lock_inv_def)
  then show "\<exists>q. lk_pc (set_pc p c s) q = Holding" using assms(2) by (intro exI [of _ q]) auto
next
  fix q
  assume "lk_pc (set_pc p c s) q = Holding"
  then show "lk_file (set_pc p c s) \<noteq> None"
    using assms(1,3) by (auto simp: lock_inv_def split: if_splits)
next
  fix q n
  show "lk_pc (set_pc p c s) q \<noteq> Reaping n" using assms(1,4) by (auto simp: lock_inv_def)
qed

lemma lock_inv_create:
  "lock_inv s \<Longrightarrow> lk_file s = None \<Longrightarrow> lock_inv (set_pc p Holding (s\<lparr>lk_file := Some (lk_now s)\<rparr>))"
  by (auto simp: lock_inv_def exclusive_def)

lemma lock_inv_release:
  "lock_inv s \<Longrightarrow> lk_pc s p = Holding \<Longrightarrow> lock_inv (set_pc p Outside (s\<lparr>lk_file := None\<rparr>))"
  by (auto simp: lock_inv_def exclusive_def)

lemma lock_inv_tick: "lock_inv s \<Longrightarrow> timely s \<Longrightarrow> lock_inv (s\<lparr>lk_now := Suc (lk_now s)\<rparr>)"
  by (fastforce simp: lock_inv_def exclusive_def timely_def)

lemma lock_inv_fresh: "lock_inv s \<Longrightarrow> lk_file s = Some t \<Longrightarrow> \<not> is_stale_lock t s"
  by (auto simp: lock_inv_def is_stale_lock_def)

lemma lock_inv_no_reaping: "lock_inv s \<Longrightarrow> lk_pc s p \<noteq> Reaping n"
  by (simp add: lock_inv_def)

lemma lock_inv_move:
  assumes "lock_inv s" and "lock_step False False s t"
  shows "lock_inv t"
  using assms(2)
proof (cases rule: lock_step.cases)
  case (probe_stale p n f)
  then show ?thesis using lock_inv_fresh [OF assms(1)] by blast
next
  case (reap p n)
  then show ?thesis using lock_inv_no_reaping [OF assms(1)] by blast
qed (auto intro: lock_inv_set_pc lock_inv_create lock_inv_release lock_inv_tick assms(1))

lemma lock_inv_start: "lock_start s \<Longrightarrow> lock_inv s"
  by (simp add: lock_start_def lock_inv_def exclusive_def)

interpretation lock: transition_system lock_start "lock_step False False" lock_inv
  by unfold_locales (simp add: lock_inv_start, erule (1) lock_inv_move)


definition idle :: "nat \<Rightarrow> lstate" where
  "idle now = \<lparr>lk_file = None, lk_now = now, lk_pc = (\<lambda>_. Outside)\<rparr>"

lemma lock_start_idle: "lock_start (idle n)"
  by (simp add: lock_start_def idle_def)


subsection \<open>What a crash does\<close>

text \<open>
  The age is read in one operation and the file is removed in another, so a process that saw
  the stale lock of a dead holder removes whatever lock is there when it comes to it.
\<close>

definition race_start :: lstate where
  "race_start = \<lparr>lk_file = Some 0, lk_now = 601, lk_pc = (\<lambda>p. if p = 0 then Dead else Outside)\<rparr>"

lemma ticks:
  "(lock_step slow True)\<^sup>*\<^sup>* s (s\<lparr>lk_now := lk_now s + k\<rparr>)"
  if "\<forall>p. lk_pc s p \<noteq> Holding" for slow
proof (induction k)
  case 0
  then show ?case by simp
next
  case (Suc k)
  let ?t = "s\<lparr>lk_now := lk_now s + k\<rparr>"
  have "timely ?t" using that by (simp add: timely_def)
  then have "lock_step slow True ?t (?t\<lparr>lk_now := lk_now ?t + 1\<rparr>)" by (intro lock_step.tick) simp
  then show ?case using Suc.IH by simp
qed

lemma race_start_reachable: "(lock_step False True)\<^sup>*\<^sup>* (idle 0) race_start"
proof -
  let ?a = "set_pc 0 (Trying 1) (idle 0)"
  let ?b = "set_pc 0 Holding (?a\<lparr>lk_file := Some 0\<rparr>)"
  let ?c = "set_pc 0 Dead ?b"
  have 1: "lock_step False True (idle 0) ?a"
    using lock_step.acquire [of "idle 0" 0 False True 1] by (simp add: idle_def)
  have 2: "lock_step False True ?a ?b"
    using lock_step.create [of ?a 0 0 False True] by (simp add: idle_def)
  have 3: "lock_step False True ?b ?c" by (rule lock_step.die) simp_all
  have "(lock_step False True)\<^sup>*\<^sup>* ?c (?c\<lparr>lk_now := lk_now ?c + 601\<rparr>)"
    by (rule ticks) (simp add: idle_def)
  moreover have "?c\<lparr>lk_now := lk_now ?c + 601\<rparr> = race_start"
    by (simp add: race_start_def idle_def set_pc_def fun_eq_iff)
  ultimately show ?thesis using 1 2 3 by (metis converse_rtranclp_into_rtranclp)
qed

lemma reach_stale:
  assumes "lk_pc s p = Outside" and "lk_file s = Some f" and "is_stale_lock f s"
  shows "(lock_step slow crash)\<^sup>*\<^sup>* s (set_pc p (Reaping 1) s)"
proof -
  have 1: "lock_step slow crash s (set_pc p (Trying 2) s)"
    using lock_step.acquire [OF assms(1), of slow crash 2] by (simp add: eval_nat_numeral)
  have 2: "lock_step slow crash (set_pc p (Trying 2) s) (set_pc p (Found 1) (set_pc p (Trying 2) s))"
    using assms(2) by (intro lock_step.exists) simp_all
  have 3: "lock_step slow crash (set_pc p (Found 1) (set_pc p (Trying 2) s))
      (set_pc p (Reaping 1) (set_pc p (Found 1) (set_pc p (Trying 2) s)))"
    using assms(2,3) by (intro lock_step.probe_stale [where t = f]) (simp_all add: is_stale_lock_def)
  have "set_pc p (Reaping 1) (set_pc p (Found 1) (set_pc p (Trying 2) s)) = set_pc p (Reaping 1) s"
    by (simp add: set_pc_def)
  then show ?thesis using 1 2 3 by (metis converse_rtranclp_into_rtranclp r_into_rtranclp)
qed

lemma reap_and_hold:
  assumes "lk_pc s p = Reaping 1"
  shows "(lock_step slow crash)\<^sup>*\<^sup>* s (set_pc p Holding (s\<lparr>lk_file := Some (lk_now s)\<rparr>))"
proof -
  let ?a = "set_pc p (Trying 1) (s\<lparr>lk_file := None\<rparr>)"
  let ?b = "set_pc p Holding (?a\<lparr>lk_file := Some (lk_now ?a)\<rparr>)"
  have 1: "lock_step slow crash s ?a" by (rule lock_step.reap) (rule assms)
  have 2: "lock_step slow crash ?a ?b" by (rule lock_step.create [where n = 0]) simp_all
  have "?b = set_pc p Holding (s\<lparr>lk_file := Some (lk_now s)\<rparr>)" by (simp add: set_pc_def)
  then show ?thesis using 1 2 by (metis converse_rtranclp_into_rtranclp r_into_rtranclp)
qed

text \<open>
  After a crash the exclusion can be lost although every holder is quick: from the initial
  state a run with one crash and timely holders reaches a state in which two processes hold
  the lock, both having seen the same stale lock before either removed it.
\<close>

theorem lock_race_after_crash:
  "\<exists>s t. lock_start s \<and> (lock_step False True)\<^sup>*\<^sup>* s t \<and> \<not> exclusive t"
proof -
  let ?s1 = "set_pc 1 (Reaping 1) race_start"
  let ?s2 = "set_pc 2 (Reaping 1) ?s1"
  let ?s3 = "set_pc 1 Holding (?s2\<lparr>lk_file := Some (lk_now ?s2)\<rparr>)"
  let ?s4 = "set_pc 2 Holding (?s3\<lparr>lk_file := Some (lk_now ?s3)\<rparr>)"
  have st: "lk_file race_start = Some 0" "is_stale_lock 0 race_start"
    by (simp_all add: race_start_def is_stale_lock_def)
  have 1: "(lock_step False True)\<^sup>*\<^sup>* race_start ?s1"
    by (rule reach_stale [where f = 0]) (simp_all add: race_start_def is_stale_lock_def)
  have 2: "(lock_step False True)\<^sup>*\<^sup>* ?s1 ?s2"
    by (rule reach_stale [where f = 0]) (simp_all add: race_start_def is_stale_lock_def)
  have 3: "(lock_step False True)\<^sup>*\<^sup>* ?s2 ?s3" by (rule reap_and_hold) simp
  have 4: "(lock_step False True)\<^sup>*\<^sup>* ?s3 ?s4" by (rule reap_and_hold) simp
  have "(lock_step False True)\<^sup>*\<^sup>* (idle 0) ?s4"
    using race_start_reachable 1 2 3 4 by (meson rtranclp_trans)
  moreover have "lk_pc ?s4 1 = Holding" "lk_pc ?s4 2 = Holding" by simp_all
  then have "\<not> exclusive ?s4"
    unfolding exclusive_def by (intro notI) (drule spec [of _ 1], drule spec [of _ 2], simp)
  ultimately show ?thesis using lock_start_idle by blast
qed

end
