(* ===== verification/Lock_Progress.thy ===== *)
theory Lock_Progress
  imports Lock
begin

section \<open>Taking the lock ends (crates/uni-evidence, DirLock)\<close>

text \<open>
  The attempts of a process are counted down whatever the others do, and a process that is
  trying can always take its next step, so its loop ends: with the lock or by giving up.
\<close>

definition acquiring :: "pc \<Rightarrow> bool" where
  "acquiring c \<longleftrightarrow> (case c of Trying _ \<Rightarrow> True | Found _ \<Rightarrow> True | Reaping _ \<Rightarrow> True | _ \<Rightarrow> False)"

text \<open>The steps a process can still take before it holds the lock or gives up.\<close>

definition effort :: "pc \<Rightarrow> nat" where
  "effort c = (case c of Trying n \<Rightarrow> 3 * n + 1 | Found n \<Rightarrow> 3 * n + 3 | Reaping n \<Rightarrow> 3 * n + 2 | _ \<Rightarrow> 0)"

lemma acquiring_simps [simp]:
  "acquiring (Trying n)" "acquiring (Found n)" "acquiring (Reaping n)" "\<not> acquiring Outside"
  "\<not> acquiring Holding" "\<not> acquiring GaveUp" "\<not> acquiring Dead"
  by (simp_all add: acquiring_def)

lemma effort_simps [simp]:
  "effort (Trying n) = 3 * n + 1" "effort (Found n) = 3 * n + 3" "effort (Reaping n) = 3 * n + 2"
  "effort Outside = 0" "effort Holding = 0" "effort GaveUp = 0" "effort Dead = 0"
  by (simp_all add: effort_def)

lemma effort_pos: "acquiring c \<Longrightarrow> 0 < effort c"
  by (cases c) simp_all

text \<open>What a step of the system does to one process that is acquiring.\<close>

lemma acquiring_step:
  assumes "lock_step slow crash s t" and "acquiring (lk_pc s p)" and "lk_pc t p \<noteq> lk_pc s p"
  shows "effort (lk_pc t p) < effort (lk_pc s p) \<and>
    (acquiring (lk_pc t p) \<or> lk_pc t p = Holding \<or> lk_pc t p = GaveUp)"
  using assms by (cases rule: lock_step.cases) (auto split: if_splits)

lemma acquiring_enabled:
  assumes "acquiring (lk_pc s p)"
  obtains t where "lock_step slow crash s t" and "lk_pc t p \<noteq> lk_pc s p"
    and "\<And>q. q \<noteq> p \<Longrightarrow> lk_pc t q = lk_pc s q"
proof (cases "lk_pc s p")
  case (Trying n)
  show ?thesis
  proof (cases n)
    case 0
    show ?thesis
      by (rule that [OF lock_step.give_up [of s p]]) (simp_all add: Trying 0)
  next
    case (Suc m)
    show ?thesis
    proof (cases "lk_file s")
      case None
      show ?thesis
        by (rule that [OF lock_step.create [of s p m]]) (simp_all add: Trying Suc None)
    next
      case (Some f)
      show ?thesis
        by (rule that [OF lock_step.exists [of s p m f]]) (simp_all add: Trying Suc Some)
    qed
  qed
next
  case (Found n)
  show ?thesis
  proof (cases "lk_file s")
    case None
    show ?thesis by (rule that [OF lock_step.probe_gone [of s p n]]) (simp_all add: Found None)
  next
    case (Some f)
    show ?thesis
    proof (cases "is_stale_lock f s")
      case True
      show ?thesis
        by (rule that [OF lock_step.probe_stale [of s p n f]]) (simp_all add: Found Some True)
    next
      case False
      show ?thesis
        by (rule that [OF lock_step.probe_fresh [of s p n f]]) (simp_all add: Found Some False)
    qed
  qed
next
  case (Reaping n)
  show ?thesis by (rule that [OF lock_step.reap [of s p n]]) (simp_all add: Reaping)
qed (use assms in simp_all)

text \<open>
  C30. The loop of \<open>acquire_lock_with\<close> terminates: whoever moves, holders that crash or stay too
  long included, a process that is acquiring either stays where it is or comes closer to the
  end of its attempts, it leaves the loop only with the lock or by giving up, and it is never
  blocked: it can take its next step by itself, in every state of the lock file.
\<close>

theorem lock_attempt_progress:
  assumes "lock_step slow crash s t" and "acquiring (lk_pc s p)"
  shows "(lk_pc t p = lk_pc s p \<or>
      effort (lk_pc t p) < effort (lk_pc s p) \<and>
      (acquiring (lk_pc t p) \<or> lk_pc t p = Holding \<or> lk_pc t p = GaveUp)) \<and>
    (\<exists>u. lock_step slow crash s u \<and> effort (lk_pc u p) < effort (lk_pc s p) \<and>
       (\<forall>q. q \<noteq> p \<longrightarrow> lk_pc u q = lk_pc s q))"
proof -
  obtain u where u: "lock_step slow crash s u" "lk_pc u p \<noteq> lk_pc s p"
    and q: "\<forall>q. q \<noteq> p \<longrightarrow> lk_pc u q = lk_pc s q"
    using acquiring_enabled [OF assms(2)] by metis
  show ?thesis
    using acquiring_step [OF assms] acquiring_step [OF u(1) assms(2) u(2)] u(1) q by blast
qed

definition tries :: lstate where
  "tries = set_pc 0 (Trying 1) (idle 0)"

lemma tries_step: "lock_step True False tries (set_pc 0 Holding (tries\<lparr>lk_file := Some 0\<rparr>))"
  using lock_step.create [of tries 0 0 True False] by (simp add: tries_def idle_def)

theorem lock_attempt_progress_witness:
  "\<exists>u. lock_step True False tries u \<and> effort (lk_pc u 0) < 4"
  using lock_attempt_progress [OF tries_step, of 0] by (auto simp: tries_def)

subsection \<open>Fair runs\<close>

text \<open>A run, and the moves of one process in its first steps.\<close>

definition lock_run :: "bool \<Rightarrow> bool \<Rightarrow> (nat \<Rightarrow> lstate) \<Rightarrow> bool" where
  "lock_run slow crash f \<longleftrightarrow> (\<forall>i. lock_step slow crash (f i) (f (Suc i)))"

definition moves_at :: "nat \<Rightarrow> (nat \<Rightarrow> lstate) \<Rightarrow> nat \<Rightarrow> bool" where
  "moves_at p f i \<longleftrightarrow> lk_pc (f (Suc i)) p \<noteq> lk_pc (f i) p"

text \<open>The scheduler does not forget a process that is acquiring.\<close>

definition scheduled :: "nat \<Rightarrow> (nat \<Rightarrow> lstate) \<Rightarrow> bool" where
  "scheduled p f \<longleftrightarrow> (\<forall>i. acquiring (lk_pc (f i) p) \<longrightarrow> (\<exists>j\<ge>i. moves_at p f j))"

lemma stays: "lk_pc (f (i + k)) p = lk_pc (f i) p" if "\<And>j. i \<le> j \<Longrightarrow> j < i + k \<Longrightarrow> \<not> moves_at p f j"
  using that by (induction k) (auto simp: moves_at_def)

lemma first_move:
  assumes "scheduled p f" and "acquiring (lk_pc (f i) p)"
  obtains j where "i \<le> j" and "moves_at p f j" and "lk_pc (f j) p = lk_pc (f i) p"
    and "\<And>k. i \<le> k \<Longrightarrow> k < j \<Longrightarrow> \<not> moves_at p f k"
proof -
  let ?P = "\<lambda>j. i \<le> j \<and> moves_at p f j"
  have e: "\<exists>j. ?P j" using assms by (auto simp: scheduled_def)
  define j where "j = (LEAST j. ?P j)"
  have j: "i \<le> j" "moves_at p f j" using LeastI_ex [OF e] by (auto simp: j_def)
  have n: "\<not> moves_at p f k" if "i \<le> k" "k < j" for k
    using not_less_Least [of k ?P] that by (auto simp: j_def)
  have "lk_pc (f (i + (j - i))) p = lk_pc (f i) p" by (rule stays) (simp add: n)
  then show ?thesis using that j n by simp
qed

definition own_moves :: "nat \<Rightarrow> (nat \<Rightarrow> lstate) \<Rightarrow> nat \<Rightarrow> nat \<Rightarrow> nat" where
  "own_moves p f i k = card {j. i \<le> j \<and> j < k \<and> moves_at p f j}"

lemma own_moves_same [simp]: "own_moves p f k k = 0"
proof -
  have "{j. k \<le> j \<and> j < k \<and> moves_at p f j} = {}" by auto
  then show ?thesis by (simp add: own_moves_def)
qed

lemma own_moves_split:
  assumes "i \<le> j" and "j < k" and "moves_at p f j" and "\<And>l. i \<le> l \<Longrightarrow> l < j \<Longrightarrow> \<not> moves_at p f l"
  shows "own_moves p f i k = Suc (own_moves p f (Suc j) k)"
proof -
  have "{l. i \<le> l \<and> l < k \<and> moves_at p f l} = insert j {l. Suc j \<le> l \<and> l < k \<and> moves_at p f l}"
    using assms by (auto simp: Suc_le_eq) (metis linorder_neqE_nat)
  then show ?thesis by (simp add: own_moves_def)
qed

lemma attempt_from:
  assumes "lock_run slow crash f" and "scheduled p f" and "acquiring (lk_pc (f i) p)"
  shows "\<exists>k>i. (lk_pc (f k) p = Holding \<or> lk_pc (f k) p = GaveUp) \<and>
    own_moves p f i k \<le> effort (lk_pc (f i) p)"
  using assms(3)
proof (induction "effort (lk_pc (f i) p)" arbitrary: i rule: less_induct)
  case less
  obtain j where j: "i \<le> j" "moves_at p f j" "lk_pc (f j) p = lk_pc (f i) p"
    and n: "\<And>k. i \<le> k \<Longrightarrow> k < j \<Longrightarrow> \<not> moves_at p f k"
    using first_move [OF assms(2) less.prems] by blast
  have "lock_step slow crash (f j) (f (Suc j))" using assms(1) by (simp add: lock_run_def)
  from acquiring_step [OF this, of p] j(2,3) less.prems
  have d: "effort (lk_pc (f (Suc j)) p) < effort (lk_pc (f i) p)" and
    c: "acquiring (lk_pc (f (Suc j)) p) \<or> lk_pc (f (Suc j)) p = Holding \<or> lk_pc (f (Suc j)) p = GaveUp"
    by (auto simp: moves_at_def)
  show ?case
  proof (cases "acquiring (lk_pc (f (Suc j)) p)")
    case True
    obtain k where k: "Suc j < k" "lk_pc (f k) p = Holding \<or> lk_pc (f k) p = GaveUp"
      "own_moves p f (Suc j) k \<le> effort (lk_pc (f (Suc j)) p)"
      using less.hyps [OF d True] by blast
    have "own_moves p f i k \<le> effort (lk_pc (f i) p)"
      using own_moves_split [OF j(1) _ j(2) n, of k] k(1,3) d by simp
    then show ?thesis using k j(1) by (intro exI [of _ k]) simp
  next
    case False
    have "own_moves p f i (Suc j) \<le> effort (lk_pc (f i) p)"
      using own_moves_split [OF j(1) _ j(2) n, of "Suc j"] d by simp
    then show ?thesis using False c j(1) by (intro exI [of _ "Suc j"]) simp
  qed
qed

text \<open>
  C15. Every attempt to take the lock ends: in a run that does not forget the process, after
  \<open>acquire_lock_with\<close> started with \<open>n\<close> retries the process holds the lock or has given up
  after at most \<open>3 * n + 1\<close> operations of its own, however the other processes move, crash or
  keep the lock.
\<close>

theorem lock_attempt_ends:
  assumes "lock_run slow crash f" and "scheduled p f" and "lk_pc (f 0) p = Trying n"
  shows "\<exists>k. (lk_pc (f k) p = Holding \<or> lk_pc (f k) p = GaveUp) \<and> own_moves p f 0 k \<le> 3 * n + 1"
  using attempt_from [OF assms(1,2), of 0] assms(3) by auto

text \<open>A process that takes the free lock at once and keeps it.\<close>

definition holds :: lstate where
  "holds = set_pc 0 Holding (tries\<lparr>lk_file := Some 0\<rparr>)"

definition hold_run :: "nat \<Rightarrow> lstate" where
  "hold_run i = (case i of 0 \<Rightarrow> tries | Suc k \<Rightarrow> holds\<lparr>lk_now := k\<rparr>)"

theorem lock_attempt_ends_witness:
  "\<exists>k. (lk_pc (hold_run k) 0 = Holding \<or> lk_pc (hold_run k) 0 = GaveUp) \<and> own_moves 0 hold_run 0 k \<le> 4"
proof -
  have now: "holds\<lparr>lk_now := 0\<rparr> = holds" by (simp add: holds_def tries_def idle_def set_pc_def)
  have "lock_step True False (hold_run i) (hold_run (Suc i))" for i
  proof (cases i)
    case 0
    then show ?thesis using tries_step by (simp add: hold_run_def now holds_def [symmetric])
  next
    case (Suc k)
    then show ?thesis using lock_step.tick [of True "holds\<lparr>lk_now := k\<rparr>" False] by (simp add: hold_run_def)
  qed
  then have "lock_run True False hold_run" by (simp add: lock_run_def)
  moreover have "scheduled 0 hold_run"
    unfolding scheduled_def
  proof (intro allI impI)
    fix i
    assume "acquiring (lk_pc (hold_run i) 0)"
    then have "i = 0" by (cases i) (simp_all add: hold_run_def holds_def)
    moreover have "moves_at 0 hold_run 0"
      by (simp add: moves_at_def hold_run_def holds_def tries_def)
    ultimately show "\<exists>j\<ge>i. moves_at 0 hold_run j" by blast
  qed
  moreover have "lk_pc (hold_run 0) 0 = Trying 1" by (simp add: hold_run_def tries_def)
  ultimately show ?thesis using lock_attempt_ends [of True False hold_run 0 1] by auto
qed

end
