(* ===== verification/Verify_Cmd.thy ===== *)
theory Verify_Cmd
  imports Verifiers Bindings Policy Trust_Boundary Identity Journal
begin

section \<open>The verify command (crates/uni-cli, cmd/verify.rs)\<close>

text \<open>
  One run of \<open>uni verify\<close>: the contract is loaded, the actor established, the verification
  context computed; stored proofs are tried, what is missing or stale is run, the decision is
  made under the policy, and everything is persisted under the lock. The state is the \<open>.uni\<close>
  directory, decoded; verifier commands change the machine \<open>'w\<close> and are taken not to touch
  \<open>.uni\<close>. What is printed is in \<open>Console\<close>; the report is what the JSON output holds.
\<close>

subsection \<open>The directory and the outside world\<close>

record last_decision =
  ld_intent :: intent_ir
  ld_commit :: string
  ld_stale :: "(string \<times> (string \<times> string) list) list"
  ld_result :: decision_result
  ld_assurance :: string
  ld_independent :: bool
  ld_identity :: string

record uni_dir =
  ud_config :: "string option"
  ud_evidence :: evidence_dir
  ud_bindings :: bindings_state
  ud_policies :: "text_dir option"
  ud_registry_hash :: "string option"
  ud_snapshot :: "string option"
  ud_stale :: "stale_reason list btree option"
  ud_last :: "last_decision option"
  ud_journal :: journal_dir

record ('w, 'k, 'd) verify_env =
  ve_os :: "'w os"
  ve_parse_toml :: "string \<Rightarrow> toml option"
  ve_parse_json :: "string \<Rightarrow> json option"
  ve_rfc3339 :: "int \<Rightarrow> string"
  ve_stamp :: "int \<Rightarrow> string"
  ve_policy_json :: "policy \<Rightarrow> string"
  ve_to_string :: "json \<Rightarrow> string"
  ve_opa_version :: "'w \<Rightarrow> bool"
  ve_opa_eval :: "'w \<Rightarrow> opa_run"
  ve_jwt :: "('k, 'd) jwt"
  ve_read_file :: "'w \<Rightarrow> string \<Rightarrow> string option"
  ve_lock :: "'w \<Rightarrow> bool"
  ve_workspace :: string
  ve_platform :: string
  ve_user :: "string option"
  ve_username :: "string option"

record verify_args =
  va_contract :: "string option"
  va_actor :: "string option"
  va_token :: "string option"
  va_attest :: bool

record verify_report =
  vr_result :: decision_result
  vr_evidence :: "evidence list"
  vr_boundary_changed :: bool

datatype cmd_error =
    AttestReserved
  | CannotReadContract
  | ParseFailed parse_error
  | CompileFailed compile_error
  | ActorAndToken
  | IdentityFailed identity_error
  | BindingNeedsSelector string string
  | Rebound string verifier_binding
  | NoBinding string
  | VerifyFailed verify_error
  | LockHeld
  | NotAccepted verify_report

definition map_err :: "('e \<Rightarrow> 'f) \<Rightarrow> 'e + 'a \<Rightarrow> 'f + 'a" where
  "map_err f m = (case m of Inl e \<Rightarrow> Inl (f e) | Inr a \<Rightarrow> Inr a)"

lemma map_err_Inr [simp]: "map_err f m = Inr a \<longleftrightarrow> m = Inr a"
  by (cases m) (simp_all add: map_err_def)

lemma map_err_simps [simp]: "map_err f (Inl e) = Inl (f e)" "map_err f (Inr a) = Inr a"
  by (simp_all add: map_err_def)

lemma map_err_Inl: "map_err f m = Inl e \<longleftrightarrow> (\<exists>e0. m = Inl e0 \<and> e = f e0)"
  by (cases m) (auto simp: map_err_def)

subsection \<open>Preparing the run\<close>

definition load_contract :: "string option \<Rightarrow> cmd_error + ir" where
  "load_contract file =
     bind_r (ok_or file CannotReadContract) (\<lambda>src.
     bind_r (map_err ParseFailed (parse src)) (\<lambda>ast. map_err CompileFailed (compile ast)))"

text \<open>The verifier actor, and whether its identity was verified.\<close>

definition choose_actor ::
  "('w, 'k, 'd) verify_env \<Rightarrow> verify_args \<Rightarrow> uni_dir \<Rightarrow> actor \<Rightarrow> 'w \<Rightarrow> cmd_error + actor \<times> bool" where
  "choose_actor env args uni executor w =
     (let tok = (case va_token args of Some t \<Rightarrow> (if trim t = [] then None else Some t) | None \<Rightarrow> None) in
      case tok of
        Some t \<Rightarrow>
          if va_actor args \<noteq> None then Inl ActorAndToken
          else
            bind_r (map_err IdentityFailed
                (load_identities (ve_parse_toml env) (ve_workspace env) (ud_config uni))) (\<lambda>ids.
            bind_r (map_err IdentityFailed (verify_token (ve_jwt env) (ve_read_file env w) t ids)) (\<lambda>a.
              Inr (a, True)))
      | None \<Rightarrow> Inr (case va_actor args of Some i \<Rightarrow> declared i | None \<Rightarrow> executor, False))"

record run_ctx =
  rc_ir :: ir
  rc_actor :: actor
  rc_executor :: actor
  rc_sha :: string
  rc_dirty :: bool
  rc_registry :: registry
  rc_contract_hash :: string
  rc_registry_text :: string
  rc_registry_hash :: string

definition text_or_empty :: "string option \<Rightarrow> string" where
  "text_or_empty t = (case t of Some s \<Rightarrow> s | None \<Rightarrow> [])"

definition make_ctx ::
  "('w, 'k, 'd) verify_env \<Rightarrow> verify_args \<Rightarrow> uni_dir \<Rightarrow> ir \<Rightarrow> actor \<Rightarrow> actor \<Rightarrow> 'w \<Rightarrow> run_ctx" where
  "make_ctx env args uni i actor executor w =
     (let (sha, dirty) = os_git (ve_os env) w in
      \<lparr>rc_ir = i, rc_actor = actor, rc_executor = executor, rc_sha = sha, rc_dirty = dirty,
       rc_registry = load_registry (ve_parse_toml env) (ud_config uni),
       rc_contract_hash = sha256_hex (os_digest (ve_os env)) (text_or_empty (va_contract args)),
       rc_registry_text = text_or_empty (ud_config uni),
       rc_registry_hash = sha256_hex (os_digest (ve_os env)) (text_or_empty (ud_config uni))\<rparr>)"

definition previous_hash :: "uni_dir \<Rightarrow> string" where
  "previous_hash uni = trim (text_or_empty (ud_registry_hash uni))"

definition boundary_changed :: "uni_dir \<Rightarrow> run_ctx \<Rightarrow> bool" where
  "boundary_changed uni rc \<longleftrightarrow> previous_hash uni \<noteq> [] \<and> previous_hash uni \<noteq> rc_registry_hash rc"

definition boundary_diff :: "('w, 'k, 'd) verify_env \<Rightarrow> uni_dir \<Rightarrow> run_ctx \<Rightarrow> registry_diff" where
  "boundary_diff env uni rc =
     (if boundary_changed uni rc
      then registry_diff_of (ve_parse_toml env) (text_or_empty (ud_snapshot uni)) (rc_registry_text rc)
      else no_diff)"

definition actor_attrs :: "actor \<Rightarrow> (string \<times> string) list" where
  "actor_attrs a =
     [(''uni.actor.id'', ac_id a), (''uni.actor.source'', ac_source a),
      (''uni.actor.assurance'', ac_assurance a)]"

definition declared_scheme :: "string option \<Rightarrow> bool" where
  "declared_scheme flag =
     (case flag of None \<Rightarrow> False
      | Some i \<Rightarrow> (case split_once ''://'' i of
           Some (s, _) \<Rightarrow> s \<in> {''spiffe'', ''entra'', ''oidc''} | None \<Rightarrow> False))"

text \<open>The events a run starts with.\<close>

definition opening_events ::
  "('w, 'k, 'd) verify_env \<Rightarrow> verify_args \<Rightarrow> uni_dir \<Rightarrow> run_ctx \<Rightarrow> bool \<Rightarrow> event list" where
  "opening_events env args uni rc identity_verified =
     [\<lparr>jn_name = ''IntentVerified'',
       jn_attrs = [(''uni.intent.id'', in_id (ir_intent (rc_ir rc))),
                   (''uni.contract.version'', ir_uni_version (rc_ir rc))]\<rparr>] @
     (if identity_verified
      then [\<lparr>jn_name = ''IdentityVerified'', jn_attrs = actor_attrs (rc_actor rc)\<rparr>] else []) @
     (if declared_scheme (va_actor args)
      then [\<lparr>jn_name = ''IdentityUnverified'', jn_attrs = actor_attrs (rc_actor rc)\<rparr>] else []) @
     (if boundary_changed uni rc
      then let d = boundary_diff env uni rc in
           [\<lparr>jn_name = ''RegistryChanged'',
             jn_attrs = [(''uni.registry.previous'', take 8 (previous_hash uni)),
                         (''uni.registry.current'', take 8 (rc_registry_hash rc)),
                         (''uni.registry.added'', join '','' (rd_added d)),
                         (''uni.registry.removed'', join '','' (rd_removed d)),
                         (''uni.registry.changed'', join '','' (rd_changed d))]\<rparr>]
      else [])"

subsection \<open>The authorization gate\<close>

record resolution =
  rs_binding_hash :: "string option"
  rs_selector :: "string option"

definition require_binding ::
  "bindings_state \<Rightarrow> string \<Rightarrow> string \<Rightarrow> string option \<Rightarrow> bool \<Rightarrow> cmd_error + resolution" where
  "require_binding bs claim_id verifier_ref requirement is_template =
     (let req = text_or_empty requirement in
      if \<not> is_template \<and> requirement = None then Inr \<lparr>rs_binding_hash = None, rs_selector = None\<rparr>
      else case load_binding bs claim_id of
             Some b \<Rightarrow>
               if vb_verifier_ref b = verifier_ref \<and> vb_requirement b = req then
                 (if is_template \<and> trim (text_or_empty (vb_selector b)) = []
                  then Inl (BindingNeedsSelector claim_id verifier_ref)
                  else Inr \<lparr>rs_binding_hash = Some (vb_binding_hash b), rs_selector = vb_selector b\<rparr>)
               else Inl (Rebound claim_id b)
           | None \<Rightarrow> Inl (NoBinding claim_id))"

subsection \<open>Trying the stored proofs\<close>

record pending =
  pd_claim :: string
  pd_ref :: string
  pd_inline :: "string option"
  pd_binding :: "string option"
  pd_spec :: "verifier_spec option"

record scan =
  sc_stored :: "evidence list"
  sc_need :: "pending list"
  sc_stale_ids :: "string list"
  sc_reasons :: "stale_reason list btree"
  sc_journal :: "event list"

text \<open>The specification a verification resolves to, when its reference is in the registry.\<close>

definition resolved_spec :: "registry \<Rightarrow> string \<Rightarrow> string option \<Rightarrow> cmd_error + verifier_spec option" where
  "resolved_spec reg ref selector =
     (case bt_get reg ref of
        None \<Rightarrow> Inr None
      | Some s \<Rightarrow> bind_r (map_err VerifyFailed (with_selector s selector)) (\<lambda>s'. Inr (Some s')))"

definition context_for ::
  "('w, 'k, 'd) verify_env \<Rightarrow> run_ctx \<Rightarrow> string \<Rightarrow> verifier_spec option \<Rightarrow> string option \<Rightarrow> 'w \<Rightarrow> evidence_context" where
  "context_for env rc ref spec bhash w =
     (let tree = os_tree (ve_os env) w; digest = os_digest (ve_os env) in
      \<lparr>cx_fingerprint =
         (case spec of
            Some s \<Rightarrow> spec_fingerprint digest ref s (ac_id (rc_actor rc))
          | None \<Rightarrow> ''inline:'' @ ref @ '':'' @ ac_id (rc_actor rc)),
       cx_commit_sha = rc_sha rc, cx_workspace_dirty = rc_dirty rc,
       cx_artifact_hash = Option.bind spec (\<lambda>s. artifact_hash digest s tree),
       cx_artifact_files = (case spec of Some s \<Rightarrow> artifact_hashes digest s tree | None \<Rightarrow> []),
       cx_registry_hash = rc_registry_hash rc, cx_contract_hash = rc_contract_hash rc,
       cx_platform = ve_platform env, cx_binding_hash = bhash\<rparr>)"

definition scan_outcome ::
  "run_ctx \<Rightarrow> verification_ir \<Rightarrow> pending \<Rightarrow> cache_outcome \<Rightarrow> scan \<Rightarrow> scan" where
  "scan_outcome rc v p oc sc =
     (let intent = in_id (ir_intent (rc_ir rc)) in
      case oc of
        Hit ev \<Rightarrow>
          sc\<lparr>sc_stored := sc_stored sc @ [ev\<lparr>ev_executor := rc_executor rc\<rparr>],
             sc_journal := sc_journal sc @
               [\<lparr>jn_name = ''EvidenceReused'',
                 jn_attrs = [(''uni.claim.id'', vi_claim_id v), (''uni.intent.id'', intent)]\<rparr>]\<rparr>
      | StaleProof reasons \<Rightarrow>
          sc\<lparr>sc_need := sc_need sc @ [p], sc_stale_ids := sc_stale_ids sc @ [vi_claim_id v],
             sc_reasons := bt_insert (vi_claim_id v) reasons (sc_reasons sc),
             sc_journal := sc_journal sc @
               [\<lparr>jn_name = ''EvidenceStale'',
                 jn_attrs = [(''uni.claim.id'', vi_claim_id v), (''uni.intent.id'', intent),
                             (''uni.stale.reasons'', join '','' (map label reasons)),
                             (''uni.stale.detail'', join '' | '' (map describe reasons))]\<rparr>]\<rparr>
      | Miss \<Rightarrow> sc\<lparr>sc_need := sc_need sc @ [p]\<rparr>)"

definition is_template_ref :: "registry \<Rightarrow> string \<Rightarrow> bool" where
  "is_template_ref reg ref = (case bt_get reg ref of Some s \<Rightarrow> is_selector_template s | None \<Rightarrow> False)"

text \<open>One verification of the contract: the whole loop body.\<close>

definition scan_one ::
  "('w, 'k, 'd) verify_env \<Rightarrow> uni_dir \<Rightarrow> run_ctx \<Rightarrow> 'w \<Rightarrow> verification_ir \<Rightarrow> scan \<Rightarrow> cmd_error + scan" where
  "scan_one env uni rc w v sc =
     bind_r (require_binding (ud_bindings uni) (vi_claim_id v) (vi_verifier_ref v) (vi_requirement v)
               (is_template_ref (rc_registry rc) (vi_verifier_ref v))) (\<lambda>res.
     bind_r (resolved_spec (rc_registry rc) (vi_verifier_ref v) (rs_selector res)) (\<lambda>spec.
       let ctx = context_for env rc (vi_verifier_ref v) spec (rs_binding_hash res) w;
           p = \<lparr>pd_claim = vi_claim_id v, pd_ref = vi_verifier_ref v, pd_inline = vi_inline_shell v,
                pd_binding = rs_binding_hash res, pd_spec = spec\<rparr>
       in Inr (scan_outcome rc v p
            (load_valid_for_claim (ve_rfc3339 env) (os_now (ve_os env) w) (ud_evidence uni)
               (vi_claim_id v) ctx) sc)))"

subsection \<open>Running what is missing\<close>

record run_state =
  rn_fresh :: "(evidence \<times> string) list"
  rn_journal :: "event list"

definition seal :: "('w, 'k, 'd) verify_env \<Rightarrow> run_ctx \<Rightarrow> string \<Rightarrow> string option \<Rightarrow> evidence \<Rightarrow> evidence" where
  "seal env rc policy_hash binding ev =
     (let ev1 = ev\<lparr>ev_registry_hash := rc_registry_hash rc, ev_contract_hash := rc_contract_hash rc,
                   ev_platform := ve_platform env, ev_policy_hash := policy_hash,
                   ev_binding_hash := text_or_empty binding\<rparr>
      in if is_stale ev1 (rc_sha rc) (rc_dirty rc) then ev1\<lparr>ev_state := Stale\<rparr> else ev1)"

definition run_one ::
  "('w, 'k, 'd) verify_env \<Rightarrow> run_ctx \<Rightarrow> string \<Rightarrow> pending \<Rightarrow> run_state \<times> 'w \<Rightarrow> cmd_error + run_state \<times> 'w" where
  "run_one env rc policy_hash p = (\<lambda>(rn, w).
     bind_r (case pd_spec p of
               Some s \<Rightarrow> Inr s
             | None \<Rightarrow> map_err VerifyFailed (resolve_command (pd_ref p) (pd_inline p) (rc_registry rc))) (\<lambda>s.
     bind_r (map_err VerifyFailed
               (run_spec (ve_os env) (pd_claim p) (pd_ref p) s (rc_actor rc) (rc_executor rc) w)) (\<lambda>(ev, w').
       Inr (rn\<lparr>rn_fresh := rn_fresh rn @
                 [(seal env rc policy_hash (pd_binding p) ev,
                   spec_fingerprint (os_digest (ve_os env)) (pd_ref p) s (ac_id (rc_actor rc)))],
               rn_journal := rn_journal rn @
                 [\<lparr>jn_name = ''EvidenceRun'',
                   jn_attrs = [(''uni.claim.id'', pd_claim p), (''uni.verifier.id'', pd_ref p),
                               (''uni.intent.id'', in_id (ir_intent (rc_ir rc)))]\<rparr>]\<rparr>, w'))))"

subsection \<open>The policy and the decision\<close>

definition resolve_policy :: "('w, 'k, 'd) verify_env \<Rightarrow> uni_dir \<Rightarrow> 'w \<Rightarrow> policy" where
  "resolve_policy env uni w =
     (let bundle = (case ud_policies uni of Some d \<Rightarrow> ''opa.rego'' \<in> fst ` set d | None \<Rightarrow> False) in
      if bundle \<and> ve_opa_version env w then opa_policy (ve_parse_json env) (ve_opa_eval env w)
      else load_policies (ve_parse_toml env) (ud_policies uni))"

definition valid_ids :: "decision_result \<Rightarrow> string list" where
  "valid_ids r = map cr_claim_id (filter (\<lambda>c. cr_state c = Valid) (dr_claims r))"

definition escalate_unrenewed :: "policy \<Rightarrow> string list \<Rightarrow> decision_result \<Rightarrow> decision_result" where
  "escalate_unrenewed pol stale_ids r =
     (if escalate_on_stale pol \<and> dr_decision r \<noteq> Accepted \<and>
         list_ex (\<lambda>i. i \<notin> set (valid_ids r)) stale_ids
      then decide Escalated (StaleNotRenewed (dr_reason r)) r
      else r)"

definition decide_run :: "ir \<Rightarrow> policy \<Rightarrow> string list \<Rightarrow> evidence list \<Rightarrow> decision_result" where
  "decide_run i pol stale_ids stored =
     escalate_unrenewed pol stale_ids (apply_policy (evaluate_intent i stored) pol)"

subsection \<open>Persisting\<close>

definition next_drift :: "uni_dir \<Rightarrow> scan \<Rightarrow> decision_result \<Rightarrow> stale_reason list btree" where
  "next_drift uni sc r =
     fold bt_remove (valid_ids r)
       (fold (\<lambda>(i, rs). bt_insert i rs) (sc_reasons sc)
          (case ud_stale uni of Some d \<Rightarrow> d | None \<Rightarrow> []))"

definition decision_event :: "run_ctx \<Rightarrow> decision_result \<Rightarrow> evidence list \<Rightarrow> event" where
  "decision_event rc r stored =
     \<lparr>jn_name = ''DecisionIssued'',
      jn_attrs = [(''uni.intent.id'', in_id (ir_intent (rc_ir rc))),
                  (''uni.decision.state'', decision_name (dr_decision r)),
                  (''uni.assurance.level'', assurance_for stored),
                  (''uni.actor.independent'', show_bool (independence stored = Independent)),
                  (''uni.actor.identity_assurance'', identity_assurance stored)]\<rparr>"

definition last_of ::
  "run_ctx \<Rightarrow> stale_reason list btree \<Rightarrow> decision_result \<Rightarrow> evidence list \<Rightarrow> last_decision" where
  "last_of rc drift r stored =
     \<lparr>ld_intent = ir_intent (rc_ir rc), ld_commit = rc_sha rc,
      ld_stale = map (\<lambda>(c, rs). (c, map (\<lambda>x. (label x, describe x)) rs)) drift,
      ld_result = r, ld_assurance = assurance_for stored,
      ld_independent = (independence stored = Independent),
      ld_identity = identity_assurance stored\<rparr>"

definition save_fresh :: "(evidence \<times> string) list \<Rightarrow> evidence_dir \<Rightarrow> evidence_dir" where
  "save_fresh fresh d =
     fold (\<lambda>(ev, fp) d. save_file (evidence_path (ev_claim_id ev) fp) ev d) fresh d"

definition persist ::
  "('w, 'k, 'd) verify_env \<Rightarrow> run_ctx \<Rightarrow> (evidence \<times> string) list \<Rightarrow> event list \<Rightarrow> last_decision \<Rightarrow>
   'w \<Rightarrow> uni_dir \<Rightarrow> uni_dir" where
  "persist env rc fresh journal newest w uni =
     (let now = os_now (ve_os env) w in
      uni\<lparr>ud_evidence := save_fresh fresh (ud_evidence uni),
          ud_journal := append_events (ve_to_string env) (ve_stamp env now) (ve_rfc3339 env now)
                          journal (ud_journal uni),
          ud_last := Some newest, ud_registry_hash := Some (rc_registry_hash rc),
          ud_snapshot := Some (rc_registry_text rc)\<rparr>)"

subsection \<open>The whole command\<close>

text \<open>What a run found out before it persists anything.\<close>

record run_outcome =
  ro_ctx :: run_ctx
  ro_scan :: scan
  ro_fresh :: "(evidence \<times> string) list"
  ro_journal :: "event list"
  ro_stored :: "evidence list"
  ro_policy :: policy

definition gather ::
  "('w, 'k, 'd) verify_env \<Rightarrow> verify_args \<Rightarrow> uni_dir \<Rightarrow> 'w \<Rightarrow> cmd_error + run_outcome \<times> 'w" where
  "gather env args uni w =
     (if va_attest args then Inl AttestReserved
      else
        bind_r (load_contract (va_contract args)) (\<lambda>i.
        let executor = local_actor (ve_user env) (ve_username env) in
        bind_r (choose_actor env args uni executor w) (\<lambda>(actor, verified).
        let rc = make_ctx env args uni i actor executor w in
        bind_r (fold_r (scan_one env uni rc w) (ir_verification i)
                  \<lparr>sc_stored = [], sc_need = [], sc_stale_ids = [], sc_reasons = [],
                   sc_journal = opening_events env args uni rc verified\<rparr>) (\<lambda>sc.
        let pol = resolve_policy env uni w;
            policy_hash = sha256_hex (os_digest (ve_os env)) (ve_policy_json env pol) in
        bind_r (fold_r (run_one env rc policy_hash) (sc_need sc)
                  (\<lparr>rn_fresh = [], rn_journal = sc_journal sc\<rparr>, w)) (\<lambda>(rn, w').
          Inr (\<lparr>ro_ctx = rc, ro_scan = sc, ro_fresh = rn_fresh rn, ro_journal = rn_journal rn,
                ro_stored = sc_stored sc @ map fst (rn_fresh rn), ro_policy = pol\<rparr>, w'))))))"

definition run_decision :: "run_outcome \<Rightarrow> decision_result" where
  "run_decision ro =
     decide_run (rc_ir (ro_ctx ro)) (ro_policy ro) (sc_stale_ids (ro_scan ro)) (ro_stored ro)"

definition run_report :: "uni_dir \<Rightarrow> run_outcome \<Rightarrow> verify_report" where
  "run_report uni ro =
     \<lparr>vr_result = run_decision ro, vr_evidence = ro_stored ro,
      vr_boundary_changed = boundary_changed uni (ro_ctx ro)\<rparr>"

definition save_drift :: "run_outcome \<Rightarrow> uni_dir \<Rightarrow> uni_dir" where
  "save_drift ro uni = uni\<lparr>ud_stale := Some (next_drift uni (ro_scan ro) (run_decision ro))\<rparr>"

definition save_run :: "('w, 'k, 'd) verify_env \<Rightarrow> run_outcome \<Rightarrow> 'w \<Rightarrow> uni_dir \<Rightarrow> uni_dir" where
  "save_run env ro w uni =
     persist env (ro_ctx ro) (ro_fresh ro)
       (ro_journal ro @ [decision_event (ro_ctx ro) (run_decision ro) (ro_stored ro)])
       (last_of (ro_ctx ro) (next_drift uni (ro_scan ro) (run_decision ro)) (run_decision ro) (ro_stored ro))
       w (save_drift ro uni)"

definition verdict :: "verify_report \<Rightarrow> cmd_error + verify_report" where
  "verdict rep =
     (if dr_decision (vr_result rep) = Accepted then Inr rep else Inl (NotAccepted rep))"

definition cmd_verify ::
  "('w, 'k, 'd) verify_env \<Rightarrow> verify_args \<Rightarrow> uni_dir \<Rightarrow> 'w \<Rightarrow> (cmd_error + verify_report) \<times> uni_dir" where
  "cmd_verify env args uni w =
     (case gather env args uni w of
        Inl e \<Rightarrow> (Inl e, uni)
      | Inr (ro, w') \<Rightarrow>
          if \<not> ve_lock env w' then (Inl LockHeld, save_drift ro uni)
          else (verdict (run_report uni ro), save_run env ro w' uni))"

end
