(* ===== verification/Verify_Facts.thy ===== *)
theory Verify_Facts
  imports Verify_Cmd
begin

section \<open>What the verify command guarantees\<close>

text \<open>
  Where the evidence of a run comes from, the authorization gate, the end-to-end safety of an
  accepted run, and what a run that does not complete leaves behind.
\<close>

subsection \<open>The two sources of evidence\<close>

text \<open>The context a verification of the contract is checked against, once it is authorized.\<close>

definition verification_context ::
  "('w, 'k, 'd) verify_env \<Rightarrow> uni_dir \<Rightarrow> run_ctx \<Rightarrow> 'w \<Rightarrow> verification_ir \<Rightarrow> evidence_context \<Rightarrow> bool" where
  "verification_context env uni rc w v ctx \<longleftrightarrow>
     (\<exists>res spec.
        require_binding (ud_bindings uni) (vi_claim_id v) (vi_verifier_ref v) (vi_requirement v)
          (is_template_ref (rc_registry rc) (vi_verifier_ref v)) = Inr res \<and>
        resolved_spec (rc_registry rc) (vi_verifier_ref v) (rs_selector res) = Inr spec \<and>
        ctx = context_for env rc (vi_verifier_ref v) spec (rs_binding_hash res) w)"

text \<open>A stored proof that covers the current context, with the current executor.\<close>

definition reused ::
  "('w, 'k, 'd) verify_env \<Rightarrow> uni_dir \<Rightarrow> run_ctx \<Rightarrow> 'w \<Rightarrow> verification_ir \<Rightarrow> evidence \<Rightarrow> bool" where
  "reused env uni rc w v ev \<longleftrightarrow>
     (\<exists>ctx ev0. verification_context env uni rc w v ctx \<and>
        load_file (ud_evidence uni) (evidence_path (vi_claim_id v) (cx_fingerprint ctx)) = Some ev0 \<and>
        ev_fingerprint ev0 = cx_fingerprint ctx \<and>
        covers (os_now (ve_os env) w) ctx ev0 \<and> ev_state ev0 \<noteq> Invalid \<and>
        ev = ev0\<lparr>ev_executor := rc_executor rc\<rparr>)"

text \<open>The specification a verification may run, and with which binding.\<close>

definition authorized_spec ::
  "uni_dir \<Rightarrow> registry \<Rightarrow> verification_ir \<Rightarrow> verifier_spec \<Rightarrow> string option \<Rightarrow> bool" where
  "authorized_spec uni reg v s binding \<longleftrightarrow>
     (\<exists>res. require_binding (ud_bindings uni) (vi_claim_id v) (vi_verifier_ref v) (vi_requirement v)
          (is_template_ref reg (vi_verifier_ref v)) = Inr res \<and> binding = rs_binding_hash res \<and>
        (case bt_get reg (vi_verifier_ref v) of
           Some base \<Rightarrow> with_selector base (rs_selector res) = Inr s
         | None \<Rightarrow> resolve_command (vi_verifier_ref v) (vi_inline_shell v) reg = Inr s))"

text \<open>
  A proof made in this run under an authorized specification, and sealed, of a verification
  without a reusable proof.
\<close>

definition proved_now ::
  "('w, 'k, 'd) verify_env \<Rightarrow> uni_dir \<Rightarrow> run_ctx \<Rightarrow> 'w \<Rightarrow> string \<Rightarrow> verification_ir \<Rightarrow> evidence \<Rightarrow> bool" where
  "proved_now env uni rc w policy_hash v ev \<longleftrightarrow>
     \<not> (\<exists>e. reused env uni rc w v e) \<and>
     (\<exists>s binding w1 w2 ev0. authorized_spec uni (rc_registry rc) v s binding \<and>
        run_spec (ve_os env) (vi_claim_id v) (vi_verifier_ref v) s (rc_actor rc) (rc_executor rc) w1 = Inr (ev0, w2) \<and>
        ev = seal env rc policy_hash binding ev0)"

text \<open>What is to be run for a verification.\<close>

definition pending_of ::
  "('w, 'k, 'd) verify_env \<Rightarrow> uni_dir \<Rightarrow> run_ctx \<Rightarrow> 'w \<Rightarrow> verification_ir \<Rightarrow> pending \<Rightarrow> bool" where
  "pending_of env uni rc w v p \<longleftrightarrow>
     \<not> (\<exists>e. reused env uni rc w v e) \<and>
     (\<exists>res.
        require_binding (ud_bindings uni) (vi_claim_id v) (vi_verifier_ref v) (vi_requirement v)
          (is_template_ref (rc_registry rc) (vi_verifier_ref v)) = Inr res \<and>
        resolved_spec (rc_registry rc) (vi_verifier_ref v) (rs_selector res) = Inr (pd_spec p) \<and>
        pd_claim p = vi_claim_id v \<and> pd_ref p = vi_verifier_ref v \<and>
        pd_inline p = vi_inline_shell v \<and> pd_binding p = rs_binding_hash res)"

definition scan_ok :: "('w, 'k, 'd) verify_env \<Rightarrow> uni_dir \<Rightarrow> run_ctx \<Rightarrow> 'w \<Rightarrow> ir \<Rightarrow> scan \<Rightarrow> bool" where
  "scan_ok env uni rc w i sc \<longleftrightarrow>
     (\<forall>ev\<in>set (sc_stored sc). \<exists>v\<in>set (ir_verification i). reused env uni rc w v ev) \<and>
     (\<forall>p\<in>set (sc_need sc). \<exists>v\<in>set (ir_verification i). pending_of env uni rc w v p)"

lemma scan_one_Inr:
  assumes "scan_one env uni rc w v sc = Inr sc'"
  shows "\<exists>res spec.
    require_binding (ud_bindings uni) (vi_claim_id v) (vi_verifier_ref v) (vi_requirement v)
      (is_template_ref (rc_registry rc) (vi_verifier_ref v)) = Inr res \<and>
    resolved_spec (rc_registry rc) (vi_verifier_ref v) (rs_selector res) = Inr spec \<and>
    sc' = scan_outcome rc v
      \<lparr>pd_claim = vi_claim_id v, pd_ref = vi_verifier_ref v, pd_inline = vi_inline_shell v,
       pd_binding = rs_binding_hash res, pd_spec = spec\<rparr>
      (load_valid_for_claim (ve_rfc3339 env) (os_now (ve_os env) w) (ud_evidence uni) (vi_claim_id v)
         (context_for env rc (vi_verifier_ref v) spec (rs_binding_hash res) w)) sc"
  using assms by (auto simp: scan_one_def bind_r_Inr_iff Let_def)

lemma reused_iff_Hit:
  assumes "require_binding (ud_bindings uni) (vi_claim_id v) (vi_verifier_ref v) (vi_requirement v)
      (is_template_ref (rc_registry rc) (vi_verifier_ref v)) = Inr res"
    and "resolved_spec (rc_registry rc) (vi_verifier_ref v) (rs_selector res) = Inr spec"
  shows "(\<exists>e. reused env uni rc w v e) \<longleftrightarrow>
    (\<exists>ev. load_valid_for_claim rfc (os_now (ve_os env) w) (ud_evidence uni) (vi_claim_id v)
       (context_for env rc (vi_verifier_ref v) spec (rs_binding_hash res) w) = Hit ev)"
  using assms by (auto simp: reused_def verification_context_def load_valid_Hit)

lemma scan_one_ok:
  assumes "scan_one env uni rc w v sc = Inr sc'" and "v \<in> set (ir_verification i)"
    and "scan_ok env uni rc w i sc"
  shows "scan_ok env uni rc w i sc'"
proof -
  obtain res spec where r: "require_binding (ud_bindings uni) (vi_claim_id v) (vi_verifier_ref v) (vi_requirement v)
      (is_template_ref (rc_registry rc) (vi_verifier_ref v)) = Inr res"
    and s: "resolved_spec (rc_registry rc) (vi_verifier_ref v) (rs_selector res) = Inr spec"
    and sc': "sc' = scan_outcome rc v
      \<lparr>pd_claim = vi_claim_id v, pd_ref = vi_verifier_ref v, pd_inline = vi_inline_shell v,
       pd_binding = rs_binding_hash res, pd_spec = spec\<rparr>
      (load_valid_for_claim (ve_rfc3339 env) (os_now (ve_os env) w) (ud_evidence uni) (vi_claim_id v)
         (context_for env rc (vi_verifier_ref v) spec (rs_binding_hash res) w)) sc"
    (is "_ = scan_outcome rc v ?p ?oc sc")
    using scan_one_Inr [OF assms(1)] by blast
  have p: "pending_of env uni rc w v ?p" if "\<nexists>ev. ?oc = Hit ev"
    unfolding pending_of_def using that reused_iff_Hit [OF r s, of env w "ve_rfc3339 env"] r s
    by (intro conjI exI [of _ res]) simp_all
  show ?thesis
  proof (cases ?oc)
    case (Hit ev)
    have "verification_context env uni rc w v (context_for env rc (vi_verifier_ref v) spec (rs_binding_hash res) w)"
      unfolding verification_context_def using r s by blast
    then have "reused env uni rc w v (ev\<lparr>ev_executor := rc_executor rc\<rparr>)"
      unfolding reused_def using Hit [unfolded load_valid_Hit] by blast
    then show ?thesis
      using assms(2,3) by (auto simp: sc' Hit scan_outcome_def Let_def scan_ok_def)
  next
    case (StaleProof rs)
    then show ?thesis using assms(2,3) p by (auto simp: sc' scan_outcome_def Let_def scan_ok_def)
  next
    case Miss
    then show ?thesis using assms(2,3) p by (auto simp: sc' scan_outcome_def Let_def scan_ok_def)
  qed
qed

lemma run_one_ok:
  assumes "run_one env rc ph p (rn, w1) = Inr (rn', w2)" and "pending_of env uni rc w v p"
  shows "\<exists>ev. rn_fresh rn' = rn_fresh rn @ [(ev, ev_fingerprint ev)] \<and> proved_now env uni rc w ph v ev"
proof -
  obtain s ev0 where s: "(case pd_spec p of Some s \<Rightarrow> Inr s
          | None \<Rightarrow> map_err VerifyFailed (resolve_command (pd_ref p) (pd_inline p) (rc_registry rc))) = Inr s"
    and ev0: "run_spec (ve_os env) (pd_claim p) (pd_ref p) s (rc_actor rc) (rc_executor rc) w1 = Inr (ev0, w2)"
    and rn': "rn_fresh rn' = rn_fresh rn @ [(seal env rc ph (pd_binding p) ev0,
                   spec_fingerprint (os_digest (ve_os env)) (pd_ref p) s (ac_id (rc_actor rc)))]"
    using assms(1) by (auto simp: run_one_def bind_r_Inr_iff)
  obtain res where r: "require_binding (ud_bindings uni) (vi_claim_id v) (vi_verifier_ref v) (vi_requirement v)
          (is_template_ref (rc_registry rc) (vi_verifier_ref v)) = Inr res"
    and sp: "resolved_spec (rc_registry rc) (vi_verifier_ref v) (rs_selector res) = Inr (pd_spec p)"
    and eqs: "pd_claim p = vi_claim_id v" "pd_ref p = vi_verifier_ref v"
        "pd_inline p = vi_inline_shell v" "pd_binding p = rs_binding_hash res"
    and n: "\<not> (\<exists>e. reused env uni rc w v e)"
    using assms(2) unfolding pending_of_def by blast
  have "authorized_spec uni (rc_registry rc) v s (pd_binding p)"
    unfolding authorized_spec_def using r s sp
    by (intro exI [of _ res]) (auto simp: eqs resolved_spec_def bind_r_Inr_iff split: option.splits)
  then have "proved_now env uni rc w ph v (seal env rc ph (pd_binding p) ev0)"
    unfolding proved_now_def using ev0 n
    by (intro conjI exI [of _ s] exI [of _ "pd_binding p"] exI [of _ w1] exI [of _ w2] exI [of _ ev0])
      (simp_all add: eqs)
  moreover have "ev_fingerprint (seal env rc ph (pd_binding p) ev0) =
      spec_fingerprint (os_digest (ve_os env)) (pd_ref p) s (ac_id (rc_actor rc))"
    using run_spec_Inr [OF ev0] by (auto simp: seal_def Let_def)
  ultimately show ?thesis using rn' by auto
qed

text \<open>Every verification of the list is looked at, and no record is dropped.\<close>

definition looked_at :: "('w, 'k, 'd) verify_env \<Rightarrow> uni_dir \<Rightarrow> run_ctx \<Rightarrow> 'w \<Rightarrow> verification_ir \<Rightarrow> scan \<Rightarrow> bool" where
  "looked_at env uni rc w v sc \<longleftrightarrow>
     (\<exists>ev\<in>set (sc_stored sc). reused env uni rc w v ev) \<or> (\<exists>p\<in>set (sc_need sc). pending_of env uni rc w v p)"

lemma scan_outcome_keeps:
  "set (sc_stored sc) \<subseteq> set (sc_stored (scan_outcome rc v p oc sc))"
  "set (sc_need sc) \<subseteq> set (sc_need (scan_outcome rc v p oc sc))"
  by (auto simp: scan_outcome_def Let_def split: cache_outcome.splits)

lemma scan_one_looks:
  assumes "scan_one env uni rc w v sc = Inr sc'"
  shows "looked_at env uni rc w v sc'"
proof -
  obtain res spec where r: "require_binding (ud_bindings uni) (vi_claim_id v) (vi_verifier_ref v) (vi_requirement v)
      (is_template_ref (rc_registry rc) (vi_verifier_ref v)) = Inr res"
    and s: "resolved_spec (rc_registry rc) (vi_verifier_ref v) (rs_selector res) = Inr spec"
    and sc': "sc' = scan_outcome rc v
      \<lparr>pd_claim = vi_claim_id v, pd_ref = vi_verifier_ref v, pd_inline = vi_inline_shell v,
       pd_binding = rs_binding_hash res, pd_spec = spec\<rparr>
      (load_valid_for_claim (ve_rfc3339 env) (os_now (ve_os env) w) (ud_evidence uni) (vi_claim_id v)
         (context_for env rc (vi_verifier_ref v) spec (rs_binding_hash res) w)) sc"
    (is "_ = scan_outcome rc v ?p ?oc sc")
    using scan_one_Inr [OF assms] by blast
  show ?thesis
  proof (cases "\<exists>ev. ?oc = Hit ev")
    case True
    then obtain ev where h: "?oc = Hit ev" by blast
    have "reused env uni rc w v (ev\<lparr>ev_executor := rc_executor rc\<rparr>)"
      unfolding reused_def verification_context_def using r s h [unfolded load_valid_Hit] by blast
    then show ?thesis by (simp add: sc' looked_at_def h scan_outcome_def Let_def)
  next
    case False
    then have "pending_of env uni rc w v ?p"
      unfolding pending_of_def using reused_iff_Hit [OF r s, of env w "ve_rfc3339 env"] r s
      by (intro conjI exI [of _ res]) simp_all
    then show ?thesis
      using False by (auto simp: sc' looked_at_def scan_outcome_def Let_def split: cache_outcome.splits)
  qed
qed

lemma scan_one_keeps:
  assumes "scan_one env uni rc w y sc = Inr sc'" and "looked_at env uni rc w v sc"
  shows "looked_at env uni rc w v sc'"
proof -
  obtain p oc where sc': "sc' = scan_outcome rc y p oc sc"
    using scan_one_Inr [OF assms(1)] by blast
  show ?thesis
    using assms(2) scan_outcome_keeps [of sc rc y p oc] unfolding looked_at_def sc' by blast
qed

lemma scan_looks_at_all:
  assumes "fold_r (scan_one env uni rc w) vs sc0 = Inr sc" and "v \<in> set vs"
  shows "looked_at env uni rc w v sc"
  by (rule fold_r_reaches [OF assms]) (auto intro: scan_one_looks scan_one_keeps)

lemma make_ctx_simps [simp]:
  "rc_ir (make_ctx env args uni i actor executor w) = i"
  "rc_registry (make_ctx env args uni i actor executor w) = load_registry (ve_parse_toml env) (ud_config uni)"
  "rc_registry_hash (make_ctx env args uni i actor executor w) =
     sha256_hex (os_digest (ve_os env)) (text_or_empty (ud_config uni))"
  "rc_registry_text (make_ctx env args uni i actor executor w) = text_or_empty (ud_config uni)"
  "rc_contract_hash (make_ctx env args uni i actor executor w) =
     sha256_hex (os_digest (ve_os env)) (text_or_empty (va_contract args))"
  "rc_actor (make_ctx env args uni i actor executor w) = actor"
  "rc_executor (make_ctx env args uni i actor executor w) = executor"
  "rc_sha (make_ctx env args uni i actor executor w) = fst (os_git (ve_os env) w)"
  "rc_dirty (make_ctx env args uni i actor executor w) = snd (os_git (ve_os env) w)"
  by (simp_all add: make_ctx_def split: prod.splits)

text \<open>Everything a run gathers: its parts, and where its evidence comes from.\<close>

lemma gather_Inr:
  assumes "gather env args uni w = Inr (ro, w')"
  shows "\<exists>i. load_contract (va_contract args) = Inr i \<and> rc_ir (ro_ctx ro) = i \<and>
    (\<exists>actor. ro_ctx ro = make_ctx env args uni i actor (local_actor (ve_user env) (ve_username env)) w) \<and>
    (\<exists>sc0. fold_r (scan_one env uni (ro_ctx ro) w) (ir_verification i) sc0 = Inr (ro_scan ro) \<and>
       sc_stored sc0 = [] \<and> sc_need sc0 = [] \<and> sc_reasons sc0 = []) \<and>
    ro_policy ro = resolve_policy env uni w \<and>
    ro_stored ro = sc_stored (ro_scan ro) @ map fst (ro_fresh ro) \<and>
    (\<exists>rn0 rn. fold_r (run_one env (ro_ctx ro) (sha256_hex (os_digest (ve_os env)) (ve_policy_json env (ro_policy ro))))
       (sc_need (ro_scan ro)) (rn0, w) = Inr (rn, w') \<and> rn_fresh rn0 = [] \<and> rn_fresh rn = ro_fresh ro)"
proof -
  obtain i where a: "\<not> va_attest args" and i: "load_contract (va_contract args) = Inr i"
    using assms by (cases "load_contract (va_contract args)") (simp_all add: gather_def split: if_splits)
  let ?ex = "local_actor (ve_user env) (ve_username env)"
  obtain actor verified where c: "choose_actor env args uni ?ex w = Inr (actor, verified)"
    using assms a i by (cases "choose_actor env args uni ?ex w") (auto simp: gather_def Let_def)
  let ?rc = "make_ctx env args uni i actor ?ex w"
  let ?sc0 = "\<lparr>sc_stored = [], sc_need = [], sc_stale_ids = [], sc_reasons = [],
                   sc_journal = opening_events env args uni ?rc verified\<rparr>"
  obtain sc where sc: "fold_r (scan_one env uni ?rc w) (ir_verification i) ?sc0 = Inr sc"
    using assms a i c
    by (cases "fold_r (scan_one env uni ?rc w) (ir_verification i) ?sc0") (auto simp: gather_def Let_def)
  let ?pol = "resolve_policy env uni w"
  let ?ph = "sha256_hex (os_digest (ve_os env)) (ve_policy_json env ?pol)"
  let ?rn0 = "\<lparr>rn_fresh = [], rn_journal = sc_journal sc\<rparr>"
  obtain rn w2 where rn: "fold_r (run_one env ?rc ?ph) (sc_need sc) (?rn0, w) = Inr (rn, w2)"
    using assms a i c sc
    by (cases "fold_r (run_one env ?rc ?ph) (sc_need sc) (?rn0, w)") (auto simp: gather_def Let_def)
  have "ro = \<lparr>ro_ctx = ?rc, ro_scan = sc, ro_fresh = rn_fresh rn, ro_journal = rn_journal rn,
                ro_stored = sc_stored sc @ map fst (rn_fresh rn), ro_policy = ?pol\<rparr> \<and> w2 = w'"
    using assms a i c sc rn by (simp add: gather_def Let_def)
  then show ?thesis
    using i sc rn
    by (intro exI [of _ i] conjI exI [of _ actor] exI [of _ ?sc0] exI [of _ ?rn0] exI [of _ rn]) simp_all
qed

definition run_policy_hash :: "('w, 'k, 'd) verify_env \<Rightarrow> run_outcome \<Rightarrow> string" where
  "run_policy_hash env ro = sha256_hex (os_digest (ve_os env)) (ve_policy_json env (ro_policy ro))"

lemma gather_all:
  assumes "gather env args uni w = Inr (ro, w')"
  defines "vs \<equiv> ir_verification (rc_ir (ro_ctx ro))"
  shows "\<forall>ev\<in>set (sc_stored (ro_scan ro)). \<exists>v\<in>set vs. reused env uni (ro_ctx ro) w v ev"
    and "\<forall>x\<in>set (ro_fresh ro). snd x = ev_fingerprint (fst x) \<and>
      (\<exists>v\<in>set vs. proved_now env uni (ro_ctx ro) w (run_policy_hash env ro) v (fst x))"
    and "\<forall>v\<in>set vs. (\<exists>ev\<in>set (sc_stored (ro_scan ro)). reused env uni (ro_ctx ro) w v ev) \<or>
      (\<exists>x\<in>set (ro_fresh ro). proved_now env uni (ro_ctx ro) w (run_policy_hash env ro) v (fst x))"
    and "ro_stored ro = sc_stored (ro_scan ro) @ map fst (ro_fresh ro)"
proof -
  let ?i = "rc_ir (ro_ctx ro)" and ?ph = "run_policy_hash env ro"
  let ?Q = "\<lambda>v rn. \<exists>x\<in>set (rn_fresh rn). proved_now env uni (ro_ctx ro) w ?ph v (fst x)"
  obtain sc0 rn0 rn where sc: "fold_r (scan_one env uni (ro_ctx ro) w) (ir_verification ?i) sc0 = Inr (ro_scan ro)"
      "sc_stored sc0 = []" "sc_need sc0 = []"
    and st: "ro_stored ro = sc_stored (ro_scan ro) @ map fst (ro_fresh ro)"
    and rn: "fold_r (run_one env (ro_ctx ro) ?ph) (sc_need (ro_scan ro)) (rn0, w) = Inr (rn, w')"
      "rn_fresh rn0 = []" "rn_fresh rn = ro_fresh ro"
    using gather_Inr [OF assms(1)] unfolding run_policy_hash_def by blast
  have ok: "scan_ok env uni (ro_ctx ro) w ?i (ro_scan ro)"
    using sc by (intro fold_r_invariant [OF sc(1), of "scan_ok env uni (ro_ctx ro) w ?i"])
      (auto simp: scan_ok_def [of _ _ _ _ _ sc0] intro: scan_one_ok)
  show "\<forall>ev\<in>set (sc_stored (ro_scan ro)). \<exists>v\<in>set vs. reused env uni (ro_ctx ro) w v ev"
    using ok by (simp add: scan_ok_def vs_def)
  show "ro_stored ro = sc_stored (ro_scan ro) @ map fst (ro_fresh ro)" by (rule st)
  let ?P = "\<lambda>st. \<forall>x\<in>set (rn_fresh (fst st)). snd x = ev_fingerprint (fst x) \<and>
      (\<exists>v\<in>set vs. proved_now env uni (ro_ctx ro) w ?ph v (fst x))"
  have "?P (rn, w')"
  proof (rule fold_r_invariant [OF rn(1), of ?P])
    show "?P (rn0, w)" using rn(2) by simp
    fix p u u'
    assume p: "p \<in> set (sc_need (ro_scan ro))" and u: "?P u" and step: "run_one env (ro_ctx ro) ?ph p u = Inr u'"
    obtain v where v: "v \<in> set vs" "pending_of env uni (ro_ctx ro) w v p"
      using ok p by (auto simp: scan_ok_def vs_def)
    from step have step': "run_one env (ro_ctx ro) ?ph p (fst u, snd u) = Inr (fst u', snd u')" by simp
    from run_one_ok [OF step' v(2)] obtain ev where
      f: "rn_fresh (fst u') = rn_fresh (fst u) @ [(ev, ev_fingerprint ev)]"
      and pn: "proved_now env uni (ro_ctx ro) w ?ph v ev"
      by blast
    have "\<exists>v\<in>set vs. proved_now env uni (ro_ctx ro) w ?ph v ev" using v(1) pn by blast
    then show "?P u'" using u unfolding f by simp
  qed
  then show "\<forall>x\<in>set (ro_fresh ro). snd x = ev_fingerprint (fst x) \<and>
      (\<exists>v\<in>set vs. proved_now env uni (ro_ctx ro) w ?ph v (fst x))"
    using rn(3) by simp
  have run: "?Q v rn" if p: "p \<in> set (sc_need (ro_scan ro))" and v: "pending_of env uni (ro_ctx ro) w v p" for v p
  proof -
    have "?Q v (fst (rn, w'))"
    proof (rule fold_r_reaches [OF rn(1) p, of "\<lambda>st. ?Q v (fst st)"])
      fix u u' assume "run_one env (ro_ctx ro) ?ph p u = Inr u'"
      then have "run_one env (ro_ctx ro) ?ph p (fst u, snd u) = Inr (fst u', snd u')" by simp
      from run_one_ok [OF this v] show "?Q v (fst u')" by auto
    next
      fix y u u' assume y: "y \<in> set (sc_need (ro_scan ro))" and q: "?Q v (fst u)"
        and step: "run_one env (ro_ctx ro) ?ph y u = Inr u'"
      obtain v' where v': "pending_of env uni (ro_ctx ro) w v' y" using ok y by (auto simp: scan_ok_def)
      from step have "run_one env (ro_ctx ro) ?ph y (fst u, snd u) = Inr (fst u', snd u')" by simp
      from run_one_ok [OF this v'] q show "?Q v (fst u')" by auto
    qed
    then show ?thesis by simp
  qed
  show "\<forall>v\<in>set vs. (\<exists>ev\<in>set (sc_stored (ro_scan ro)). reused env uni (ro_ctx ro) w v ev) \<or>
      (\<exists>x\<in>set (ro_fresh ro). proved_now env uni (ro_ctx ro) w ?ph v (fst x))"
    using scan_looks_at_all [OF sc(1)] run rn(3) by (auto simp: looked_at_def vs_def)
qed

lemma gather_sources:
  assumes "gather env args uni w = Inr (ro, w')" and "ev \<in> set (ro_stored ro)"
  shows "\<exists>v\<in>set (ir_verification (rc_ir (ro_ctx ro))).
    reused env uni (ro_ctx ro) w v ev \<or> proved_now env uni (ro_ctx ro) w (run_policy_hash env ro) v ev"
  using gather_all(1,2,4) [OF assms(1)] assms(2) by auto

subsection \<open>A run that can be computed\<close>

definition demo_env :: "(nat, nat, nat) verify_env" where
  "demo_env =
     \<lparr>ve_os = demo_os (\<lambda>_. Exited (Some 0) ''ok''),
      ve_parse_toml = (\<lambda>_. Some (TTable [(''verifiers'', TTable [(''k'', TString ''true'')])])),
      ve_parse_json = (\<lambda>_. None), ve_rfc3339 = (\<lambda>_. ''now''), ve_stamp = (\<lambda>_. ''1''),
      ve_policy_json = (\<lambda>_. []), ve_to_string = (\<lambda>_. []),
      ve_opa_version = (\<lambda>_. False), ve_opa_eval = (\<lambda>_. OpaAbsent), ve_jwt = demo_jwt,
      ve_read_file = (\<lambda>_ _. None), ve_lock = (\<lambda>_. True), ve_workspace = ''/w'',
      ve_platform = ''linux-x86_64'', ve_user = Some ''dev'', ve_username = None\<rparr>"

definition demo_args :: verify_args where
  "demo_args =
     \<lparr>va_contract = Some demo_source, va_actor = Some ''ci'', va_token = None, va_attest = False\<rparr>"

definition demo_uni :: uni_dir where
  "demo_uni =
     \<lparr>ud_config = Some ''cfg'', ud_evidence = [], ud_bindings = empty_bindings, ud_policies = None,
      ud_registry_hash = None, ud_snapshot = None, ud_stale = None, ud_last = None, ud_journal = []\<rparr>"

lemma demo_load_contract: "load_contract (Some demo_source) = Inr demo_ir"
  using parse_demo compile_demo by (simp add: load_contract_def map_err_def)

lemma demo_registry_loaded:
  "load_registry (ve_parse_toml demo_env) (ud_config demo_uni) = [(''k'', shell_spec ''true'')]"
  by (simp add: demo_env_def demo_uni_def load_registry_def toml_get_def as_table_def bt_get_def
      load_entry_def as_str_def)

lemma demo_run_full:
  "\<exists>ev. run_spec (demo_os (\<lambda>_. Exited (Some 0) out)) c ''k'' (shell_spec cmd) act exe w = Inr (ev, Suc w) \<and>
     ev_state ev = Valid \<and> ev_exit_code ev = 0 \<and> ev_claim_id ev = c \<and> ev_commit_sha ev = ''abc'' \<and>
     \<not> ev_workspace_dirty ev \<and> ev_expires_at ev = None"
proof -
  obtain ev where ev: "run_spec (demo_os (\<lambda>_. Exited (Some 0) out)) c ''k'' (shell_spec cmd) act exe w = Inr (ev, Suc w)"
    using demo_run by blast
  obtain v oc where v: "verifier_for (shell_spec cmd) = Inr v"
    and o: "verifier_run (demo_os (\<lambda>_. Exited (Some 0) out)) v (shell_spec cmd) w = Inr (oc, Suc w)"
    and f: "ev_exit_code ev = oc_exit_code oc" "ev_claim_id ev = c"
      "ev_commit_sha ev = fst (os_git (demo_os (\<lambda>_. Exited (Some 0) out)) (Suc w))"
      "ev_workspace_dirty ev = snd (os_git (demo_os (\<lambda>_. Exited (Some 0) out)) (Suc w))"
      "ev_state ev = (if (vs_files (shell_spec cmd) \<noteq> [] \<and> watched_hash (demo_os (\<lambda>_. Exited (Some 0) out)) (shell_spec cmd) (Suc w) = [])
          \<or> \<not> conditions_met (shell_spec cmd) (oc_output oc) then Invalid else oc_state oc)"
    using run_spec_Inr [OF ev] by blast
  have "v = ShellVerifier" using v by (simp add: verifier_for_def shell_spec_def)
  then have "oc_exit_code oc = 0" "oc_state oc = Valid"
    using o by (auto simp: verifier_run_def run_shell_verifier_def run_shell_def demo_os_def)
  then show ?thesis
    using ev f run_spec_no_expiry [OF ev] by (auto simp: shell_spec_def conditions_met_def)
qed

lemma demo_gather:
  "\<exists>ro. gather demo_env demo_args demo_uni 0 = Inr (ro, 1) \<and> rc_ir (ro_ctx ro) = demo_ir \<and>
     ro_policy ro = default_policy \<and> sc_stale_ids (ro_scan ro) = [] \<and>
     (\<exists>e. ro_stored ro = [e] \<and> ev_claim_id e = ''a'' \<and> ev_state e = Valid \<and> ev_exit_code e = 0 \<and> ev_expires_at e = None)"
proof -
  obtain ev where ev: "run_spec (demo_os (\<lambda>_. Exited (Some 0) ''ok'')) ''a'' ''k'' (shell_spec ''true'')
      (declared ''ci'') (local_actor (Some ''dev'') None) 0 = Inr (ev, Suc 0)"
    "ev_state ev = Valid" "ev_exit_code ev = 0" "ev_claim_id ev = ''a''" "ev_commit_sha ev = ''abc''"
    "\<not> ev_workspace_dirty ev" "ev_expires_at ev = None"
    using demo_run_full by blast
  have t: "\<not> is_selector_template (shell_spec ''true'')" by code_simp
  have env: "ve_os demo_env = demo_os (\<lambda>_. Exited (Some 0) ''ok'')" "ve_user demo_env = Some ''dev''"
    "ve_username demo_env = None"
    by (simp_all add: demo_env_def)
  have uni: "ud_evidence demo_uni = []" "ud_policies demo_uni = None"
    by (simp_all add: demo_uni_def)
  have args: "\<not> va_attest demo_args" "va_contract demo_args = Some demo_source" "va_token demo_args = None"
    "va_actor demo_args = Some ''ci''"
    by (simp_all add: demo_args_def)
  have ver: "ir_verification demo_ir = [\<lparr>vi_claim_id = ''a'', vi_verifier_ref = ''k'',
      vi_inline_shell = None, vi_requirement = None\<rparr>]"
    by (simp add: demo_ir_def)
  have g: "os_git (demo_os (\<lambda>_. Exited (Some 0) ''ok'')) 0 = (''abc'', False)" by simp
  show ?thesis
    using ev t
    by (simp add: gather_def args demo_load_contract choose_actor_def Let_def env ver scan_one_def
        demo_registry_loaded is_template_ref_def bt_get_def require_binding_def resolved_spec_def
        with_selector_def map_err_def load_valid_for_claim_def uni load_file_def scan_outcome_def
        run_one_def resolve_policy_def load_policies_def seal_def is_stale_def g)
qed

lemma demo_verify:
  "\<exists>rep uni'. cmd_verify demo_env demo_args demo_uni 0 = (Inr rep, uni')"
proof -
  obtain ro e where g: "gather demo_env demo_args demo_uni 0 = Inr (ro, 1)" "rc_ir (ro_ctx ro) = demo_ir"
    "ro_policy ro = default_policy" "sc_stale_ids (ro_scan ro) = []" "ro_stored ro = [e]"
    "ev_claim_id e = ''a''" "ev_state e = Valid" "ev_exit_code e = 0"
    using demo_gather by blast
  have "dr_decision (evaluate demo_ir [e]) = Accepted"
    using g(6-8) by (simp add: decision_cases demo_ir_def is_critical_failure_def is_missing_def proven_def
      disproved_def best_evidence_def)
  then have "dr_decision (decide_run demo_ir default_policy [] [e]) = Accepted"
    by (simp add: decide_run_def evaluate_intent_def apply_default escalate_unrenewed_def)
  moreover have "ve_lock demo_env w" for w by (simp add: demo_env_def)
  ultimately show ?thesis
    using g by (simp add: cmd_verify_def verdict_def run_report_def run_decision_def)
qed

subsection \<open>The end-to-end properties\<close>

lemma cmd_verify_Inr:
  assumes "cmd_verify env args uni w = (Inr rep, uni')"
  shows "\<exists>ro w'. gather env args uni w = Inr (ro, w') \<and> ve_lock env w' \<and>
    rep = run_report uni ro \<and> dr_decision (run_decision ro) = Accepted \<and> uni' = save_run env ro w' uni"
  using assms
  by (auto simp: cmd_verify_def verdict_def run_report_def split: sum.splits prod.splits if_splits)

lemma gather_ctx:
  assumes "gather env args uni w = Inr (ro, w')"
  shows "rc_sha (ro_ctx ro) = fst (os_git (ve_os env) w)"
    "rc_dirty (ro_ctx ro) = snd (os_git (ve_os env) w)"
    "rc_registry (ro_ctx ro) = load_registry (ve_parse_toml env) (ud_config uni)"
    "rc_registry_hash (ro_ctx ro) = sha256_hex (os_digest (ve_os env)) (text_or_empty (ud_config uni))"
    "rc_registry_text (ro_ctx ro) = text_or_empty (ud_config uni)"
    "load_contract (va_contract args) = Inr (rc_ir (ro_ctx ro))"
proof -
  obtain i actor where "load_contract (va_contract args) = Inr i" and i: "rc_ir (ro_ctx ro) = i"
    and c: "ro_ctx ro = make_ctx env args uni i actor (local_actor (ve_user env) (ve_username env)) w"
    using gather_Inr [OF assms] by blast
  then show "load_contract (va_contract args) = Inr (rc_ir (ro_ctx ro))" by simp
  show "rc_sha (ro_ctx ro) = fst (os_git (ve_os env) w)"
    "rc_dirty (ro_ctx ro) = snd (os_git (ve_os env) w)"
    "rc_registry (ro_ctx ro) = load_registry (ve_parse_toml env) (ud_config uni)"
    "rc_registry_hash (ro_ctx ro) = sha256_hex (os_digest (ve_os env)) (text_or_empty (ud_config uni))"
    "rc_registry_text (ro_ctx ro) = text_or_empty (ud_config uni)"
    unfolding c by simp_all
qed

lemma decide_run_Accepted:
  assumes "dr_decision (decide_run i pol ids stored) = Accepted"
  shows "dr_decision (evaluate i stored) = Accepted"
proof -
  let ?r = "apply_policy (evaluate i stored) pol"
  have "dr_decision ?r = Accepted"
    using assms by (auto simp: decide_run_def evaluate_intent_def escalate_unrenewed_def decide_def split: if_splits)
  then show ?thesis by (auto simp: apply_policy_def decide_def Let_def split: if_splits)
qed

text \<open>
  C1. No false accept, end to end: if \<open>uni verify\<close> succeeds, the contract parsed and compiled,
  and for each of its required or critical claims the run holds a valid record about it with
  exit code 0, which is either a stored proof that covers the context of one of the contract's
  verifications (same commit, dirtiness, registry, contract, platform, watched files and
  binding, not expired) or the outcome of a verifier run now under an authorized specification
  of one of them.
\<close>

theorem verify_no_false_accept:
  assumes "cmd_verify env args uni w = (Inr rep, uni')"
  shows "\<exists>i rc ph. load_contract (va_contract args) = Inr i \<and> rc_ir rc = i \<and>
    rc_sha rc = fst (os_git (ve_os env) w) \<and>
    rc_registry rc = load_registry (ve_parse_toml env) (ud_config uni) \<and>
    (\<forall>c\<in>set (ir_claims i). ci_required c \<or> ci_critical c \<longrightarrow>
       (\<exists>ev\<in>set (vr_evidence rep). ev_claim_id ev = ci_id c \<and> ev_state ev = Valid \<and> ev_exit_code ev = 0 \<and>
          (\<exists>v\<in>set (ir_verification i). reused env uni rc w v ev \<or> proved_now env uni rc w ph v ev)))"
proof -
  obtain ro w' where g: "gather env args uni w = Inr (ro, w')" and rep: "rep = run_report uni ro"
    and acc: "dr_decision (run_decision ro) = Accepted"
    using cmd_verify_Inr [OF assms] by blast
  let ?i = "rc_ir (ro_ctx ro)"
  have ev: "dr_decision (evaluate ?i (ro_stored ro)) = Accepted"
    using acc decide_run_Accepted unfolding run_decision_def by blast
  have "\<exists>ev\<in>set (vr_evidence rep). ev_claim_id ev = ci_id c \<and> ev_state ev = Valid \<and> ev_exit_code ev = 0 \<and>
      (\<exists>v\<in>set (ir_verification ?i). reused env uni (ro_ctx ro) w v ev \<or>
         proved_now env uni (ro_ctx ro) w (run_policy_hash env ro) v ev)"
    if c: "c \<in> set (ir_claims ?i)" and req: "ci_required c \<or> ci_critical c" for c
  proof -
    obtain x where x: "x \<in> set (ro_stored ro)" "ev_claim_id x = ci_id c" "ev_state x = Valid" "ev_exit_code x = 0"
      using accepted_evidence [OF ev c req] by blast
    then show ?thesis using gather_sources [OF g x(1)] by (auto simp: rep run_report_def)
  qed
  then show ?thesis
    using gather_ctx [OF g]
    by (intro exI [of _ ?i] exI [of _ "ro_ctx ro"] exI [of _ "run_policy_hash env ro"]) simp
qed

theorem verify_no_false_accept_witness:
  "\<exists>rep uni'. cmd_verify demo_env demo_args demo_uni 0 = (Inr rep, uni') \<and>
     (\<exists>ev\<in>set (vr_evidence rep). ev_claim_id ev = ''a'' \<and> ev_state ev = Valid)"
proof -
  obtain rep uni' where v: "cmd_verify demo_env demo_args demo_uni 0 = (Inr rep, uni')"
    using demo_verify by blast
  have l: "load_contract (va_contract demo_args) = Inr demo_ir"
    using demo_load_contract by (simp add: demo_args_def)
  from verify_no_false_accept [OF v] l obtain rc ph where
    a: "\<forall>c\<in>set (ir_claims demo_ir). ci_required c \<or> ci_critical c \<longrightarrow>
       (\<exists>ev\<in>set (vr_evidence rep). ev_claim_id ev = ci_id c \<and> ev_state ev = Valid \<and> ev_exit_code ev = 0 \<and>
          (\<exists>v\<in>set (ir_verification demo_ir). reused demo_env demo_uni rc 0 v ev \<or> proved_now demo_env demo_uni rc 0 ph v ev))"
    by auto
  have "\<exists>ev\<in>set (vr_evidence rep). ev_claim_id ev = ''a'' \<and> ev_state ev = Valid"
    using a by (auto simp: demo_ir_def)
  then show ?thesis using v by blast
qed

text \<open>The specification that runs is the registry's, up to an authorized selector.\<close>

definition trusted_spec :: "uni_dir \<Rightarrow> registry \<Rightarrow> verification_ir \<Rightarrow> verifier_spec \<Rightarrow> bool" where
  "trusted_spec uni reg v s \<longleftrightarrow>
     (\<exists>k t. (k, t) \<in> set reg \<and> vs_kind s = vs_kind t \<and>
        (vs_run s = vs_run t \<or>
         (\<exists>b sel. load_binding (ud_bindings uni) (vi_claim_id v) = Some b \<and> vb_verifier_ref b = k \<and>
            vb_requirement b = text_or_empty (vi_requirement v) \<and> vb_selector b = Some sel \<and> trim sel \<noteq> [] \<and>
            vs_run s = replace_str (vs_run t) SELECTOR_TOKEN sel)))"

lemma require_binding_template:
  assumes "require_binding bs c r q True = Inr res"
  shows "\<exists>b. load_binding bs c = Some b \<and> vb_verifier_ref b = r \<and> vb_requirement b = text_or_empty q \<and>
    rs_selector res = vb_selector b"
  using assms by (auto simp: require_binding_def Let_def split: option.splits if_splits)

lemma authorized_is_trusted:
  assumes "authorized_spec uni reg v s binding" and "reg \<noteq> []"
  shows "trusted_spec uni reg v s"
proof -
  obtain res where r: "require_binding (ud_bindings uni) (vi_claim_id v) (vi_verifier_ref v) (vi_requirement v)
          (is_template_ref reg (vi_verifier_ref v)) = Inr res"
    and s: "(case bt_get reg (vi_verifier_ref v) of
           Some base \<Rightarrow> with_selector base (rs_selector res) = Inr s
         | None \<Rightarrow> resolve_command (vi_verifier_ref v) (vi_inline_shell v) reg = Inr s)"
    using assms(1) unfolding authorized_spec_def by blast
  show ?thesis
  proof (cases "bt_get reg (vi_verifier_ref v)")
    case None
    then have "resolve_command (vi_verifier_ref v) (vi_inline_shell v) reg = Inr s" using s by simp
    from resolve_registry [OF this assms(2)] show ?thesis unfolding trusted_spec_def by metis
  next
    case (Some base)
    then have w: "with_selector base (rs_selector res) = Inr s" using s by simp
    have mem: "(vi_verifier_ref v, base) \<in> set reg" using Some by (rule registry_get_mem)
    show ?thesis
    proof (cases "is_selector_template base")
      case False
      then have "s = base" using w by (simp add: with_selector_def)
      then show ?thesis unfolding trusted_spec_def using mem by blast
    next
      case True
      then obtain sel where sel: "rs_selector res = Some sel" "trim sel \<noteq> []"
        "s = base\<lparr>vs_run := replace_str (vs_run base) SELECTOR_TOKEN sel\<rparr>"
        using w by (auto simp: with_selector_def split: option.splits if_splits)
      have "is_template_ref reg (vi_verifier_ref v) = True" using Some True by (simp add: is_template_ref_def)
      note require_binding_template [OF r [unfolded this]]
      then obtain b where "load_binding (ud_bindings uni) (vi_claim_id v) = Some b"
        "vb_verifier_ref b = vi_verifier_ref v" "vb_requirement b = text_or_empty (vi_requirement v)"
        "rs_selector res = vb_selector b"
        by blast
      moreover from this have "vb_selector b = Some sel" using sel(1) by simp
      ultimately show ?thesis
        unfolding trusted_spec_def using mem sel(2,3)
        by (intro exI [of _ "vi_verifier_ref v"] exI [of _ base]) auto
    qed
  qed
qed

text \<open>
  C2. The registry is the only source of commands: with a non-empty registry, whatever a run
  of \<open>uni verify\<close> executed was, for one of the contract's verifications, a specification of the
  registry's kind and command, the selector of a template being the one a human authorized for
  that claim, that verifier and that requirement. Inline text of a contract is never run
  unless the registry has it.
\<close>

theorem verify_runs_trusted:
  assumes "gather env args uni w = Inr (ro, w')"
    and "load_registry (ve_parse_toml env) (ud_config uni) \<noteq> []" and "ev \<in> set (ro_stored ro)"
  shows "\<exists>v\<in>set (ir_verification (rc_ir (ro_ctx ro))). reused env uni (ro_ctx ro) w v ev \<or>
    (\<exists>s binding w1 w2 ev0.
       run_spec (ve_os env) (vi_claim_id v) (vi_verifier_ref v) s (rc_actor (ro_ctx ro)) (rc_executor (ro_ctx ro)) w1 = Inr (ev0, w2) \<and>
       ev = seal env (ro_ctx ro) (run_policy_hash env ro) binding ev0 \<and>
       trusted_spec uni (load_registry (ve_parse_toml env) (ud_config uni)) v s)"
proof -
  obtain v where v: "v \<in> set (ir_verification (rc_ir (ro_ctx ro)))"
    and src: "reused env uni (ro_ctx ro) w v ev \<or> proved_now env uni (ro_ctx ro) w (run_policy_hash env ro) v ev"
    using gather_sources [OF assms(1,3)] by blast
  have reg: "rc_registry (ro_ctx ro) = load_registry (ve_parse_toml env) (ud_config uni)"
    using gather_ctx(3) [OF assms(1)] .
  show ?thesis
    using src
  proof
    assume "reused env uni (ro_ctx ro) w v ev"
    then show ?thesis using v by blast
  next
    assume "proved_now env uni (ro_ctx ro) w (run_policy_hash env ro) v ev"
    then obtain s binding w1 w2 ev0 where a: "authorized_spec uni (rc_registry (ro_ctx ro)) v s binding"
      and r: "run_spec (ve_os env) (vi_claim_id v) (vi_verifier_ref v) s (rc_actor (ro_ctx ro)) (rc_executor (ro_ctx ro)) w1 = Inr (ev0, w2)"
      and e: "ev = seal env (ro_ctx ro) (run_policy_hash env ro) binding ev0"
      unfolding proved_now_def by blast
    have "trusted_spec uni (load_registry (ve_parse_toml env) (ud_config uni)) v s"
      using authorized_is_trusted [OF a] assms(2) reg by simp
    then show ?thesis using v r e by blast
  qed
qed

theorem verify_runs_trusted_witness:
  "load_registry (ve_parse_toml demo_env) (ud_config demo_uni) = [(''k'', shell_spec ''true'')] \<and>
   (\<exists>ro ev. gather demo_env demo_args demo_uni 0 = Inr (ro, 1) \<and> ev \<in> set (ro_stored ro) \<and>
     (\<exists>v\<in>set (ir_verification demo_ir). reused demo_env demo_uni (ro_ctx ro) 0 v ev \<or>
        (\<exists>s. trusted_spec demo_uni [(''k'', shell_spec ''true'')] v s)))"
proof -
  obtain ro e where g: "gather demo_env demo_args demo_uni 0 = Inr (ro, 1)" "rc_ir (ro_ctx ro) = demo_ir"
    "ro_stored ro = [e]"
    using demo_gather by blast
  have "e \<in> set (ro_stored ro)" using g(3) by simp
  from verify_runs_trusted [OF g(1) _ this] demo_registry_loaded g show ?thesis by auto
qed

end
