(* ===== verification/Verify_State.thy ===== *)
theory Verify_State
  imports Verify_Facts
begin

section \<open>What a verify run leaves in .uni\<close>

text \<open>
  The authorization gate over all verifications, the parts of the directory that a run never
  writes, the state after a run that does not complete and after one that does, and which
  proofs the next run can find.
\<close>

subsection \<open>The gate\<close>

lemma scan_requires:
  assumes "fold_r (scan_one env uni rc w) vs sc0 = Inr sc" and "v \<in> set vs"
  shows "\<exists>res spec.
    require_binding (ud_bindings uni) (vi_claim_id v) (vi_verifier_ref v) (vi_requirement v)
      (is_template_ref (rc_registry rc) (vi_verifier_ref v)) = Inr res \<and>
    resolved_spec (rc_registry rc) (vi_verifier_ref v) (rs_selector res) = Inr spec"
proof -
  obtain u u' where "scan_one env uni rc w v u = Inr u'"
    using fold_r_steps [OF assms(1), of "\<lambda>_. True" v] assms(2) by blast
  from scan_one_Inr [OF this] show ?thesis by blast
qed

definition gated :: "registry \<Rightarrow> verification_ir \<Rightarrow> bool" where
  "gated reg v \<longleftrightarrow> vi_requirement v \<noteq> None \<or> is_template_ref reg (vi_verifier_ref v)"

definition authorized :: "bindings_state \<Rightarrow> registry \<Rightarrow> verification_ir \<Rightarrow> bool" where
  "authorized bs reg v \<longleftrightarrow>
     (\<exists>b. load_binding bs (vi_claim_id v) = Some b \<and> vb_verifier_ref b = vi_verifier_ref v \<and>
        vb_requirement b = text_or_empty (vi_requirement v) \<and>
        (is_template_ref reg (vi_verifier_ref v) \<longrightarrow> trim (text_or_empty (vb_selector b)) \<noteq> []))"

lemma require_binding_iff:
  "(\<exists>res. require_binding bs (vi_claim_id v) (vi_verifier_ref v) (vi_requirement v)
        (is_template_ref reg (vi_verifier_ref v)) = Inr res) \<longleftrightarrow> (gated reg v \<longrightarrow> authorized bs reg v)"
  by (auto simp: require_binding_def Let_def gated_def authorized_def split: option.splits)

text \<open>
  C4. The authorization gate is complete: a run that gets past the scan (whether it is then
  accepted or not) has, for every verification that states a requirement or uses a selector
  template, a binding of that claim to that verifier and requirement, with a selector if it is
  a template. Otherwise it stops before it runs anything.
\<close>

theorem verify_gate:
  assumes "gather env args uni w = Inr (ro, w')" and "v \<in> set (ir_verification (rc_ir (ro_ctx ro)))"
    and "gated (load_registry (ve_parse_toml env) (ud_config uni)) v"
  shows "authorized (ud_bindings uni) (load_registry (ve_parse_toml env) (ud_config uni)) v"
proof -
  obtain sc0 where "fold_r (scan_one env uni (ro_ctx ro) w) (ir_verification (rc_ir (ro_ctx ro))) sc0 = Inr (ro_scan ro)"
    using gather_Inr [OF assms(1)] by blast
  from scan_requires [OF this assms(2)] show ?thesis
    using require_binding_iff assms(3) gather_ctx(3) [OF assms(1)] by metis
qed

definition gated_ir :: ir where
  "gated_ir = demo_ir\<lparr>ir_verification := [\<lparr>vi_claim_id = ''a'', vi_verifier_ref = ''k'',
      vi_inline_shell = None, vi_requirement = Some ''behaves''\<rparr>]\<rparr>"

definition gated_source :: string where
  "gated_source = demo_source @ [nl] @ ''REQUIRE behaves''"

definition gated_args :: verify_args where
  "gated_args = demo_args\<lparr>va_contract := Some gated_source\<rparr>"

lemma gated_load: "load_contract (Some gated_source) = Inr gated_ir"
  by code_simp

text \<open>Without the binding, the run is refused and changes nothing.\<close>

theorem verify_gate_witness: "fst (cmd_verify demo_env gated_args demo_uni 0) = Inl (NoBinding ''a'')"
proof -
  have "\<nexists>ro w'. gather demo_env gated_args demo_uni 0 = Inr (ro, w')"
  proof
    assume "\<exists>ro w'. gather demo_env gated_args demo_uni 0 = Inr (ro, w')"
    then obtain ro w' where g: "gather demo_env gated_args demo_uni 0 = Inr (ro, w')" by blast
    have i: "rc_ir (ro_ctx ro) = gated_ir"
      using gather_ctx(6) [OF g] gated_load by (simp add: gated_args_def)
    have "authorized (ud_bindings demo_uni) (load_registry (ve_parse_toml demo_env) (ud_config demo_uni))
        (hd (ir_verification gated_ir))"
      by (rule verify_gate [OF g]) (simp_all add: i gated_ir_def gated_def)
    then show False
      by (simp add: authorized_def gated_ir_def demo_uni_def load_binding_def load_all_def
          empty_bindings_def read_bindings_def)
  qed
  moreover have "load_binding (ud_bindings demo_uni) ''a'' = None"
    by (simp add: demo_uni_def load_binding_def load_all_def empty_bindings_def read_bindings_def)
  moreover have "va_contract gated_args = Some gated_source" "\<not> va_attest gated_args" "va_token gated_args = None"
    by (simp_all add: gated_args_def demo_args_def)
  ultimately show ?thesis
    by (simp add: cmd_verify_def gather_def gated_load choose_actor_def Let_def gated_ir_def scan_one_def
        require_binding_def split: sum.splits)
qed

subsection \<open>What a run never writes\<close>

lemma persist_frame [simp]:
  "ud_config (persist env rc fr j l w uni) = ud_config uni"
  "ud_bindings (persist env rc fr j l w uni) = ud_bindings uni"
  "ud_policies (persist env rc fr j l w uni) = ud_policies uni"
  "ud_stale (persist env rc fr j l w uni) = ud_stale uni"
  "ud_evidence (persist env rc fr j l w uni) = save_fresh fr (ud_evidence uni)"
  "ud_registry_hash (persist env rc fr j l w uni) = Some (rc_registry_hash rc)"
  "ud_snapshot (persist env rc fr j l w uni) = Some (rc_registry_text rc)"
  "ud_last (persist env rc fr j l w uni) = Some l"
  by (simp_all add: persist_def Let_def)

lemma save_drift_frame [simp]:
  "ud_config (save_drift ro uni) = ud_config uni" "ud_bindings (save_drift ro uni) = ud_bindings uni"
  "ud_policies (save_drift ro uni) = ud_policies uni" "ud_evidence (save_drift ro uni) = ud_evidence uni"
  "ud_registry_hash (save_drift ro uni) = ud_registry_hash uni" "ud_snapshot (save_drift ro uni) = ud_snapshot uni"
  "ud_last (save_drift ro uni) = ud_last uni" "ud_journal (save_drift ro uni) = ud_journal uni"
  by (simp_all add: save_drift_def)

text \<open>
  Verifying never authorizes: whatever its outcome, a run leaves the registry, the
  bindings and the policies as they were.
\<close>

theorem verify_never_authorizes:
  "ud_config (snd (cmd_verify env args uni w)) = ud_config uni \<and>
   ud_bindings (snd (cmd_verify env args uni w)) = ud_bindings uni \<and>
   ud_policies (snd (cmd_verify env args uni w)) = ud_policies uni"
  by (auto simp: cmd_verify_def save_run_def split: sum.splits prod.splits)



subsection \<open>What a completed run leaves\<close>

definition completed :: "cmd_error + verify_report \<Rightarrow> verify_report option" where
  "completed res = (case res of Inr rep \<Rightarrow> Some rep | Inl (NotAccepted rep) \<Rightarrow> Some rep | Inl _ \<Rightarrow> None)"

text \<open>The stages before the decision fail with errors of their own.\<close>

lemma gather_no_verdict:
  assumes "gather env args uni w = Inl e"
  shows "e \<noteq> NotAccepted rep"
proof
  assume e: "e = NotAccepted rep"
  have 1: "load_contract f \<noteq> Inl (NotAccepted rep)" for f
    by (cases f) (auto simp: load_contract_def bind_r_Inl_iff map_err_Inl)
  have 2: "choose_actor env args uni ex w \<noteq> Inl (NotAccepted rep)" for ex
    by (auto simp: choose_actor_def Let_def bind_r_Inl_iff map_err_Inl split: option.splits)
  have 3: "scan_one env uni rc w v sc \<noteq> Inl (NotAccepted rep)" for rc v sc
    by (auto simp: scan_one_def bind_r_Inl_iff require_binding_def resolved_spec_def map_err_Inl Let_def
        split: option.splits if_splits)
  have 4: "run_one env rc ph p st \<noteq> Inl (NotAccepted rep)" for rc ph p st
    by (cases st) (auto simp: run_one_def bind_r_Inl_iff map_err_Inl split: option.splits)
  have 5: "fold_r (scan_one env uni rc w) vs sc \<noteq> Inl (NotAccepted rep)" for rc vs sc
    using fold_r_Inl 3 by metis
  have 6: "fold_r (run_one env rc ph) ps st \<noteq> Inl (NotAccepted rep)" for rc ph ps st
    using fold_r_Inl 4 by metis
  show False
    using assms 1 2 5 6 by (auto simp: e gather_def bind_r_Inl_iff Let_def split: if_splits)
qed

lemma verify_completed_run:
  assumes "cmd_verify env args uni w = (res, uni')" and "completed res = Some rep"
  shows "\<exists>ro w'. gather env args uni w = Inr (ro, w') \<and> ve_lock env w' \<and> rep = run_report uni ro \<and>
    uni' = save_run env ro w' uni"
proof (cases "gather env args uni w")
  case (Inl e)
  then show ?thesis
    using assms gather_no_verdict [OF Inl] by (auto simp: cmd_verify_def completed_def split: cmd_error.splits)
next
  case (Inr x)
  then obtain ro w' where "gather env args uni w = Inr (ro, w')" by (cases x) simp
  then show ?thesis
    using assms by (auto simp: cmd_verify_def completed_def verdict_def split: if_splits)
qed

subsection \<open>Which proofs the directory holds afterwards\<close>

definition saved_as :: "evidence \<times> string \<Rightarrow> string \<times> evidence" where
  "saved_as x = (evidence_path (ev_claim_id (fst x)) (snd x), fst x)"

lemma load_save_fresh:
  "load_file (save_fresh fresh d) path =
     (case map_of (rev (map saved_as fresh)) path of Some ev \<Rightarrow> Some ev | None \<Rightarrow> load_file d path)"
proof -
  have "save_fresh fresh d = ed.save_all (map saved_as fresh) d"
    unfolding save_fresh_def ed.save_all_def
    by (induction fresh arbitrary: d) (simp_all add: saved_as_def case_prod_beta)
  then show ?thesis by (simp add: ed.load_save_all)
qed

lemma save_run_frame [simp]:
  "ud_config (save_run env ro w uni) = ud_config uni"
  "ud_bindings (save_run env ro w uni) = ud_bindings uni"
  "ud_evidence (save_run env ro w uni) = save_fresh (ro_fresh ro) (ud_evidence uni)"
  by (simp_all add: save_run_def)

text \<open>
  C23. A completed run, accepted or not, acknowledges the registry it ran under, so that an
  unchanged registry raises no trust-boundary flag again; it records the decision it reports;
  and of the stored proofs it replaces exactly those it made anew, keeping the last one of
  each claim and fingerprint.
\<close>

theorem verify_completed:
  assumes "cmd_verify env args uni w = (res, uni')" and "completed res = Some rep"
    and "byte_digest (os_digest (ve_os env))"
  shows "\<exists>ro w'. gather env args uni w = Inr (ro, w') \<and>
    (\<exists>l. ud_last uni' = Some l \<and> ld_result l = vr_result rep) \<and>
    ud_snapshot uni' = Some (text_or_empty (ud_config uni)) \<and>
    (\<forall>i actor ex w2. \<not> boundary_changed uni' (make_ctx env args uni' i actor ex w2)) \<and>
    (\<forall>path. load_file (ud_evidence uni') path =
       (case map_of (rev (map saved_as (ro_fresh ro))) path of
          Some ev \<Rightarrow> Some ev | None \<Rightarrow> load_file (ud_evidence uni) path))"
proof -
  obtain ro w' where g: "gather env args uni w = Inr (ro, w')" and rep: "rep = run_report uni ro"
    and uni': "uni' = save_run env ro w' uni"
    using verify_completed_run [OF assms(1,2)] by blast
  have "previous_hash uni' = sha256_hex (os_digest (ve_os env)) (text_or_empty (ud_config uni))"
    using gather_ctx(4) [OF g] sha256_hex_trim [OF assms(3)]
    by (simp add: previous_hash_def uni' save_run_def text_or_empty_def)
  then have "\<not> boundary_changed uni' (make_ctx env args uni' i actor ex w2)" for i actor ex w2
    by (simp add: boundary_changed_def uni')
  moreover have "\<exists>l. ud_last uni' = Some l \<and> ld_result l = vr_result rep"
    by (simp add: uni' save_run_def last_of_def rep run_report_def)
  moreover have "ud_snapshot uni' = Some (text_or_empty (ud_config uni))"
    using gather_ctx(5) [OF g] by (simp add: uni' save_run_def)
  ultimately show ?thesis
    using g by (intro exI [of _ ro] exI [of _ w']) (simp add: uni' load_save_fresh)
qed

theorem verify_completed_witness:
  "\<exists>rep uni'. cmd_verify demo_env demo_args demo_uni 0 = (Inr rep, uni') \<and> ud_snapshot uni' = Some ''cfg''"
proof -
  obtain rep uni' where v: "cmd_verify demo_env demo_args demo_uni 0 = (Inr rep, uni')"
    using demo_verify by blast
  have d: "byte_digest (os_digest (ve_os demo_env))"
    by (auto simp: byte_digest_def demo_env_def demo_os_def)
  have c: "completed (Inr rep) = Some rep" by (simp add: completed_def)
  from verify_completed [OF v c d] v show ?thesis by (auto simp: demo_uni_def text_or_empty_def)
qed

subsection \<open>The drift record\<close>

lemma scan_reasons:
  assumes "gather env args uni w = Inr (ro, w')"
  shows "bt_ok (sc_reasons (ro_scan ro)) \<and> (sc_stale_ids (ro_scan ro) = [] \<longrightarrow> sc_reasons (ro_scan ro) = [])"
proof -
  let ?P = "\<lambda>sc. bt_ok (sc_reasons sc) \<and> (sc_stale_ids sc = [] \<longrightarrow> sc_reasons sc = [])"
  obtain sc0 where sc: "fold_r (scan_one env uni (ro_ctx ro) w) (ir_verification (rc_ir (ro_ctx ro))) sc0 = Inr (ro_scan ro)"
    "sc_reasons sc0 = []"
    using gather_Inr [OF assms] by blast
  show ?thesis
  proof (rule fold_r_invariant [OF sc(1), of ?P])
    show "?P sc0" using sc(2) by simp
    fix v u u' assume P: "?P u" and s: "scan_one env uni (ro_ctx ro) w v u = Inr u'"
    obtain p oc where "u' = scan_outcome (ro_ctx ro) v p oc u" using scan_one_Inr [OF s] by blast
    then show "?P u'"
      using P by (cases oc) (auto simp: scan_outcome_def Let_def intro: bt_ok_insert)
  qed
qed

lemmas reasons_ok = scan_reasons [THEN conjunct1] and reasons_of_stale = scan_reasons [THEN conjunct2, rule_format]

text \<open>
  C25. A claim that went stale keeps its reasons until it is proved again: after a run the
  drift record holds, for a claim the decision reports as valid, nothing; for any other claim
  the reasons found in this run, or else those recorded before.
\<close>

theorem drift_record_exact:
  assumes "gather env args uni w = Inr (ro, w')"
    and "bt_ok (case ud_stale uni of Some d \<Rightarrow> d | None \<Rightarrow> [])"
  shows "\<exists>d. ud_stale (save_drift ro uni) = Some d \<and> bt_ok d \<and>
    (\<forall>c. bt_get d c =
       (if \<exists>x\<in>set (dr_claims (run_decision ro)). cr_claim_id x = c \<and> cr_state x = Valid then None
        else case bt_get (sc_reasons (ro_scan ro)) c of
               Some rs \<Rightarrow> Some rs
             | None \<Rightarrow> Option.bind (ud_stale uni) (\<lambda>old. bt_get old c)))"
proof -
  let ?old = "case ud_stale uni of Some d \<Rightarrow> d | None \<Rightarrow> []"
  let ?new = "sc_reasons (ro_scan ro)"
  have g: "bt_get (fold (\<lambda>(i, rs). bt_insert i rs) ?new ?old) c =
      (case bt_get ?new c of None \<Rightarrow> bt_get ?old c | Some rs \<Rightarrow> Some rs)" for c
    by (simp add: bt.get_fold_ins [OF assms(2)] bt_rev_get [OF reasons_ok [OF assms(1)]])
  have ok: "bt_ok (fold (\<lambda>(i, rs). bt_insert i rs) ?new ?old)" by (rule bt.ok_fold_ins [OF assms(2)])
  have v: "c \<in> set (valid_ids (run_decision ro)) \<longleftrightarrow>
      (\<exists>x\<in>set (dr_claims (run_decision ro)). cr_claim_id x = c \<and> cr_state x = Valid)" for c
    by (auto simp: valid_ids_def)
  have o: "bt_get ?old c = Option.bind (ud_stale uni) (\<lambda>old. bt_get old c)" for c
    by (cases "ud_stale uni") simp_all
  let ?d = "next_drift uni (ro_scan ro) (run_decision ro)"
  have "bt_ok ?d" unfolding next_drift_def by (rule bt.ok_fold_del [OF ok])
  moreover have "bt_get ?d c =
       (if \<exists>x\<in>set (dr_claims (run_decision ro)). cr_claim_id x = c \<and> cr_state x = Valid then None
        else case bt_get ?new c of Some rs \<Rightarrow> Some rs | None \<Rightarrow> Option.bind (ud_stale uni) (\<lambda>old. bt_get old c))" for c
    unfolding next_drift_def bt.get_fold_del [OF ok] v g o by (simp split: option.split)
  ultimately show ?thesis by (simp add: save_drift_def)
qed

lemma gather_ignores_drift:
  "gather env args (uni\<lparr>ud_stale := d\<rparr>) w = gather env args uni w"
proof -
  have 1: "make_ctx env args (uni\<lparr>ud_stale := d\<rparr>) = make_ctx env args uni"
    by (simp add: make_ctx_def fun_eq_iff)
  have 2: "scan_one env (uni\<lparr>ud_stale := d\<rparr>) = scan_one env uni"
    by (simp add: scan_one_def fun_eq_iff)
  have 3: "opening_events env args (uni\<lparr>ud_stale := d\<rparr>) = opening_events env args uni"
    by (simp add: opening_events_def boundary_changed_def boundary_diff_def previous_hash_def fun_eq_iff)
  have 4: "choose_actor env args (uni\<lparr>ud_stale := d\<rparr>) = choose_actor env args uni"
    by (simp add: choose_actor_def fun_eq_iff Let_def split: option.split)
  have 5: "resolve_policy env (uni\<lparr>ud_stale := d\<rparr>) = resolve_policy env uni"
    by (simp add: resolve_policy_def fun_eq_iff)
  show ?thesis unfolding gather_def 1 2 3 4 5 ..
qed

theorem drift_record_exact_witness:
  "\<exists>ro d. gather demo_env demo_args (demo_uni\<lparr>ud_stale := Some [(''a'', []), (''b'', [Expired ''x''])]\<rparr>) 0 = Inr (ro, 1) \<and>
     ud_stale (save_drift ro (demo_uni\<lparr>ud_stale := Some [(''a'', []), (''b'', [Expired ''x''])]\<rparr>)) = Some d \<and>
     bt_get d ''a'' = None \<and> bt_get d ''b'' = Some [Expired ''x'']"
proof -
  let ?uni = "demo_uni\<lparr>ud_stale := Some [(''a'', []), (''b'', [Expired ''x''])]\<rparr>"
  obtain ro e where r: "gather demo_env demo_args demo_uni 0 = Inr (ro, 1)" "rc_ir (ro_ctx ro) = demo_ir"
    "ro_policy ro = default_policy" "ro_stored ro = [e]" "ev_claim_id e = ''a''" "ev_state e = Valid"
    "ev_exit_code e = 0" "sc_stale_ids (ro_scan ro) = []"
    using demo_gather by blast
  have g: "gather demo_env demo_args ?uni 0 = Inr (ro, 1)" using r(1) by (simp add: gather_ignores_drift)
  have cl: "map (\<lambda>x. (cr_claim_id x, cr_state x)) (dr_claims (run_decision ro)) = [(''a'', Valid)]"
    using r by (simp add: run_decision_def decide_run_def evaluate_intent_def apply_default escalate_unrenewed_def
        evaluate_def demo_ir_def evaluate_claim_def push_result_def Let_def)
  have b: "bt_ok (case ud_stale ?uni of Some d \<Rightarrow> d | None \<Rightarrow> [])" by (simp add: bt_ok_def bt_keys_def)
  have n: "sc_reasons (ro_scan ro) = []" using reasons_of_stale [OF r(1)] r(8) by simp
  have va: "\<exists>x\<in>set (dr_claims (run_decision ro)). cr_claim_id x = ''a'' \<and> cr_state x = Valid"
    and vb: "\<not> (\<exists>x\<in>set (dr_claims (run_decision ro)). cr_claim_id x = ''b'' \<and> cr_state x = Valid)"
    using cl by (auto simp: map_eq_Cons_conv)
  from drift_record_exact [OF g b] g va vb show ?thesis by (auto simp: n bt_get_def)
qed

end
