(* ===== verification/Verify_Again.thy ===== *)
theory Verify_Again
  imports Verify_State
begin

section \<open>Verifying again\<close>

text \<open>
  Two runs in a row: what the first one proved the second one reuses, when nothing changed in
  between; and what the cache can do wrong, a record with the state \<open>Stale\<close> that is reused for
  ever.
\<close>

subsection \<open>One context per verification\<close>

lemma verification_context_unique:
  "verification_context env uni rc w v ctx \<Longrightarrow> verification_context env uni rc w v ctx' \<Longrightarrow> ctx = ctx'"
  by (auto simp: verification_context_def)

lemma reused_unique: "reused env uni rc w v e \<Longrightarrow> reused env uni rc w v e' \<Longrightarrow> e = e'"
  unfolding reused_def using verification_context_unique by fastforce

text \<open>What of a run the context of a verification depends on.\<close>

definition same_context :: "run_ctx \<Rightarrow> run_ctx \<Rightarrow> bool" where
  "same_context rc rc' \<longleftrightarrow>
     rc_registry rc' = rc_registry rc \<and> ac_id (rc_actor rc') = ac_id (rc_actor rc) \<and>
     rc_sha rc' = rc_sha rc \<and> rc_dirty rc' = rc_dirty rc \<and>
     rc_registry_hash rc' = rc_registry_hash rc \<and> rc_contract_hash rc' = rc_contract_hash rc"

lemma verification_context_cong:
  assumes "same_context rc rc'" and "ud_bindings uni' = ud_bindings uni" and "os_tree (ve_os env) = (\<lambda>_. t)"
  shows "verification_context env uni' rc' w' v ctx \<longleftrightarrow> verification_context env uni rc w v ctx"
proof -
  have "context_for env rc' ref spec bh w' = context_for env rc ref spec bh w" for ref spec bh
    using assms(1,3) by (simp add: context_for_def same_context_def Let_def split: option.split)
  then show ?thesis using assms(1,2) by (simp add: verification_context_def same_context_def)
qed

lemma next_run_context:
  assumes "gather env args uni w = Inr (ro, w1)" and "gather env args uni' w2 = Inr (ro2, w3)"
    and "ud_config uni' = ud_config uni" and "os_git (ve_os env) = (\<lambda>_. g)"
    and "ac_id (rc_actor (ro_ctx ro2)) = ac_id (rc_actor (ro_ctx ro))"
  shows "same_context (ro_ctx ro) (ro_ctx ro2) \<and> rc_ir (ro_ctx ro2) = rc_ir (ro_ctx ro)"
proof -
  obtain i actor i2 actor2 where "load_contract (va_contract args) = Inr i" "load_contract (va_contract args) = Inr i2"
    and c: "ro_ctx ro = make_ctx env args uni i actor (local_actor (ve_user env) (ve_username env)) w"
      "ro_ctx ro2 = make_ctx env args uni' i2 actor2 (local_actor (ve_user env) (ve_username env)) w2"
    using gather_Inr [OF assms(1)] gather_Inr [OF assms(2)] by blast
  then show ?thesis using assms(3-5) by (simp add: same_context_def)
qed

subsection \<open>A new proof covers its context\<close>

definition unexpired :: "int \<Rightarrow> evidence \<Rightarrow> bool" where
  "unexpired now ev \<longleftrightarrow> (case ev_expires_at ev of None \<Rightarrow> True | Some e \<Rightarrow> now < e)"

lemma proved_now_covers:
  assumes "proved_now env uni rc w ph v ev" and "bt_get (rc_registry rc) (vi_verifier_ref v) \<noteq> None"
    and "os_git (ve_os env) = (\<lambda>_. (rc_sha rc, rc_dirty rc))" and "os_tree (ve_os env) = (\<lambda>_. t)"
  shows "\<exists>ctx. verification_context env uni rc w v ctx \<and> ev_fingerprint ev = cx_fingerprint ctx \<and>
    ev_claim_id ev = vi_claim_id v \<and> (\<forall>now. unexpired now ev \<longrightarrow> covers now ctx ev)"
proof -
  obtain base where base: "bt_get (rc_registry rc) (vi_verifier_ref v) = Some base" using assms(2) by blast
  obtain s binding w1 w2 ev0 res where
    r: "require_binding (ud_bindings uni) (vi_claim_id v) (vi_verifier_ref v) (vi_requirement v)
          (is_template_ref (rc_registry rc) (vi_verifier_ref v)) = Inr res" "binding = rs_binding_hash res"
    and s: "with_selector base (rs_selector res) = Inr s"
    and run: "run_spec (ve_os env) (vi_claim_id v) (vi_verifier_ref v) s (rc_actor rc) (rc_executor rc) w1 = Inr (ev0, w2)"
    and ev: "ev = seal env rc ph binding ev0"
    using assms(1) base unfolding proved_now_def authorized_spec_def by auto
  let ?ctx = "context_for env rc (vi_verifier_ref v) (Some s) binding w"
  have c: "verification_context env uni rc w v ?ctx"
    unfolding verification_context_def using r s base
    by (intro exI [of _ res] exI [of _ "Some s"]) (simp add: resolved_spec_def map_err_def)
  have f: "ev_fingerprint ev0 = cx_fingerprint ?ctx" "ev_claim_id ev0 = vi_claim_id v"
    "ev_artifact_hash ev0 = watched_hash (ve_os env) s w2"
    "ev_commit_sha ev0 = rc_sha rc" "ev_workspace_dirty ev0 = rc_dirty rc"
    using run_spec_Inr [OF run] assms(3) by (auto simp: context_for_def Let_def)
  have n: "\<not> is_stale ev0 (rc_sha rc) (rc_dirty rc)" using f(4,5) by (simp add: is_stale_def)
  have "covers now ?ctx ev" if "unexpired now ev" for now
    using that n f(3-5) assms(4) unfolding ev
    by (auto simp: covers_def seal_def Let_def context_for_def is_stale_def bound_def watched_hash_def
        unexpired_def text_or_empty_def split: option.splits)
  then show ?thesis
    using c f(1,2) by (intro exI [of _ ?ctx]) (simp add: ev seal_def Let_def)
qed

lemma registry_fingerprint:
  assumes "verification_context env uni rc w v ctx" and "bt_get (rc_registry rc) (vi_verifier_ref v) \<noteq> None"
    and "byte_digest (os_digest (ve_os env))"
  shows "CHR ''_'' \<notin> set (cx_fingerprint ctx)"
proof -
  obtain s bh where "ctx = context_for env rc (vi_verifier_ref v) (Some s) bh w"
    using assms(1,2) by (auto simp: verification_context_def resolved_spec_def bind_r_Inr_iff split: option.splits)
  then have "set (cx_fingerprint ctx) \<subseteq> set ''0123456789abcdef''"
    using sha256_hex_range [OF assms(3)] set_take_subset
    by (fastforce simp: context_for_def Let_def spec_fingerprint_def)
  then show ?thesis by auto
qed

lemma evidence_path_claim:
  assumes "CHR ''_'' \<notin> set fp" and "CHR ''_'' \<notin> set fp'"
  shows "evidence_path c fp = evidence_path c' fp' \<longleftrightarrow> c = c' \<and> fp = fp'"
  using evidence_path_inject [OF assms] by blast

subsection \<open>What the first run leaves for the second\<close>

definition is_key :: "('w, 'k, 'd) verify_env \<Rightarrow> uni_dir \<Rightarrow> verification_ir \<Rightarrow> bool" where
  "is_key env uni v \<longleftrightarrow> bt_get (load_registry (ve_parse_toml env) (ud_config uni)) (vi_verifier_ref v) \<noteq> None"

text \<open>The file of a verification holds, after the run, what the run decided on.\<close>

lemma file_after_run:
  assumes g: "gather env args uni w = Inr (ro, w1)"
    and still: "os_git (ve_os env) = (\<lambda>_. (sha, dirty))" "os_tree (ve_os env) = (\<lambda>_. t)"
    and bytes: "byte_digest (os_digest (ve_os env))"
    and one: "distinct (map vi_claim_id (ir_verification (rc_ir (ro_ctx ro))))"
    and keys: "\<forall>v\<in>set (ir_verification (rc_ir (ro_ctx ro))). is_key env uni v"
    and v: "v \<in> set (ir_verification (rc_ir (ro_ctx ro)))"
  shows "\<exists>ctx e. verification_context env uni (ro_ctx ro) w v ctx \<and>
    load_file (save_fresh (ro_fresh ro) (ud_evidence uni)) (evidence_path (vi_claim_id v) (cx_fingerprint ctx)) = Some e \<and>
    ev_fingerprint e = cx_fingerprint ctx \<and> (\<forall>now. unexpired now e \<longrightarrow> covers now ctx e) \<and>
    (\<exists>e1\<in>set (ro_stored ro). \<forall>ex. e\<lparr>ev_executor := ex\<rparr> = e1\<lparr>ev_executor := ex\<rparr>)"
proof -
  let ?vs = "ir_verification (rc_ir (ro_ctx ro))" and ?rc = "ro_ctx ro" and ?ph = "run_policy_hash env ro"
  have sd: "os_git (ve_os env) = (\<lambda>_. (rc_sha ?rc, rc_dirty ?rc))"
    using gather_ctx(1,2) [OF g] still(1) by simp
  have key: "bt_get (rc_registry ?rc) (vi_verifier_ref y) \<noteq> None" if "y \<in> set ?vs" for y
    using keys that gather_ctx(3) [OF g] by (simp add: is_key_def)
  have of_v: "proved_now env uni ?rc w ?ph v (fst x)"
    if x: "x \<in> set (ro_fresh ro)" and c: "verification_context env uni ?rc w v ctx"
      and p: "fst (saved_as x) = evidence_path (vi_claim_id v) (cx_fingerprint ctx)" for x ctx
  proof -
    obtain y where y: "y \<in> set ?vs" "proved_now env uni ?rc w ?ph y (fst x)" and sx: "snd x = ev_fingerprint (fst x)"
      using gather_all(2) [OF g] x by blast
    obtain cy where cy: "verification_context env uni ?rc w y cy" "ev_fingerprint (fst x) = cx_fingerprint cy"
      "ev_claim_id (fst x) = vi_claim_id y"
      using proved_now_covers [OF y(2) key [OF y(1)] sd still(2)] by blast
    have "vi_claim_id y = vi_claim_id v"
      using p cy(2,3) sx evidence_path_claim [OF registry_fingerprint [OF cy(1) key [OF y(1)] bytes]
          registry_fingerprint [OF c key [OF v] bytes]]
      by (simp add: saved_as_def)
    then have "y = v" using one y(1) v by (auto simp: distinct_map dest: inj_onD)
    then show ?thesis using y(2) by simp
  qed
  consider (old) ev where "ev \<in> set (sc_stored (ro_scan ro))" "reused env uni ?rc w v ev"
    | (new) x where "x \<in> set (ro_fresh ro)" "proved_now env uni ?rc w ?ph v (fst x)"
    using gather_all(3) [OF g] v by blast
  then show ?thesis
  proof cases
    case old
    obtain ctx e where c: "verification_context env uni ?rc w v ctx"
      and l: "load_file (ud_evidence uni) (evidence_path (vi_claim_id v) (cx_fingerprint ctx)) = Some e"
      and e: "ev_fingerprint e = cx_fingerprint ctx" "covers (os_now (ve_os env) w) ctx e"
        "ev = e\<lparr>ev_executor := rc_executor ?rc\<rparr>"
      using old(2) unfolding reused_def by blast
    have n: "\<not> proved_now env uni ?rc w ?ph v z" for z using old(2) by (auto simp: proved_now_def)
    have "evidence_path (vi_claim_id v) (cx_fingerprint ctx) \<notin> fst ` set (rev (map saved_as (ro_fresh ro)))"
    proof
      assume "evidence_path (vi_claim_id v) (cx_fingerprint ctx) \<in> fst ` set (rev (map saved_as (ro_fresh ro)))"
      then have "evidence_path (vi_claim_id v) (cx_fingerprint ctx) \<in> (\<lambda>x. fst (saved_as x)) ` set (ro_fresh ro)"
        by (simp only: set_rev set_map image_image)
      then obtain x where x: "x \<in> set (ro_fresh ro)"
        and p: "evidence_path (vi_claim_id v) (cx_fingerprint ctx) = fst (saved_as x)"
        by (rule imageE)
      show False using of_v [OF x c p [symmetric]] n by blast
    qed
    then have "load_file (save_fresh (ro_fresh ro) (ud_evidence uni)) (evidence_path (vi_claim_id v) (cx_fingerprint ctx)) = Some e"
      using l by (simp add: load_save_fresh map_of_eq_None_iff [THEN iffD2])
    moreover have "\<forall>now. unexpired now e \<longrightarrow> covers now ctx e"
      using e(2) by (simp add: covers_def unexpired_def)
    moreover have "ev \<in> set (ro_stored ro)" using old(1) gather_all(4) [OF g] by simp
    ultimately show ?thesis using c e(1,3)
      by (intro exI [of _ ctx] exI [of _ e] conjI bexI [of _ ev]) simp_all
  next
    case new
    obtain ctx where c: "verification_context env uni ?rc w v ctx" "ev_fingerprint (fst x) = cx_fingerprint ctx"
      "ev_claim_id (fst x) = vi_claim_id v"
      using proved_now_covers [OF new(2) key [OF v] sd still(2)] by blast
    let ?p = "evidence_path (vi_claim_id v) (cx_fingerprint ctx)"
    have "snd x = ev_fingerprint (fst x)" using gather_all(2) [OF g] new(1) by blast
    then have "?p \<in> fst ` set (rev (map saved_as (ro_fresh ro)))"
      using new(1) c(2,3) by (force simp: saved_as_def)
    then obtain e where m: "map_of (rev (map saved_as (ro_fresh ro))) ?p = Some e"
      by (metis map_of_eq_None_iff not_None_eq)
    from map_of_SomeD [OF this] obtain y where y: "y \<in> set (ro_fresh ro)" "saved_as y = (?p, e)" by auto
    have pe: "fst y = e" using y(2) by (simp add: saved_as_def)
    have "proved_now env uni ?rc w ?ph v e" using of_v [OF y(1) c(1)] y(2) pe by simp
    from proved_now_covers [OF this key [OF v] sd still(2)] obtain ctx' where
      c': "verification_context env uni ?rc w v ctx'" "ev_fingerprint e = cx_fingerprint ctx'"
      "\<forall>now. unexpired now e \<longrightarrow> covers now ctx' e"
      by blast
    have "ctx' = ctx" using c'(1) c(1) by (rule verification_context_unique)
    moreover have "e \<in> set (ro_stored ro)" using y(1) pe gather_all(4) [OF g] by force
    ultimately show ?thesis using c(1) c' m
      by (intro exI [of _ ctx] exI [of _ e] conjI bexI [of _ e]) (simp_all add: load_save_fresh)
  qed
qed


lemma demo_runs_succeed:
  assumes "\<forall>p\<in>set ps. pd_spec p = Some (shell_spec ''true'') \<and> pd_ref p = ''k''"
  shows "\<exists>rn' w'. fold_r (run_one demo_env rc ph) ps (rn, w) = Inr (rn', w')"
  using assms
proof (induction ps arbitrary: rn w)
  case Nil
  then show ?case by simp
next
  case (Cons p ps)
  obtain ev where "run_spec (ve_os demo_env) (pd_claim p) ''k'' (shell_spec ''true'') (rc_actor rc) (rc_executor rc) w = Inr (ev, Suc w)"
    using demo_run_full by (fastforce simp: demo_env_def)
  then obtain rn1 where "run_one demo_env rc ph p (rn, w) = Inr (rn1, Suc w)"
    using Cons.prems by (simp add: run_one_def)
  then show ?case using Cons by simp
qed

lemma demo_gather_any:
  assumes "ud_config uni = Some ''cfg''"
  shows "\<exists>ro w'. gather demo_env demo_args uni w = Inr (ro, w') \<and> rc_ir (ro_ctx ro) = demo_ir \<and>
    rc_actor (ro_ctx ro) = declared ''ci''"
proof -
  let ?ex = "local_actor (ve_user demo_env) (ve_username demo_env)"
  let ?rc = "make_ctx demo_env demo_args uni demo_ir (declared ''ci'') ?ex w"
  let ?sc0 = "\<lparr>sc_stored = [], sc_need = [], sc_stale_ids = [], sc_reasons = [],
                   sc_journal = opening_events demo_env demo_args uni ?rc False\<rparr>"
  let ?ph = "sha256_hex (os_digest (ve_os demo_env)) (ve_policy_json demo_env (resolve_policy demo_env uni w))"
  have reg: "load_registry (ve_parse_toml demo_env) (ud_config uni) = [(''k'', shell_spec ''true'')]"
    using demo_registry_loaded assms by (simp add: demo_uni_def)
  have t: "\<not> is_selector_template (shell_spec ''true'')" by code_simp
  have "\<exists>p oc. scan_one demo_env uni ?rc w (hd (ir_verification demo_ir)) ?sc0 =
      Inr (scan_outcome ?rc (hd (ir_verification demo_ir)) p oc ?sc0) \<and>
      pd_spec p = Some (shell_spec ''true'') \<and> pd_ref p = ''k''"
    using t by (simp add: scan_one_def demo_ir_def reg is_template_ref_def bt_get_def require_binding_def
        resolved_spec_def with_selector_def Let_def) (metis pending.select_convs(2) pending.select_convs(5))
  then obtain p oc where "scan_one demo_env uni ?rc w (hd (ir_verification demo_ir)) ?sc0 =
      Inr (scan_outcome ?rc (hd (ir_verification demo_ir)) p oc ?sc0)"
    and p: "pd_spec p = Some (shell_spec ''true'')" "pd_ref p = ''k''"
    by blast
  then obtain sc where sc: "fold_r (scan_one demo_env uni ?rc w) (ir_verification demo_ir) ?sc0 = Inr sc"
    and need: "set (sc_need sc) \<subseteq> {p}"
    by (cases oc) (auto simp: demo_ir_def scan_outcome_def Let_def)
  have "\<forall>q\<in>set (sc_need sc). pd_spec q = Some (shell_spec ''true'') \<and> pd_ref q = ''k''"
    using need p by auto
  from demo_runs_succeed [OF this] obtain rn w' where
    "fold_r (run_one demo_env ?rc ?ph) (sc_need sc) (\<lparr>rn_fresh = [], rn_journal = sc_journal sc\<rparr>, w) = Inr (rn, w')"
    by blast
  moreover have "va_contract demo_args = Some demo_source" "\<not> va_attest demo_args"
    "choose_actor demo_env demo_args uni ?ex w = Inr (declared ''ci'', False)"
    by (simp_all add: demo_args_def choose_actor_def)
  ultimately show ?thesis using sc by (simp add: gather_def demo_load_contract Let_def)
qed


text \<open>
  C17. A run accounts for every verification of the contract: each has a record, either the
  stored proof that covers its context or one made now, and nothing is run for a verification
  that has such a proof.
\<close>

theorem verify_accounts_for_all:
  assumes "gather env args uni w = Inr (ro, w')" and "v \<in> set (ir_verification (rc_ir (ro_ctx ro)))"
  shows "\<exists>ev\<in>set (ro_stored ro).
    (if \<exists>e. reused env uni (ro_ctx ro) w v e then reused env uni (ro_ctx ro) w v ev
     else proved_now env uni (ro_ctx ro) w (run_policy_hash env ro) v ev)"
proof (cases "\<exists>e. reused env uni (ro_ctx ro) w v e")
  case True
  then have "\<not> proved_now env uni (ro_ctx ro) w (run_policy_hash env ro) v z" for z
    by (simp add: proved_now_def)
  then show ?thesis using True gather_all(3,4) [OF assms(1)] assms(2) by auto
next
  case False
  then obtain x where "x \<in> set (ro_fresh ro)"
    "proved_now env uni (ro_ctx ro) w (run_policy_hash env ro) v (fst x)"
    using gather_all(3) [OF assms(1)] assms(2) by blast
  then show ?thesis using False gather_all(4) [OF assms(1)] by auto
qed

theorem verify_accounts_for_all_witness:
  "\<exists>ro. gather demo_env demo_args demo_uni 0 = Inr (ro, 1) \<and>
     (\<exists>ev\<in>set (ro_stored ro). proved_now demo_env demo_uni (ro_ctx ro) 0 (run_policy_hash demo_env ro)
        (hd (ir_verification demo_ir)) ev)"
proof -
  obtain ro where r: "gather demo_env demo_args demo_uni 0 = Inr (ro, 1)" "rc_ir (ro_ctx ro) = demo_ir"
    using demo_gather by blast
  have v: "hd (ir_verification demo_ir) \<in> set (ir_verification (rc_ir (ro_ctx ro)))"
    by (simp add: r(2) demo_ir_def)
  have "\<not> reused demo_env demo_uni (ro_ctx ro) 0 (hd (ir_verification demo_ir)) e" for e
    by (simp add: reused_def demo_uni_def load_file_def)
  then show ?thesis using verify_accounts_for_all [OF r(1) v] r(1) by auto
qed

subsection \<open>A record that is neither valid nor renewed\<close>

text \<open>
  A record saved with the state \<open>Stale\<close> (its verifier moved the revision or dirtied the
  workspace) whose context matches is reused: it neither lets its claim pass nor is its
  verifier run again, so every run ends without acceptance and leaves the record as it is.
\<close>

theorem stale_record_sticks:
  assumes "gather env args uni w = Inr (ro, w')" and "c \<in> set (ir_claims (rc_ir (ro_ctx ro)))"
    and "ci_required c \<or> ci_critical c"
    and "\<And>v. v \<in> set (ir_verification (rc_ir (ro_ctx ro))) \<Longrightarrow> vi_claim_id v = ci_id c \<Longrightarrow>
      \<exists>e. reused env uni (ro_ctx ro) w v e"
    and "\<And>v e. reused env uni (ro_ctx ro) w v e \<Longrightarrow> ev_claim_id e = ci_id c \<Longrightarrow> ev_state e = Stale"
  shows "dr_decision (run_decision ro) \<noteq> Accepted \<and>
    (\<forall>x\<in>set (ro_fresh ro). ev_claim_id (fst x) \<noteq> ci_id c)"
proof -
  let ?i = "rc_ir (ro_ctx ro)"
  have np: "ev_claim_id z \<noteq> ci_id c"
    if v: "v \<in> set (ir_verification ?i)" and p: "proved_now env uni (ro_ctx ro) w ph v z" for v z ph
  proof
    assume z: "ev_claim_id z = ci_id c"
    obtain s w1 w2 ev0 binding where
      r: "run_spec (ve_os env) (vi_claim_id v) (vi_verifier_ref v) s (rc_actor (ro_ctx ro)) (rc_executor (ro_ctx ro)) w1 = Inr (ev0, w2)"
      and "z = seal env (ro_ctx ro) ph binding ev0"
      using p unfolding proved_now_def by blast
    then have "ev_claim_id z = vi_claim_id v"
      using run_spec_Inr [OF r] by (auto simp: seal_def Let_def)
    then show False using assms(4) [OF v] p z by (auto simp: proved_now_def)
  qed
  have "dr_decision (run_decision ro) \<noteq> Accepted"
  proof
    assume "dr_decision (run_decision ro) = Accepted"
    then have "dr_decision (evaluate ?i (ro_stored ro)) = Accepted"
      unfolding run_decision_def by (rule decide_run_Accepted)
    from accepted_evidence [OF this assms(2,3)] obtain x where
      x: "x \<in> set (ro_stored ro)" "ev_claim_id x = ci_id c" "ev_state x = Valid" by blast
    from gather_sources [OF assms(1) x(1)] obtain v where "v \<in> set (ir_verification ?i)"
      "reused env uni (ro_ctx ro) w v x \<or> proved_now env uni (ro_ctx ro) w (run_policy_hash env ro) v x"
      by blast
    then show False using np assms(5) x(2,3) by force
  qed
  then show ?thesis using gather_all(2) [OF assms(1)] np by blast
qed

end
