(* ===== verification/Lint.thy ===== *)
theory Lint
  imports Verify_State
begin

section \<open>The lint command (crates/uni-cli, cmd/contract.rs)\<close>

text \<open>
  The findings of \<open>uni lint\<close>, in the order they are pushed, and how they relate to the
  authorization gate of \<open>uni verify\<close>. A finding keeps what its text is made of: the claim and the
  verifier it names.
\<close>

datatype lint_kind =
    MissingVerify
  | UnknownRef
  | DuplicateVerify
  | SelectorTemplate
  | PinnedTestSelector
  | UnboundRequirement

record finding =
  lf_severity :: nat
  lf_kind :: lint_kind
  lf_claim_id :: string
  lf_verifier_ref :: string

definition warn :: "lint_kind \<Rightarrow> verification_ir \<Rightarrow> finding" where
  "warn k v = \<lparr>lf_severity = 1, lf_kind = k, lf_claim_id = vi_claim_id v, lf_verifier_ref = vi_verifier_ref v\<rparr>"

subsection \<open>The checks\<close>

definition missing_verify :: "ir \<Rightarrow> finding list" where
  "missing_verify i =
     map (\<lambda>c. \<lparr>lf_severity = 2, lf_kind = MissingVerify, lf_claim_id = ci_id c, lf_verifier_ref = []\<rparr>)
       (filter (\<lambda>c. \<not> list_ex (\<lambda>v. vi_claim_id v = ci_id c) (ir_verification i)) (ir_claims i))"

definition unknown_refs :: "registry \<Rightarrow> verification_ir list \<Rightarrow> finding list" where
  "unknown_refs reg vs =
     (if reg = [] then []
      else map (warn UnknownRef)
        (filter (\<lambda>v. vi_verifier_ref v \<noteq> ''shell'' \<and> bt_get reg (vi_verifier_ref v) = None) vs))"

definition same_verify :: "verification_ir \<Rightarrow> verification_ir \<Rightarrow> bool" where
  "same_verify a b \<longleftrightarrow>
     vi_claim_id b = vi_claim_id a \<and> vi_verifier_ref b = vi_verifier_ref a \<and>
     vi_inline_shell b = vi_inline_shell a"

fun duplicate_verifies :: "verification_ir list \<Rightarrow> finding list" where
  "duplicate_verifies [] = []"
| "duplicate_verifies (a # vs) =
     map (\<lambda>_. warn DuplicateVerify a) (filter (same_verify a) vs) @ duplicate_verifies vs"

definition selector_bound :: "bindings_state \<Rightarrow> verification_ir \<Rightarrow> bool" where
  "selector_bound bs v =
     (case load_binding bs (vi_claim_id v) of
        Some b \<Rightarrow>
          vb_verifier_ref b = vi_verifier_ref v \<and> vb_requirement b = text_or_empty (vi_requirement v) \<and>
          (case vb_selector b of Some s \<Rightarrow> trim s \<noteq> [] | None \<Rightarrow> False)
      | None \<Rightarrow> False)"

definition unbound_templates :: "registry \<Rightarrow> bindings_state \<Rightarrow> verification_ir list \<Rightarrow> finding list" where
  "unbound_templates reg bs vs =
     map (warn SelectorTemplate)
       (filter (\<lambda>v. is_template_ref reg (vi_verifier_ref v) \<and> \<not> selector_bound bs v) vs)"

definition pinned_selectors :: "registry \<Rightarrow> verification_ir list \<Rightarrow> finding list" where
  "pinned_selectors reg vs =
     map (warn PinnedTestSelector)
       (filter (\<lambda>v. case bt_get reg (vi_verifier_ref v) of Some s \<Rightarrow> pinned_test_selector s | None \<Rightarrow> False) vs)"

definition requirement_bound :: "bindings_state \<Rightarrow> verification_ir \<Rightarrow> bool" where
  "requirement_bound bs v =
     (case load_binding bs (vi_claim_id v) of
        Some b \<Rightarrow> vb_verifier_ref b = vi_verifier_ref v \<and> vb_requirement b = text_or_empty (vi_requirement v)
      | None \<Rightarrow> False)"

definition unbound_requirements :: "bindings_state \<Rightarrow> string list \<Rightarrow> verification_ir list \<Rightarrow> finding list" where
  "unbound_requirements bs flagged vs =
     map (warn UnboundRequirement)
       (filter (\<lambda>v. vi_requirement v \<noteq> None \<and> vi_claim_id v \<notin> set flagged \<and> \<not> requirement_bound bs v) vs)"

definition selector_flagged :: "finding list \<Rightarrow> string list" where
  "selector_flagged fs = map lf_claim_id (filter (\<lambda>f. lf_kind f = SelectorTemplate) fs)"

definition lint_findings :: "registry \<Rightarrow> bindings_state \<Rightarrow> ir \<Rightarrow> finding list" where
  "lint_findings reg bs i =
     (let vs = ir_verification i;
          fs = missing_verify i @ unknown_refs reg vs @ duplicate_verifies vs @ unbound_templates reg bs vs
      in fs @ pinned_selectors reg vs @ unbound_requirements bs (selector_flagged fs) vs)"

definition lint_errors :: "finding list \<Rightarrow> nat" where
  "lint_errors fs = length (filter (\<lambda>f. lf_severity f = 2) fs)"

definition lint_warnings :: "finding list \<Rightarrow> nat" where
  "lint_warnings fs = length fs - lint_errors fs"

text \<open>What \<open>cmd_lint\<close> reports, and whether it fails: \<open>None\<close> is a success.\<close>

datatype lint_error = LintLoad cmd_error | LintErrors nat

definition cmd_lint ::
  "(string \<Rightarrow> toml option) \<Rightarrow> string option \<Rightarrow> uni_dir \<Rightarrow> lint_error + finding list \<times> lint_error option" where
  "cmd_lint parse_toml file uni =
     bind_r (map_err LintLoad (load_contract file)) (\<lambda>i.
       let fs = lint_findings (load_registry parse_toml (ud_config uni)) (ud_bindings uni) i in
       Inr (fs, if 0 < lint_errors fs then Some (LintErrors (lint_errors fs)) else None))"

subsection \<open>What the findings say\<close>

lemma warn_simps [simp]:
  "lf_severity (warn k v) = 1" "lf_kind (warn k v) = k" "lf_claim_id (warn k v) = vi_claim_id v"
  "lf_verifier_ref (warn k v) = vi_verifier_ref v"
  by (simp_all add: warn_def)

lemma duplicate_verifies_kind: "f \<in> set (duplicate_verifies vs) \<Longrightarrow> lf_kind f = DuplicateVerify \<and> lf_severity f = 1"
  by (induction vs) auto

lemma duplicate_verifies_set:
  "f \<in> set (duplicate_verifies vs) \<longleftrightarrow>
     (\<exists>xs a ys b. vs = xs @ a # ys \<and> b \<in> set ys \<and> same_verify a b \<and> f = warn DuplicateVerify a)"
proof (induction vs)
  case Nil
  then show ?case by simp
next
  case (Cons v vs)
  show ?case (is "_ \<longleftrightarrow> ?R (v # vs)")
  proof
    assume "f \<in> set (duplicate_verifies (v # vs))"
    then consider "\<exists>b\<in>set vs. same_verify v b \<and> f = warn DuplicateVerify v" | "f \<in> set (duplicate_verifies vs)"
      by auto
    then show "?R (v # vs)"
    proof cases
      case 1
      then show ?thesis by (metis append_Nil)
    next
      case 2
      then show ?thesis using Cons.IH by (metis append_Cons)
    qed
  next
    assume "?R (v # vs)"
    then obtain xs a ys b where r: "v # vs = xs @ a # ys" "b \<in> set ys" "same_verify a b"
      "f = warn DuplicateVerify a" by blast
    show "f \<in> set (duplicate_verifies (v # vs))"
    proof (cases xs)
      case Nil
      then show ?thesis using r by auto
    next
      case (Cons x xs')
      then have "f \<in> set (duplicate_verifies vs)" using r Cons.IH by auto
      then show ?thesis by simp
    qed
  qed
qed

lemma lint_kinds:
  "f \<in> set (lint_findings reg bs i) \<and> lf_kind f = SelectorTemplate \<longleftrightarrow>
     f \<in> set (unbound_templates reg bs (ir_verification i))"
  "f \<in> set (lint_findings reg bs i) \<and> lf_kind f = UnboundRequirement \<longleftrightarrow>
     f \<in> set (unbound_requirements bs (map lf_claim_id (unbound_templates reg bs (ir_verification i))) (ir_verification i))"
proof -
  have "filter (\<lambda>f. lf_kind f = SelectorTemplate) (duplicate_verifies vs) = []" for vs
    using duplicate_verifies_kind by (fastforce simp: filter_empty_conv)
  then have fl: "selector_flagged (missing_verify i @ unknown_refs reg vs @ duplicate_verifies vs @ unbound_templates reg bs vs) =
      map lf_claim_id (unbound_templates reg bs vs)" for vs
    by (simp add: selector_flagged_def missing_verify_def unknown_refs_def unbound_templates_def
        filter_map comp_def)
  show "f \<in> set (lint_findings reg bs i) \<and> lf_kind f = SelectorTemplate \<longleftrightarrow>
     f \<in> set (unbound_templates reg bs (ir_verification i))"
    by (auto simp: lint_findings_def Let_def missing_verify_def unknown_refs_def unbound_templates_def
        pinned_selectors_def unbound_requirements_def dest: duplicate_verifies_kind split: if_splits)
  show "f \<in> set (lint_findings reg bs i) \<and> lf_kind f = UnboundRequirement \<longleftrightarrow>
     f \<in> set (unbound_requirements bs (map lf_claim_id (unbound_templates reg bs (ir_verification i))) (ir_verification i))"
    unfolding lint_findings_def Let_def fl
    by (auto simp: missing_verify_def unknown_refs_def unbound_templates_def
        pinned_selectors_def unbound_requirements_def dest: duplicate_verifies_kind split: if_splits)
qed

lemma selector_bound_authorized:
  "is_template_ref reg (vi_verifier_ref v) \<Longrightarrow> selector_bound bs v \<longleftrightarrow> authorized bs reg v"
  by (auto simp: selector_bound_def authorized_def text_or_empty_def split: option.splits)

lemma requirement_bound_authorized:
  "\<not> is_template_ref reg (vi_verifier_ref v) \<Longrightarrow> requirement_bound bs v \<longleftrightarrow> authorized bs reg v"
  by (auto simp: requirement_bound_def authorized_def split: option.splits)

lemma authorized_requirement: "authorized bs reg v \<Longrightarrow> requirement_bound bs v"
  by (auto simp: requirement_bound_def authorized_def)

lemma some_kind:
  assumes "\<And>f. f \<in> set fs \<and> lf_kind f = k \<longleftrightarrow> f \<in> set gs"
  shows "k \<in> lf_kind ` set fs \<longleftrightarrow> gs \<noteq> []"
proof -
  have "k \<in> lf_kind ` set fs \<longleftrightarrow> (\<exists>f. f \<in> set fs \<and> lf_kind f = k)" by auto
  also have "\<dots> \<longleftrightarrow> gs \<noteq> []" unfolding assms by (cases gs) auto
  finally show ?thesis .
qed

text \<open>No finding about authorization: every gated verification is authorized.\<close>

lemma lint_authorized:
  "{SelectorTemplate, UnboundRequirement} \<inter> lf_kind ` set (lint_findings reg bs i) = {} \<longleftrightarrow>
     (\<forall>v\<in>set (ir_verification i). gated reg v \<longrightarrow> authorized bs reg v)"
proof -
  let ?vs = "ir_verification i"
  have "{SelectorTemplate, UnboundRequirement} \<inter> lf_kind ` set (lint_findings reg bs i) = {} \<longleftrightarrow>
      unbound_templates reg bs ?vs = [] \<and>
      unbound_requirements bs (map lf_claim_id (unbound_templates reg bs ?vs)) ?vs = []"
    using some_kind [OF lint_kinds(1)] some_kind [OF lint_kinds(2)] by simp
  also have "\<dots> \<longleftrightarrow> (\<forall>v\<in>set ?vs. is_template_ref reg (vi_verifier_ref v) \<longrightarrow> selector_bound bs v) \<and>
      (\<forall>v\<in>set ?vs. vi_requirement v \<noteq> None \<longrightarrow> requirement_bound bs v)"
    by (auto simp: unbound_templates_def unbound_requirements_def filter_empty_conv)
  also have "\<dots> \<longleftrightarrow> (\<forall>v\<in>set ?vs. gated reg v \<longrightarrow> authorized bs reg v)"
    unfolding gated_def
    using selector_bound_authorized [of reg _ bs] requirement_bound_authorized [of reg _ bs] authorized_requirement
    by blast
  finally show ?thesis .
qed

text \<open>One verification passes the scan exactly when it is authorized, if it has to be.\<close>

lemma scan_one_passes:
  "(\<exists>sc'. scan_one env uni rc w v sc = Inr sc') \<longleftrightarrow>
     (gated (rc_registry rc) v \<longrightarrow> authorized (ud_bindings uni) (rc_registry rc) v)"
proof
  assume "\<exists>sc'. scan_one env uni rc w v sc = Inr sc'"
  then obtain sc' where "scan_one env uni rc w v sc = Inr sc'" by blast
  from scan_one_Inr [OF this] show "gated (rc_registry rc) v \<longrightarrow> authorized (ud_bindings uni) (rc_registry rc) v"
    using require_binding_iff [of "ud_bindings uni" v "rc_registry rc"] by blast
next
  assume "gated (rc_registry rc) v \<longrightarrow> authorized (ud_bindings uni) (rc_registry rc) v"
  then obtain res where r: "require_binding (ud_bindings uni) (vi_claim_id v) (vi_verifier_ref v) (vi_requirement v)
      (is_template_ref (rc_registry rc) (vi_verifier_ref v)) = Inr res"
    using require_binding_iff [of "ud_bindings uni" v "rc_registry rc"] by blast
  have "\<exists>spec. resolved_spec (rc_registry rc) (vi_verifier_ref v) (rs_selector res) = Inr spec"
  proof (cases "bt_get (rc_registry rc) (vi_verifier_ref v)")
    case None
    then show ?thesis by (simp add: resolved_spec_def)
  next
    case (Some s)
    show ?thesis
    proof (cases "is_selector_template s")
      case False
      then show ?thesis using Some by (simp add: resolved_spec_def with_selector_def)
    next
      case True
      then have "is_template_ref (rc_registry rc) (vi_verifier_ref v)" using Some by (simp add: is_template_ref_def)
      then have "trim (text_or_empty (rs_selector res)) \<noteq> []"
        using r by (auto simp: require_binding_def Let_def split: option.splits if_splits)
      then show ?thesis
        using Some True by (auto simp: resolved_spec_def with_selector_def text_or_empty_def split: option.splits)
    qed
  qed
  then show "\<exists>sc'. scan_one env uni rc w v sc = Inr sc'" using r by (auto simp: scan_one_def Let_def)
qed

lemma fold_r_passes:
  assumes "\<And>x s. (\<exists>t. f x s = Inr t) \<longleftrightarrow> P x"
  shows "(\<exists>t. fold_r f xs s = Inr t) \<longleftrightarrow> (\<forall>x\<in>set xs. P x)"
proof (induction xs arbitrary: s)
  case Nil
  then show ?case by simp
next
  case (Cons x xs)
  then show ?case using assms [of x s] by (auto simp: bind_r_Inr_iff)
qed

text \<open>
  C13. The lint predicts the gate: the scan of \<open>uni verify\<close> gets through all verifications of a
  contract exactly when \<open>uni lint\<close>, on the same registry and bindings, reports neither an
  unbound template nor an unbound requirement.
\<close>

theorem lint_predicts_gate:
  "(\<exists>sc. fold_r (scan_one env uni rc w) (ir_verification i) sc0 = Inr sc) \<longleftrightarrow>
     {SelectorTemplate, UnboundRequirement} \<inter> lf_kind ` set (lint_findings (rc_registry rc) (ud_bindings uni) i) = {}"
  unfolding lint_authorized
  by (rule fold_r_passes) (rule scan_one_passes)

subsection \<open>When the command fails\<close>

lemma lint_errors_iff:
  "0 < lint_errors (lint_findings reg bs i) \<longleftrightarrow> missing_verify i \<noteq> []"
proof -
  have "filter (\<lambda>f. lf_severity f = 2) (duplicate_verifies vs) = []" for vs
    using duplicate_verifies_kind by (fastforce simp: filter_empty_conv)
  then have "lint_errors (lint_findings reg bs i) = length (missing_verify i)"
    by (simp add: lint_errors_def lint_findings_def Let_def missing_verify_def unknown_refs_def
        unbound_templates_def pinned_selectors_def unbound_requirements_def filter_map comp_def)
  then show ?thesis by simp
qed

text \<open>
  The lint fails for one reason only: it succeeds exactly when the contract parses and
  compiles and each of its claims has a verification. All other findings are warnings, and the
  numbers of errors and warnings add up to the findings.
\<close>

theorem lint_fails_exactly:
  "((\<exists>fs. cmd_lint parse_toml file uni = Inr (fs, None)) \<longleftrightarrow>
      (\<exists>i. load_contract file = Inr i \<and> ci_id ` set (ir_claims i) \<subseteq> vi_claim_id ` set (ir_verification i))) \<and>
   lint_errors fs + lint_warnings fs = length fs"
proof -
  have "missing_verify i = [] \<longleftrightarrow> ci_id ` set (ir_claims i) \<subseteq> vi_claim_id ` set (ir_verification i)" for i
    by (simp add: missing_verify_def filter_empty_conv list_ex_iff image_subset_iff image_iff) metis
  then have "(\<exists>fs. cmd_lint parse_toml file uni = Inr (fs, None)) \<longleftrightarrow>
      (\<exists>i. load_contract file = Inr i \<and> ci_id ` set (ir_claims i) \<subseteq> vi_claim_id ` set (ir_verification i))"
    using lint_errors_iff by (auto simp: cmd_lint_def bind_r_Inr_iff Let_def)
  moreover have "lint_errors fs \<le> length fs" by (simp add: lint_errors_def)
  ultimately show ?thesis by (simp add: lint_warnings_def)
qed

end
