(* ===== verification/Authorize_Cmd.thy ===== *)
theory Authorize_Cmd
  imports Verify_State
begin

section \<open>The authorization commands (crates/uni-cli, cmd/authorize.rs)\<close>

text \<open>
  \<open>uni bind\<close>: which authorization its arguments ask for, the act itself, and the journal of it;
  the listing of \<open>uni bindings\<close>; and whether the command that \<open>uni verify\<close> proposes when the
  gate refuses a verification opens the gate.
\<close>

text \<open>The file named by \<open>--from\<close> is its decoded content, \<open>None\<close> if it does not decode.\<close>

record bind_args =
  ba_claim :: "string option"
  ba_verifier :: "string option"
  ba_requirement :: string
  ba_selector :: "string option"
  ba_from :: "binding_file option option"

datatype bind_cmd_error =
    NoEntries
  | FromAndClaim
  | NeedsVerifier string
  | NothingToAuthorize

definition bind_act ::
  "(string \<Rightarrow> nat list) \<Rightarrow> string \<Rightarrow> string \<Rightarrow> bind_args \<Rightarrow> bindings_state \<Rightarrow>
   bind_cmd_error + verifier_binding list \<times> bindings_state" where
  "bind_act digest now by_whom args s =
     (case (ba_from args, ba_claim args, ba_verifier args) of
        (Some src, None, _) \<Rightarrow> map_err (\<lambda>_. NoEntries) (authorize_from_file digest now src by_whom s)
      | (Some _, Some _, _) \<Rightarrow> Inl FromAndClaim
      | (None, Some c, Some v) \<Rightarrow>
          (let (b, s') = authorize digest now c v (ba_requirement args) (ba_selector args) by_whom s
           in Inr ([b], s'))
      | (None, Some c, None) \<Rightarrow> Inl (NeedsVerifier c)
      | (None, None, _) \<Rightarrow> Inl NothingToAuthorize)"

definition bind_event :: "string \<Rightarrow> verifier_binding \<Rightarrow> event" where
  "bind_event by_whom b =
     \<lparr>jn_name = ''BindingAuthorized'',
      jn_attrs = [(''uni.claim.id'', vb_claim_id b), (''uni.verifier.id'', vb_verifier_ref b),
                  (''uni.binding.hash'', vb_binding_hash b),
                  (''uni.binding.selector'', text_or_empty (vb_selector b)),
                  (''uni.binding.by'', by_whom)]\<rparr>"

definition cmd_bind ::
  "('w, 'k, 'd) verify_env \<Rightarrow> bind_args \<Rightarrow> uni_dir \<Rightarrow> 'w \<Rightarrow>
   (bind_cmd_error + verifier_binding list) \<times> uni_dir" where
  "cmd_bind env args uni w =
     (let now = os_now (ve_os env) w; by_whom = ac_id (local_actor (ve_user env) (ve_username env)) in
      case bind_act (os_digest (ve_os env)) (ve_rfc3339 env now) by_whom args (ud_bindings uni) of
        Inl e \<Rightarrow> (Inl e, uni)
      | Inr (bs, s') \<Rightarrow>
          (Inr bs, uni\<lparr>ud_bindings := s',
             ud_journal := append_events (ve_to_string env) (ve_stamp env now) (ve_rfc3339 env now)
                             (map (bind_event by_whom) bs) (ud_journal uni)\<rparr>))"

text \<open>\<open>uni bindings\<close>, in the order of the claims.\<close>

definition cmd_bindings :: "uni_dir \<Rightarrow> verifier_binding list" where
  "cmd_bindings uni = map snd (load_all (ud_bindings uni))"

subsection \<open>What an act does\<close>

lemma bind_act_Inr:
  assumes "bind_act digest now who args s = Inr (bs, s')" and "bindings_ok s"
    and "\<And>src. ba_from args = Some src \<Longrightarrow> bt_ok (read_bindings src)"
  shows "bs \<noteq> [] \<and> (\<forall>b\<in>set bs. load_binding s' (vb_claim_id b) = Some b) \<and>
    (\<forall>c. c \<notin> vb_claim_id ` set bs \<longrightarrow> load_binding s' c = load_binding s c)"
proof (cases "ba_from args")
  case None
  then obtain c v b where "ba_claim args = Some c" "ba_verifier args = Some v"
    and a: "b = stamp digest c v (ba_requirement args) (ba_selector args) who now" "bs = [b]" "s' = write_binding b s"
    using assms(1) by (auto simp: bind_act_def authorize_def Let_def split: option.splits)
  then show ?thesis using bs.load_put [OF assms(2)] by simp
next
  case (Some src)
  then have ok: "bt_ok (read_bindings src)" using assms(3) by simp
  have a: "authorize_from_file digest now src who s = Inr (bs, s')"
    using assms(1) Some by (auto simp: bind_act_def Let_def split: option.splits)
  note f = authorize_from_file_fold [OF a]
  then have "map vb_claim_id bs = bt_keys (read_bindings src)"
    using stamp_entry_ids by blast
  then have d: "distinct (map vb_claim_id bs)"
    using ok by (simp add: bt_ok_def strict_sorted_iff)
  have s': "s' = fold write_binding bs s" and ne: "bs \<noteq> []" using f by blast+
  show ?thesis
    unfolding s' using ne bs.load_put_all_distinct [OF assms(2) d] bs.load_put_all_other [OF assms(2), of _ bs]
    by blast
qed

text \<open>The reviewed file an act is given is a B-tree map.\<close>

definition bind_args_ok :: "bind_args \<Rightarrow> bool" where
  "bind_args_ok args \<longleftrightarrow>
     (case ba_from args of Some src \<Rightarrow> bt_ok (read_bindings src) | None \<Rightarrow> True)"

text \<open>
  C27. \<open>uni bind\<close> is all or nothing. Refused, it leaves the directory as it was. Accepted, the verify
  path reads back exactly the bindings it returns for their claims and the old ones for every
  other claim, the journal has one \<open>BindingAuthorized\<close> event more per binding, and nothing else
  of the directory moves: no evidence, no snapshot, no decision.
\<close>

theorem bind_effects:
  assumes "bindings_ok (ud_bindings uni)" and "bind_args_ok args"
  shows "case cmd_bind env args uni w of
      (Inl e, uni') \<Rightarrow> uni' = uni
    | (Inr bs, uni') \<Rightarrow>
        bs \<noteq> [] \<and> (\<forall>b\<in>set bs. load_binding (ud_bindings uni') (vb_claim_id b) = Some b) \<and>
        (\<forall>c. c \<notin> vb_claim_id ` set bs \<longrightarrow>
           load_binding (ud_bindings uni') c = load_binding (ud_bindings uni) c) \<and>
        ud_journal uni' = append_events (ve_to_string env) (ve_stamp env (os_now (ve_os env) w))
          (ve_rfc3339 env (os_now (ve_os env) w))
          (map (bind_event (ac_id (local_actor (ve_user env) (ve_username env)))) bs) (ud_journal uni) \<and>
        uni' = uni\<lparr>ud_bindings := ud_bindings uni', ud_journal := ud_journal uni'\<rparr>"
proof (cases "bind_act (os_digest (ve_os env)) (ve_rfc3339 env (os_now (ve_os env) w))
    (ac_id (local_actor (ve_user env) (ve_username env))) args (ud_bindings uni)")
  case (Inl e)
  then show ?thesis by (simp add: cmd_bind_def Let_def)
next
  case (Inr r)
  obtain bs s' where r: "r = (bs, s')" by (cases r)
  have "bt_ok (read_bindings src)" if "ba_from args = Some src" for src
    using assms(2) that by (simp add: bind_args_ok_def)
  from bind_act_Inr [OF _ assms(1) this] Inr r show ?thesis
    by (simp add: cmd_bind_def Let_def)
qed

definition demo_bind :: bind_args where
  "demo_bind = \<lparr>ba_claim = Some ''a'', ba_verifier = Some ''k'', ba_requirement = ''behaves'',
     ba_selector = None, ba_from = None\<rparr>"

theorem bind_effects_witness:
  "\<exists>b uni'. cmd_bind demo_env demo_bind demo_uni 0 = (Inr [b], uni') \<and>
     load_binding (ud_bindings uni') ''a'' = Some b \<and> vb_requirement b = ''behaves'' \<and>
     load_binding (ud_bindings uni') ''c'' = None \<and> ud_evidence uni' = ud_evidence demo_uni"
proof -
  have ok: "bindings_ok (ud_bindings demo_uni)" "bind_args_ok demo_bind"
    by (simp_all add: demo_uni_def empty_bindings_def bindings_ok_def read_bindings_def bt_ok_def
        bt_keys_def bind_args_ok_def demo_bind_def)
  obtain b uni' where r: "cmd_bind demo_env demo_bind demo_uni 0 = (Inr [b], uni')" and
    b: "vb_claim_id b = ''a''" "vb_requirement b = ''behaves''"
    by (simp add: cmd_bind_def bind_act_def demo_bind_def authorize_def stamp_def Let_def)
  have "load_binding (ud_bindings demo_uni) ''c'' = None"
    by (simp add: demo_uni_def empty_bindings_def load_binding_def load_all_def read_bindings_def bt_get_def)
  moreover have "ud_evidence uni' = ud_evidence demo_uni"
    using arg_cong [OF r [symmetric], of "\<lambda>x. ud_evidence (snd x)"]
    by (simp add: cmd_bind_def bind_act_def demo_bind_def authorize_def Let_def)
  moreover have "load_binding (ud_bindings uni') ''a'' = Some b"
    "load_binding (ud_bindings uni') ''c'' = load_binding (ud_bindings demo_uni) ''c''"
    using bind_effects [OF ok, of demo_env 0] b unfolding r by simp_all
  ultimately show ?thesis using r b(2) by metis
qed

subsection \<open>The advice of the gate\<close>

text \<open>
  The command the refusal of the gate proposes: for a template the key and a selector, which
  the human fills in, otherwise the key and the requirement.
\<close>

definition remediation :: "verification_ir \<Rightarrow> bool \<Rightarrow> string \<Rightarrow> bind_args" where
  "remediation v is_template selector =
     \<lparr>ba_claim = Some (vi_claim_id v), ba_verifier = Some (vi_verifier_ref v),
      ba_requirement = (if is_template then [] else text_or_empty (vi_requirement v)),
      ba_selector = (if is_template then Some selector else None), ba_from = None\<rparr>"

text \<open>
  The advice opens the gate for every verification except one that uses a template and states
  a requirement: there the binding it makes has no requirement, and the next run refuses it as
  rebound, with the same advice.
\<close>

theorem bind_advice:
  assumes "bindings_ok (ud_bindings uni)" and "trim selector \<noteq> []"
    and "cmd_bind env (remediation v (is_template_ref reg (vi_verifier_ref v)) selector) uni w = (out, uni')"
  shows "is_ok out \<and>
    (authorized (ud_bindings uni') reg v \<longleftrightarrow>
       is_template_ref reg (vi_verifier_ref v) \<longrightarrow> text_or_empty (vi_requirement v) = [])"
proof -
  define b where "b = stamp (os_digest (ve_os env)) (vi_claim_id v) (vi_verifier_ref v)
    (ba_requirement (remediation v (is_template_ref reg (vi_verifier_ref v)) selector))
    (ba_selector (remediation v (is_template_ref reg (vi_verifier_ref v)) selector))
    (ac_id (local_actor (ve_user env) (ve_username env))) (ve_rfc3339 env (os_now (ve_os env) w))"
  have b: "ud_bindings uni' = write_binding b (ud_bindings uni)" "vb_claim_id b = vi_claim_id v"
    "vb_verifier_ref b = vi_verifier_ref v"
    "vb_requirement b = (if is_template_ref reg (vi_verifier_ref v) then [] else text_or_empty (vi_requirement v))"
    "vb_selector b = (if is_template_ref reg (vi_verifier_ref v) then Some selector else None)"
    and out: "out = Inr [b]"
    using assms(3)
    by (auto simp: b_def cmd_bind_def bind_act_def remediation_def authorize_def stamp_def Let_def)
  have "load_binding (ud_bindings uni') (vi_claim_id v) = Some b"
    using bs.load_put [OF assms(1)] b(1,2) by simp
  then show ?thesis
    using b(3-5) out assms(2) by (auto simp: authorized_def text_or_empty_def)
qed

definition template_reg :: registry where
  "template_reg = [(''k'', shell_spec ''t {{selector}}'')]"

definition template_ver :: verification_ir where
  "template_ver = \<lparr>vi_claim_id = ''a'', vi_verifier_ref = ''k'', vi_inline_shell = None,
     vi_requirement = Some ''behaves''\<rparr>"

lemma template_ver_template: "is_template_ref template_reg (vi_verifier_ref template_ver)"
  by code_simp

theorem bind_advice_witness:
  "\<not> authorized (ud_bindings (snd (cmd_bind demo_env (remediation template_ver True ''t'') demo_uni 0)))
      template_reg template_ver"
proof -
  have ok: "bindings_ok (ud_bindings demo_uni)"
    by (simp add: demo_uni_def empty_bindings_def bindings_ok_def read_bindings_def bt_ok_def bt_keys_def)
  have "trim ''t'' \<noteq> []" by code_simp
  from bind_advice [OF ok this, of demo_env template_ver template_reg 0] show ?thesis
    using template_ver_template
    by (auto simp: template_ver_def text_or_empty_def prod_eq_iff)
qed

end
