(* ===== verification/Brief.thy ===== *)
theory Brief
  imports Verify_Cmd
begin

section \<open>Work orders (crates/uni-cli, brief.rs and cmd/handoff.rs)\<close>

text \<open>
  The work order of a contract: for each claim the verification that would prove it, as the
  registry resolves it, the problems of the contract, and the two renderings. A command is
  shown with the selector token replaced by a placeholder.
\<close>

subsection \<open>The test a command selects\<close>

text \<open>The token after the first \<open>test\<close>.\<close>

definition cargo_selector :: "string list \<Rightarrow> string option" where
  "cargo_selector tokens =
     (case dropWhile (\<lambda>t. t \<noteq> ''test'') tokens of
        _ # candidate # _ \<Rightarrow>
          if \<not> starts_with ''-'' candidate \<and> candidate \<noteq> ''--'' \<and> \<not> starts_with ''tests'' candidate
          then Some candidate else None
      | _ \<Rightarrow> None)"

abbreviation double_quote :: char where
  "double_quote \<equiv> CHR 0x22"

abbreviation single_quote :: char where
  "single_quote \<equiv> CHR 0x27"

definition quoted_value :: "string \<Rightarrow> string option" where
  "quoted_value rest =
     (case rest of
        q # r \<Rightarrow>
          if q = double_quote \<or> q = single_quote then map_option fst (split_once [q] r) else None
      | [] \<Rightarrow> None)"

definition flag_selector :: "string \<Rightarrow> string \<Rightarrow> string option" where
  "flag_selector command flag =
     (case split_once flag command of
        None \<Rightarrow> None
      | Some (_, after) \<Rightarrow>
          let r1 = trim_start_matches is_ws after;
              rest = trim_start_matches is_ws (case strip_prefix ''='' r1 of Some r \<Rightarrow> r | None \<Rightarrow> r1)
          in (case quoted_value rest of
                Some v \<Rightarrow> Some v
              | None \<Rightarrow>
                  let value = takeWhile (\<lambda>ch. \<not> is_ws ch) rest in
                  if value \<noteq> [] then Some value else None))"

definition unittest_selector :: "string \<Rightarrow> string option" where
  "unittest_selector command =
     (case split_str ''-m unittest'' command of
        _ # after # _ \<Rightarrow>
          let module = (case split_whitespace after of m # _ \<Rightarrow> m | [] \<Rightarrow> []);
              name = List.last (split_str ''.'' module)
          in if name \<noteq> [] \<and> module \<noteq> ''discover'' then Some name else None
      | _ \<Rightarrow> None)"

definition or_else :: "'a option \<Rightarrow> 'a option \<Rightarrow> 'a option" where
  "or_else a b = (case a of Some x \<Rightarrow> Some x | None \<Rightarrow> b)"

definition test_selector :: "string \<Rightarrow> string option" where
  "test_selector command =
     or_else (cargo_selector (split_whitespace command))
       (or_else (flag_selector command ''--test-name-pattern'')
         (or_else (flag_selector command ''-k'') (unittest_selector command)))"

subsection \<open>The claims and the problems\<close>

record claim_brief =
  cb_claim :: claim_ir
  cb_ref :: "string option"
  cb_spec :: "verifier_spec option"
  cb_problem :: "string option"

definition verification_of :: "ir \<Rightarrow> claim_ir \<Rightarrow> verification_ir option" where
  "verification_of i c = List.find (\<lambda>v. vi_claim_id v = ci_id c) (ir_verification i)"

definition quoted :: "string \<Rightarrow> string" where
  "quoted s = [single_quote] @ s @ [single_quote]"

definition brief_claim :: "ir \<Rightarrow> registry \<Rightarrow> claim_ir \<Rightarrow> claim_brief" where
  "brief_claim i reg c =
     (case verification_of i c of
        None \<Rightarrow> \<lparr>cb_claim = c, cb_ref = None, cb_spec = None,
                 cb_problem = Some ''no VERIFY declared for this claim''\<rparr>
      | Some v \<Rightarrow>
          (case bt_get reg (vi_verifier_ref v) of
             Some spec \<Rightarrow> \<lparr>cb_claim = c, cb_ref = Some (vi_verifier_ref v), cb_spec = Some spec,
                           cb_problem = None\<rparr>
           | None \<Rightarrow> \<lparr>cb_claim = c, cb_ref = Some (vi_verifier_ref v), cb_spec = None,
                      cb_problem =
                        (if reg = [] then None
                         else Some (''verifier '' @ quoted (vi_verifier_ref v) @
                                    '' is not in the trusted registry''))\<rparr>))"

definition brief_problems :: "ir \<Rightarrow> registry \<Rightarrow> claim_ir \<Rightarrow> string list" where
  "brief_problems i reg c =
     (let b = brief_claim i reg c in
      (if ci_required c \<and> verification_of i c = None
       then [''claim '' @ quoted (ci_id c) @ '' has no VERIFY''] else []) @
      (case cb_problem b of
         None \<Rightarrow> []
       | Some p \<Rightarrow>
           if bt_get reg (text_or_empty (cb_ref b)) = None
           then [''claim '' @ quoted (ci_id c) @ '': '' @ p] else []))"

definition brief_build :: "ir \<Rightarrow> registry \<Rightarrow> claim_brief list \<times> string list" where
  "brief_build i reg =
     (map (brief_claim i reg) (ir_claims i), concat (map (brief_problems i reg) (ir_claims i)))"

subsection \<open>The JSON rendering\<close>

abbreviation YOUR_TEST :: string where
  "YOUR_TEST \<equiv> ''<your-test-name>''"

definition shown_command :: "verifier_spec \<Rightarrow> string" where
  "shown_command s = replace_str (vs_run s) SELECTOR_TOKEN YOUR_TEST"

definition is_template :: "verifier_spec \<Rightarrow> bool" where
  "is_template s \<longleftrightarrow> contains (vs_run s) SELECTOR_TOKEN"

definition brief_evidence_json :: "verifier_spec option \<Rightarrow> json" where
  "brief_evidence_json spec =
     (case spec of
        None \<Rightarrow> JNull
      | Some s \<Rightarrow> JObject
          [(''command'', JString (shown_command s)), (''expect'', JString (vs_expect s)),
           (''expect_not'', JString (vs_expect_not s)), (''files'', JArray (map JString (vs_files s))),
           (''kind'', JString (vs_kind s)), (''timeout_secs'', JInt (int (vs_timeout s)))])"

definition brief_claim_json :: "claim_brief \<Rightarrow> json" where
  "brief_claim_json b = JObject
     [(''critical'', JBool (ci_critical (cb_claim b))), (''ensure'', JString (ci_ensure (cb_claim b))),
      (''evidence'', brief_evidence_json (cb_spec b)), (''id'', JString (ci_id (cb_claim b))),
      (''kind'', JString (ci_kind (cb_claim b))), (''problem'', opt_value (cb_problem b)),
      (''required'', JBool (ci_required (cb_claim b))),
      (''selector_template'', JBool (case cb_spec b of Some s \<Rightarrow> is_template s | None \<Rightarrow> False)),
      (''verifier'', opt_value (cb_ref b))]"

definition brief_to_json :: "ir \<Rightarrow> claim_brief list \<Rightarrow> string list \<Rightarrow> string \<Rightarrow> json" where
  "brief_to_json i claims problems registry_hash = JObject
     [(''acceptance'', JObject [(''critical_failures'', JInt 0), (''required_claims_verified'', JBool True)]),
      (''claims'', JArray (map brief_claim_json claims)),
      (''domain'', JString (in_domain (ir_intent i))), (''goal'', JString (in_goal (ir_intent i))),
      (''intent'', JString (in_id (ir_intent i))),
      (''note'', JString (''Guidance only. Commands run exclusively from the trusted registry; the agent'' @
         [single_quote] @ ''s own report is never evidence.'')),
      (''problems'', JArray (map JString problems)), (''registry_hash'', JString registry_hash)]"

subsection \<open>The Markdown rendering\<close>

abbreviation tick :: string where
  "tick \<equiv> [CHR 0x60]"

definition ticked :: "string \<Rightarrow> string" where
  "ticked s = tick @ s @ tick"

definition line :: "string \<Rightarrow> string" where
  "line s = s @ [nl]"

definition line_if :: "bool \<Rightarrow> string \<Rightarrow> string" where
  "line_if b s = (if b then line s else [])"

definition md_file_hash :: "verifier_spec \<Rightarrow> string" where
  "md_file_hash s =
     line ''- type: file-hash (no command runs)'' @
     line_if (vs_files s \<noteq> []) (''- watched files: '' @ join '', '' (vs_files s)) @
     (if vs_expect_sha256 s = [] then []
      else line ''- expected sha256:'' @
        concat (map (\<lambda>(p, h). line (''  - '' @ ticked p @ '' = '' @ ticked h)) (vs_expect_sha256 s)))"

definition md_template :: "string \<Rightarrow> string \<Rightarrow> verifier_spec \<Rightarrow> string" where
  "md_template claim_id ref s =
     line ''- write the test; choose a clear name; a human then authorizes'' @
     line ''  that exact name, and only then does it count as evidence:'' @
     line (''  '' @ ticked (''uni bind --claim '' @ claim_id @ '' --verifier '' @ ref @
            '' --selector <your-test-name>'')) @
     line (''- it will run as: '' @ ticked (shown_command s)) @
     line_if (vs_expect s \<noteq> []) (''- required in output: '' @ ticked (vs_expect s))"

definition md_command :: "verifier_spec \<Rightarrow> string" where
  "md_command s =
     line (''- command: '' @ ticked (vs_run s)) @
     line_if (vs_expect s \<noteq> []) (''- required in output: '' @ ticked (vs_expect s)) @
     line_if (vs_expect_not s \<noteq> []) (''- forbidden in output: '' @ ticked (vs_expect_not s)) @
     line_if (vs_files s \<noteq> []) (''- content-bound files: '' @ join '', '' (vs_files s)) @
     (case test_selector (vs_run s) of
        None \<Rightarrow> []
      | Some sel \<Rightarrow>
          [nl] @ line (''This command selects the test '' @ ticked sel @ ''. That test must exist under'') @
          line ''that exact name; a differently named test proves nothing here.'')"

definition md_claim :: "claim_brief \<Rightarrow> string" where
  "md_claim b =
     (let c = cb_claim b in
      line (''### '' @ ci_id c @ '' ('' @ ci_kind c @ '', '' @
        (if ci_required c then ''required'' else ''optional'') @
        (if ci_critical c then '' CRITICAL'' else []) @ '')'') @
      line_if (ci_ensure c \<noteq> []) (''Must hold: '' @ ci_ensure c) @
      (case (cb_ref b, cb_spec b) of
         (Some r, Some s) \<Rightarrow>
           [nl] @ line (''Evidence required (verifier '' @ ticked r @ ''):'') @
           (if vs_kind s = ''file-hash'' then md_file_hash s
            else if is_template s then md_template (ci_id c) r s
            else md_command s)
       | (Some r, None) \<Rightarrow>
           [nl] @ line (''Evidence required (verifier '' @ ticked r @ ''): NOT RESOLVABLE from the registry.'')
       | (None, _) \<Rightarrow>
           [nl] @ line ''Evidence required: nothing declared. This claim cannot be accepted.'') @
      [nl])"

definition brief_to_markdown :: "ir \<Rightarrow> claim_brief list \<Rightarrow> string list \<Rightarrow> string" where
  "brief_to_markdown i claims problems =
     line (''# Work order: '' @ in_id (ir_intent i)) @ [nl] @
     (if in_goal (ir_intent i) = [] then [] else line (''Goal: '' @ in_goal (ir_intent i)) @ [nl]) @
     line ''Acceptance is decided from EVIDENCE, not from a report of completion.'' @
     line ''A claim is accepted only when its verifier produces green evidence that is'' @
     line (''still valid for the current commit; your own '' @ [double_quote] @ ''done'' @ [double_quote] @
           '' message is never evidence.'') @ [nl] @
     line ''## Claims to satisfy'' @ [nl] @
     concat (map md_claim claims) @
     (if problems = [] then []
      else line ''## Problems in the contract'' @ [nl] @ concat (map (\<lambda>p. line (''- '' @ p)) problems) @ [nl]) @
     line ''## Rules'' @ [nl] @
     line (''- Commands run only from '' @ ticked ''.uni/config.toml [verifiers]'' @ ''; do not invent commands.'') @
     line ''- Do not edit the contract, the registry, or previously passing tests to make evidence green.'' @
     line ''- Report what you actually did; UNI decides acceptance, not you.''"

subsection \<open>Rendering\<close>

text \<open>\<open>to_string_pretty\<close> of serde_json is a parameter.\<close>

definition render_brief ::
  "(string \<Rightarrow> toml option) \<Rightarrow> (string \<Rightarrow> nat list) \<Rightarrow> (json \<Rightarrow> string) \<Rightarrow> string option \<Rightarrow> string option \<Rightarrow>
   bool \<Rightarrow> cmd_error + string" where
  "render_brief parse_toml digest pretty file config as_json =
     bind_r (load_contract file) (\<lambda>i.
       let (claims, problems) = brief_build i (load_registry parse_toml config) in
       Inr (if as_json
            then pretty (brief_to_json i claims problems (sha256_hex digest (text_or_empty config)))
            else brief_to_markdown i claims problems))"

end
