(* ===== verification/Run_Cmd.thy ===== *)
theory Run_Cmd
  imports Brief Verify_State
begin

section \<open>The run command and what a work order promises (cmd/verify.rs, brief.rs)\<close>

text \<open>
  \<open>uni run\<close>: the work order is written, the command of the human is executed, the execution is
  recorded in the journal, and the contract is verified. What the executor does to the
  machine, to \<open>.uni\<close> and to the contract is a parameter; so is what is printed.
\<close>

subsection \<open>The work order\<close>

lemma split_once_leftmost: "split_once pat s = Some (a, b) \<Longrightarrow> pat \<noteq> [] \<Longrightarrow> \<not> contains a pat"
proof (induction s arbitrary: a)
  case Nil
  then show ?case by (simp split: if_splits)
next
  case (Cons x xs)
  show ?case
  proof (cases "strip_prefix pat (x # xs)")
    case (Some r)
    then show ?thesis using Cons.prems by (auto simp: contains_def)
  next
    case None
    then obtain a' where a: "a = x # a'" and s: "split_once pat xs = Some (a', b)"
      using Cons.prems(1) by (auto split: option.splits)
    have "\<not> contains a' pat" using Cons.IH [OF s Cons.prems(2)] .
    moreover have "strip_prefix pat (x # a') = None"
    proof (rule ccontr)
      assume "strip_prefix pat (x # a') \<noteq> None"
      then obtain r where "x # a' = pat @ r" by (auto simp: strip_prefix_iff)
      then have "x # xs = pat @ (r @ pat @ b)" using split_once_Some [OF s] by simp
      then show False using None by (metis option.distinct(1) strip_prefix_append)
    qed
    ultimately show ?thesis by (simp add: a contains_def)
  qed
qed

lemma split_str_parts: "pat \<noteq> [] \<Longrightarrow> x \<in> set (split_str pat s) \<Longrightarrow> \<not> contains x pat"
proof (induction pat s rule: split_str.induct)
  case (1 pat s)
  show ?case
  proof (cases "split_once pat s")
    case None
    then show ?thesis using 1(3) by (subst (asm) split_str.simps) (simp add: contains_def)
  next
    case (Some ab)
    obtain a b where ab: "ab = (a, b)" by (cases ab)
    have "x = a \<or> x \<in> set (split_str pat b)"
      using 1(2,3) Some ab by (subst (asm) split_str.simps) simp
    then show ?thesis
      using 1(1) [OF Some ab [symmetric] 1(2,2)] split_once_leftmost [OF Some [unfolded ab] 1(2)] by blast
  qed
qed

text \<open>
  A pattern that does not occur in a separator, and has neither its first nor its last
  character, does not occur across it.
\<close>

definition no_bridge :: "string \<Rightarrow> string \<Rightarrow> bool" where
  "no_bridge pat sep \<longleftrightarrow> pat \<noteq> [] \<and> sep \<noteq> [] \<and> hd sep \<notin> set pat \<and> last sep \<notin> set pat \<and> \<not> contains sep pat"

lemma nth_occurrence: "length u \<le> k \<Longrightarrow> k < length (u @ pat) \<Longrightarrow> (u @ pat @ v) ! k \<in> set pat"
  by (auto simp: nth_append)

lemma contains_across:
  assumes nb: "no_bridge pat sep" and "contains (a @ sep @ b) pat"
  shows "contains a pat \<or> contains b pat"
proof -
  obtain u v where e: "a @ sep @ b = u @ pat @ v" using assms(2) by (auto simp: contains_iff)
  consider "length (u @ pat) \<le> length a" | "length (a @ sep) \<le> length u"
    | "length u \<le> length a" "length a < length (u @ pat)"
    | "length a < length u" "length u < length (a @ sep)" "length (a @ sep) \<le> length (u @ pat)"
    | "length a < length u" "length (u @ pat) < length (a @ sep)" by linarith
  then show ?thesis
  proof cases
    case 1
    then have "a = take (length a) ((u @ pat) @ v)" using e by (metis append.assoc append_eq_conv_conj)
    then have "a = u @ pat @ take (length a - length (u @ pat)) v" using 1 by simp
    then show ?thesis unfolding contains_iff by blast
  next
    case 2
    have "(a @ sep) @ b = u @ pat @ v" using e by simp
    then have "u = a @ sep @ drop (length (a @ sep)) u"
      using 2 by (metis append.assoc append_eq_append_conv_if append_take_drop_id)
    then have "b = drop (length (a @ sep)) u @ pat @ v" using e by (metis append.assoc same_append_eq)
    then show ?thesis unfolding contains_iff by blast
  next
    case 3
    have "(a @ sep @ b) ! length a = hd sep"
      using nb by (simp add: no_bridge_def nth_append hd_conv_nth)
    then show ?thesis using nth_occurrence [OF 3, of v] e nb by (simp add: no_bridge_def)
  next
    case 4
    have k: "length u \<le> length (a @ sep) - 1" "length (a @ sep) - 1 < length (u @ pat)" using 4 by simp_all
    have "length (a @ sep) - 1 = length a + (length sep - 1)"
      using nb by (cases sep) (simp_all add: no_bridge_def)
    moreover have "(a @ sep @ b) ! (length a + (length sep - 1)) = (sep @ b) ! (length sep - 1)" by simp
    moreover have "(sep @ b) ! (length sep - 1) = last sep"
      using nb by (simp add: no_bridge_def nth_append last_conv_nth)
    ultimately have "(a @ sep @ b) ! (length (a @ sep) - 1) = last sep" by simp
    then show ?thesis using nth_occurrence [OF k, of v] e nb by (simp add: no_bridge_def)
  next
    case 5
    define w where "w = drop (length a) u"
    have u: "u = a @ w"
      using e 5(1) by (metis append_eq_append_conv_if append_take_drop_id less_imp_le w_def)
    have "sep @ b = w @ pat @ v" using e by (simp add: u)
    moreover have "length (w @ pat) < length sep" using 5(2) by (simp add: u)
    ultimately have "sep = w @ pat @ take (length sep - length (w @ pat)) v"
      by (metis append.assoc append_eq_append_conv_if append_take_drop_id less_imp_le take_append take_all
          append_eq_conv_conj)
    then have "contains sep pat" unfolding contains_iff by blast
    then show ?thesis using nb by (simp add: no_bridge_def)
  qed
qed

lemma join_avoids:
  assumes "no_bridge pat sep" and "\<And>x. x \<in> set xs \<Longrightarrow> \<not> contains x pat"
  shows "\<not> contains (join sep xs) pat"
  using assms(2)
proof (induction xs)
  case Nil
  then show ?case using assms(1) by (simp add: contains_iff no_bridge_def)
next
  case (Cons x xs)
  show ?case
  proof (cases xs)
    case Nil
    then show ?thesis using Cons.prems by simp
  next
    case (Cons y ys)
    have "join sep (x # xs) = x @ sep @ join sep xs" by (simp add: Cons)
    then show ?thesis using contains_across [OF assms(1)] Cons.IH Cons.prems by auto
  qed
qed


text \<open>
  A work order without problems is one the registry can carry out: every claim has a
  verification, and its first one names an entry of the registry, unless the registry is empty.
  (The empty name is no key of the registry.)
\<close>

theorem brief_clean_iff:
  assumes "bt_get reg [] = None"
  shows "snd (brief_build i reg) = [] \<longleftrightarrow>
    (\<forall>c\<in>set (ir_claims i). \<exists>v. verification_of i c = Some v \<and>
       (reg = [] \<or> bt_get reg (vi_verifier_ref v) \<noteq> None))"
proof -
  have "brief_problems i reg c = [] \<longleftrightarrow>
      (\<exists>v. verification_of i c = Some v \<and> (reg = [] \<or> bt_get reg (vi_verifier_ref v) \<noteq> None))" for c
    using assms
    by (auto simp: brief_problems_def brief_claim_def text_or_empty_def Let_def split: option.splits if_splits)
  then show ?thesis by (simp add: brief_build_def)
qed

theorem brief_clean_iff_witness:
  "snd (brief_build demo_ir [(''k'', shell_spec ''true'')]) = [] \<and>
   snd (brief_build demo_ir [(''j'', shell_spec ''true'')]) \<noteq> []"
  using brief_clean_iff [of "[(''k'', shell_spec ''true'')]" demo_ir]
    brief_clean_iff [of "[(''j'', shell_spec ''true'')]" demo_ir]
  by (simp add: demo_ir_def bt_get_def verification_of_def)

text \<open>
  An inline command that the registry lists is run by \<open>uni verify\<close>, and the work order of the
  same contract calls its verifier unresolvable.
\<close>

theorem brief_false_problem:
  "\<exists>i reg v. ir_verification i = [v] \<and>
     resolve_command (vi_verifier_ref v) (vi_inline_shell v) reg = Inr (shell_spec ''true'') \<and>
     snd (brief_build i reg) \<noteq> []"
proof -
  define v where "v = \<lparr>vi_claim_id = ''a'', vi_verifier_ref = ''shell'', vi_inline_shell = Some ''true'',
      vi_requirement = None\<rparr>"
  define i where "i = demo_ir\<lparr>ir_verification := [v]\<rparr>"
  have "resolve_command (vi_verifier_ref v) (vi_inline_shell v) [(''k'', shell_spec ''true'')] = Inr (shell_spec ''true'')"
    by (simp add: v_def resolve_command_def shell_spec_def)
  moreover have "snd (brief_build i [(''k'', shell_spec ''true'')]) \<noteq> []"
    by (simp add: i_def v_def demo_ir_def brief_build_def brief_problems_def brief_claim_def verification_of_def
        bt_get_def text_or_empty_def)
  ultimately show ?thesis by (intro exI [of _ i] exI [of _ "[(''k'', shell_spec ''true'')]"] exI [of _ v]) (simp add: i_def)
qed

text \<open>The flag is searched anywhere in the command, inside a word too.\<close>

theorem selector_guesses: "test_selector ''npm run check-keys'' = Some ''eys''"
  by code_simp

subsection \<open>Execution\<close>

text \<open>
  The executor is given the command, the time limit and, with \<open>--brief\<close>, the work order; it
  may change the machine, the \<open>.uni\<close> directory and the contract.
\<close>

type_synonym 'w executor =
  "string \<Rightarrow> nat \<Rightarrow> string option \<Rightarrow> 'w \<times> uni_dir \<times> string option \<Rightarrow>
   proc_run \<times> 'w \<times> uni_dir \<times> string option"

datatype run_error =
    BriefFailed cmd_error
  | SpawnFailed
  | RunVerify cmd_error

definition executor_code :: "proc_run \<Rightarrow> int" where
  "executor_code p = (case p of Exited (Some n) _ \<Rightarrow> n | _ \<Rightarrow> -1)"

definition executor_output :: "nat \<Rightarrow> proc_run \<Rightarrow> string" where
  "executor_output timeout_ms p =
     (case p of
        SpawnError \<Rightarrow> []
      | Exited _ out \<Rightarrow> out
      | TimedOut out \<Rightarrow> out @ [nl] @ ''[uni] executor killed after '' @ show_nat timeout_ms @ ''ms'' @ [nl])"

definition execution_event :: "string \<Rightarrow> int \<Rightarrow> nat \<Rightarrow> event" where
  "execution_event command code ms =
     \<lparr>jn_name = ''ExecutionRun'',
      jn_attrs = [(''uni.execution.command'', command), (''uni.execution.exit_code'', show_int code),
                  (''uni.execution.duration_ms'', show_nat ms)]\<rparr>"

definition run_brief ::
  "('w, 'k, 'd) verify_env \<Rightarrow> bool \<Rightarrow> string option \<Rightarrow> uni_dir \<Rightarrow> cmd_error + string option" where
  "run_brief env brief file uni =
     (if brief
      then bind_r (render_brief (ve_parse_toml env) (os_digest (ve_os env)) (ve_to_string env) file
             (ud_config uni) False) (\<lambda>body. Inr (Some (body @ [nl])))
      else Inr None)"

definition record_execution ::
  "('w, 'k, 'd) verify_env \<Rightarrow> string \<Rightarrow> proc_run \<Rightarrow> 'w \<Rightarrow> 'w \<Rightarrow> uni_dir \<Rightarrow> uni_dir" where
  "record_execution env command p w w' uni =
     (let now = os_now (ve_os env) w' in
      uni\<lparr>ud_journal := append_events (ve_to_string env) (ve_stamp env now) (ve_rfc3339 env now)
            [execution_event command (executor_code p) (os_elapsed_ms (ve_os env) w w')] (ud_journal uni)\<rparr>)"

definition cmd_run ::
  "('w, 'k, 'd) verify_env \<Rightarrow> 'w executor \<Rightarrow> string \<Rightarrow> nat \<Rightarrow> bool \<Rightarrow> verify_args \<Rightarrow> uni_dir \<Rightarrow> 'w \<Rightarrow>
   (run_error + verify_report) \<times> uni_dir" where
  "cmd_run env exec command timeout_ms brief args uni w =
     (case run_brief env brief (va_contract args) uni of
        Inl e \<Rightarrow> (Inl (BriefFailed e), uni)
      | Inr body \<Rightarrow>
          (case exec command (max timeout_ms 1) body (w, uni, va_contract args) of
             (SpawnError, _) \<Rightarrow> (Inl SpawnFailed, uni)
           | (p, w', uni', contract') \<Rightarrow>
               let (res, uni'') = cmd_verify env (args\<lparr>va_contract := contract', va_attest := False\<rparr>)
                     (record_execution env command p w w' uni') w'
               in (map_err RunVerify res, uni'')))"

lemma gather_ignores_journal:
  "gather env args (uni\<lparr>ud_journal := d\<rparr>) w = gather env args uni w"
proof -
  have 1: "make_ctx env args (uni\<lparr>ud_journal := d\<rparr>) = make_ctx env args uni"
    by (simp add: make_ctx_def fun_eq_iff)
  have 2: "scan_one env (uni\<lparr>ud_journal := d\<rparr>) = scan_one env uni"
    by (simp add: scan_one_def fun_eq_iff)
  have 3: "opening_events env args (uni\<lparr>ud_journal := d\<rparr>) = opening_events env args uni"
    by (simp add: opening_events_def boundary_changed_def boundary_diff_def previous_hash_def fun_eq_iff)
  have 4: "choose_actor env args (uni\<lparr>ud_journal := d\<rparr>) = choose_actor env args uni"
    by (simp add: choose_actor_def fun_eq_iff Let_def split: option.split)
  have 5: "resolve_policy env (uni\<lparr>ud_journal := d\<rparr>) = resolve_policy env uni"
    by (simp add: resolve_policy_def fun_eq_iff)
  show ?thesis unfolding gather_def 1 2 3 4 5 ..
qed

lemma verify_ignores_journal:
  "fst (cmd_verify env args (uni\<lparr>ud_journal := d\<rparr>) w) = fst (cmd_verify env args uni w)"
  by (simp add: cmd_verify_def gather_ignores_journal run_report_def boundary_changed_def previous_hash_def
      split: sum.splits prod.splits)

text \<open>
  C12. The executor has no authority: what \<open>uni run\<close> answers is what \<open>uni verify\<close> would answer about
  the machine, the directory and the contract the executor left. Its exit code, its output, a
  time out and its duration go to the journal and decide nothing.
\<close>

theorem run_is_verify:
  assumes "run_brief env brief (va_contract args) uni = Inr body"
    and "exec command (max timeout_ms 1) body (w, uni, va_contract args) = (p, w', uni', contract')"
    and "p \<noteq> SpawnError"
  shows "fst (cmd_run env exec command timeout_ms brief args uni w) =
    map_err RunVerify (fst (cmd_verify env (args\<lparr>va_contract := contract', va_attest := False\<rparr>) uni' w'))"
proof -
  let ?a = "args\<lparr>va_contract := contract', va_attest := False\<rparr>"
  have "fst (cmd_run env exec command timeout_ms brief args uni w) =
      map_err RunVerify (fst (cmd_verify env ?a (record_execution env command p w w' uni') w'))"
    using assms by (cases p) (simp_all add: cmd_run_def split: prod.splits)
  then show ?thesis by (simp add: record_execution_def Let_def verify_ignores_journal)
qed

text \<open>An executor that fails and leaves everything as it was.\<close>

definition failing_executor :: "nat executor" where
  "failing_executor command ms brief s = (Exited (Some 1) [], s)"

theorem run_is_verify_witness:
  "\<exists>rep. fst (cmd_run demo_env failing_executor ''agent'' 0 True demo_args demo_uni 0) = Inr rep"
proof -
  obtain body where b: "run_brief demo_env True (va_contract demo_args) demo_uni = Inr body"
    using demo_load_contract
    by (simp add: run_brief_def render_brief_def demo_args_def brief_build_def)
  obtain rep uni' where v: "cmd_verify demo_env demo_args demo_uni 0 = (Inr rep, uni')"
    using demo_verify by blast
  have "demo_args\<lparr>va_contract := va_contract demo_args, va_attest := False\<rparr> = demo_args"
    by (simp add: demo_args_def)
  then show ?thesis
    using run_is_verify [OF b, of failing_executor "''agent''" 0 0 "Exited (Some 1) []" 0 demo_uni "va_contract demo_args"] v
    by (simp add: failing_executor_def)
qed

end
