(* ===== verification/Bundle.thy ===== *)
theory Bundle
  imports Verify_Cmd
begin

section \<open>Audit bundles (crates/uni-cli, bundle.rs and cmd/handoff.rs)\<close>

text \<open>
  \<open>uni bundle export\<close> writes what a decision rests on as one JSON record per line, each with
  the hash of its body, and \<open>uni bundle verify\<close> checks such a file without the repository. A
  JSON value is built and taken apart as the code does; its text (\<open>to_string\<close> and \<open>from_str\<close>
  of serde_json) and the generated serialization of an evidence record are parameters. The
  serialized intermediate representation and binding have their derived fields.
\<close>

record bundle_codec =
  bc_digest :: "string \<Rightarrow> nat list"
  bc_to_string :: "json \<Rightarrow> string"
  bc_from_str :: "string \<Rightarrow> json option"
  bc_evidence :: "evidence \<Rightarrow> json"
  bc_evidence_of :: "json \<Rightarrow> evidence option"

abbreviation BUNDLE_VERSION :: string where
  "BUNDLE_VERSION \<equiv> ''uni-bundle-0.1''"

record bundle_header =
  bh_version :: string
  bh_intent :: string
  bh_registry_hash :: string
  bh_contract_hash :: string
  bh_created_at :: string
  bh_tool :: string
  bh_records :: nat

text \<open>The text of a field, empty where there is none, and an unsigned integer.\<close>

definition str_at :: "json \<Rightarrow> string \<Rightarrow> string" where
  "str_at v k = text_or_empty (json_str (json_index v k))"

definition json_u64 :: "json \<Rightarrow> nat option" where
  "json_u64 v = (case v of JInt i \<Rightarrow> if 0 \<le> i \<and> i < 2 ^ 64 then Some (nat i) else None | _ \<Rightarrow> None)"

subsection \<open>The records\<close>

definition ir_value :: "ir \<Rightarrow> json" where
  "ir_value i = JObject
     [(''acceptance'', JObject [(''require_verified'', JBool (ai_require_verified (ir_acceptance i)))]),
      (''claims'', JArray (map (\<lambda>c. JObject
         [(''critical'', JBool (ci_critical c)), (''ensure'', JString (ci_ensure c)),
          (''id'', JString (ci_id c)), (''kind'', JString (ci_kind c)),
          (''required'', JBool (ci_required c))]) (ir_claims i))),
      (''intent'', JObject
         [(''domain'', JString (in_domain (ir_intent i))), (''goal'', JString (in_goal (ir_intent i))),
          (''id'', JString (in_id (ir_intent i)))]),
      (''uni_version'', JString (ir_uni_version i)),
      (''verification'', JArray (map (\<lambda>v. JObject
         [(''claim_id'', JString (vi_claim_id v)), (''inline_shell'', opt_value (vi_inline_shell v)),
          (''requirement'', opt_value (vi_requirement v)),
          (''verifier_ref'', JString (vi_verifier_ref v))]) (ir_verification i)))]"

definition binding_value :: "verifier_binding \<Rightarrow> json" where
  "binding_value b = JObject
     [(''authorized_at'', JString (vb_authorized_at b)), (''authorized_by'', JString (vb_authorized_by b)),
      (''binding_hash'', JString (vb_binding_hash b)), (''claim_id'', JString (vb_claim_id b)),
      (''requirement'', JString (vb_requirement b)), (''selector'', opt_value (vb_selector b)),
      (''verifier_ref'', JString (vb_verifier_ref b))]"

definition body_hash :: "bundle_codec \<Rightarrow> json \<Rightarrow> string" where
  "body_hash c body = sha256_hex (bc_digest c) (bc_to_string c body)"

text \<open>\<open>record\<close>\<close>

definition record_value :: "bundle_codec \<Rightarrow> string \<times> json \<Rightarrow> json" where
  "record_value c = (\<lambda>(kind, body). JObject
     [(''body'', body), (''kind'', JString kind), (''sha256'', JString (body_hash c body))])"

text \<open>What an export reads: the contract, and the \<open>.uni\<close> directory.\<close>

record bundle_src =
  bu_path :: string
  bu_contract :: "string option"
  bu_config :: "string option"
  bu_policies :: "text_dir option"
  bu_evidence :: evidence_dir
  bu_bindings :: bindings_state
  bu_last :: "json option"
  bu_events :: "string option"

definition contract_record :: "bundle_codec \<Rightarrow> bundle_src \<Rightarrow> ir \<Rightarrow> string \<times> json" where
  "contract_record c s i = (''contract'', JObject
     [(''hash'', JString (sha256_hex (bc_digest c) (text_or_empty (bu_contract s)))),
      (''ir'', ir_value i), (''path'', JString (bu_path s)),
      (''text'', JString (text_or_empty (bu_contract s)))])"

definition registry_record :: "bundle_codec \<Rightarrow> bundle_src \<Rightarrow> string \<times> json" where
  "registry_record c s = (''registry'', JObject
     [(''hash'', JString (sha256_hex (bc_digest c) (text_or_empty (bu_config s)))),
      (''text'', JString (text_or_empty (bu_config s)))])"

definition policy_records :: "bundle_src \<Rightarrow> (string \<times> json) list" where
  "policy_records s =
     (case bu_policies s of
        None \<Rightarrow> []
      | Some d \<Rightarrow> List.map_filter
          (\<lambda>(name, content).
             if path_extension name = Some ''toml'' \<or> path_extension name = Some ''rego''
             then map_option (\<lambda>t. (''policy'', JObject [(''name'', JString name), (''text'', JString t)])) content
             else None) (sort_key fst d))"

definition bundled_evidence :: "bundle_src \<Rightarrow> ir \<Rightarrow> evidence list" where
  "bundled_evidence s i =
     filter (\<lambda>e. ev_claim_id e \<in> ci_id ` set (ir_claims i)) (map snd (sort_key fst (listed (bu_evidence s))))"

definition bundled_bindings :: "bundle_src \<Rightarrow> ir \<Rightarrow> verifier_binding list" where
  "bundled_bindings s i =
     List.map_filter
       (\<lambda>v. if vi_requirement v \<noteq> None then load_binding (bu_bindings s) (vi_claim_id v) else None)
       (ir_verification i)"

definition decision_records :: "bundle_src \<Rightarrow> ir \<Rightarrow> (string \<times> json) list" where
  "decision_records s i =
     (case bu_last s of
        None \<Rightarrow> []
      | Some d \<Rightarrow>
          if Option.bind (Option.bind (json_get d ''intent'') (\<lambda>x. json_get x ''id'')) json_str =
             Some (in_id (ir_intent i))
          then [(''decision'', d)] else [])"

definition event_records :: "bundle_codec \<Rightarrow> bundle_src \<Rightarrow> (string \<times> json) list" where
  "event_records c s =
     (case bu_events s of
        None \<Rightarrow> []
      | Some text \<Rightarrow> [(''events'', JObject
          [(''events'', JArray (List.map_filter (bc_from_str c) (filter (\<lambda>l. trim l \<noteq> []) (lines text))))])])"

definition bundle_records :: "bundle_codec \<Rightarrow> bundle_src \<Rightarrow> ir \<Rightarrow> (string \<times> json) list" where
  "bundle_records c s i =
     [contract_record c s i, registry_record c s] @ policy_records s @
     map (\<lambda>e. (''evidence'', bc_evidence c e)) (bundled_evidence s i) @
     map (\<lambda>b. (''binding'', binding_value b)) (bundled_bindings s i) @
     decision_records s i @ event_records c s"

subsection \<open>Exporting\<close>

definition header_seed :: "bundle_header \<Rightarrow> json" where
  "header_seed h = JObject
     [(''contract_hash'', JString (bh_contract_hash h)), (''intent'', JString (bh_intent h)),
      (''registry_hash'', JString (bh_registry_hash h)), (''version'', JString (bh_version h))]"

definition header_value :: "bundle_codec \<Rightarrow> bundle_header \<Rightarrow> json" where
  "header_value c h = JObject
     [(''body'', JObject
         [(''contract_hash'', JString (bh_contract_hash h)), (''created_at'', JString (bh_created_at h)),
          (''intent'', JString (bh_intent h)), (''records'', JInt (int (bh_records h))),
          (''registry_hash'', JString (bh_registry_hash h)), (''tool'', JString (bh_tool h)),
          (''version'', JString (bh_version h))]),
      (''kind'', JString ''header''), (''sha256'', JString (body_hash c (header_seed h)))]"

definition bundle_text :: "string list \<Rightarrow> string" where
  "bundle_text ls = concat (map (\<lambda>l. l @ [nl]) ls)"

definition bundle_export ::
  "bundle_codec \<Rightarrow> string \<Rightarrow> string \<Rightarrow> bundle_src \<Rightarrow> cmd_error + bundle_header \<times> string" where
  "bundle_export c now tool s =
     bind_r (load_contract (bu_contract s)) (\<lambda>i.
       let recs = bundle_records c s i;
           h = \<lparr>bh_version = BUNDLE_VERSION, bh_intent = in_id (ir_intent i),
                bh_registry_hash = sha256_hex (bc_digest c) (text_or_empty (bu_config s)),
                bh_contract_hash = sha256_hex (bc_digest c) (text_or_empty (bu_contract s)),
                bh_created_at = now, bh_tool = tool, bh_records = length recs\<rparr>
       in Inr (h, bundle_text (map (bc_to_string c) (header_value c h # map (record_value c) recs))))"

subsection \<open>Verifying\<close>

datatype bundle_error =
    UnreadableBundle
  | EmptyBundle
  | MalformedHeader
  | NoHeader
  | UnsupportedVersion string
  | MalformedRecord
  | MalformedEvidence

datatype integrity_error =
    HeaderHash
  | RecordHash string
  | ContractText
  | RegistryText
  | RecordCount nat nat

datatype cross_error =
    OtherRegistry string
  | OtherContract string
  | NoBundledBinding string string
  | NoBundledEvidence string
  | UnknownClaim string

type_synonym string_set = "unit btree"

abbreviation ss_insert :: "string \<Rightarrow> string_set \<Rightarrow> string_set" where
  "ss_insert x s \<equiv> bt_insert x () s"

record bundle_scan =
  bn_records :: nat
  bn_integrity :: "integrity_error list"
  bn_cross :: "cross_error list"
  bn_evidence :: string_set
  bn_contract :: string_set
  bn_bindings :: string_set
  bn_requirements :: "(string \<times> string) list"
  bn_decision :: string_set

record bundle_report =
  br_records :: nat
  br_integrity :: "integrity_error list"
  br_cross :: "cross_error list"
  br_covered :: nat
  br_total :: nat

definition read_header :: "json \<Rightarrow> bundle_header" where
  "read_header v =
     (let hb = json_index v ''body'' in
      \<lparr>bh_version = str_at hb ''version'', bh_intent = str_at hb ''intent'',
       bh_registry_hash = str_at hb ''registry_hash'', bh_contract_hash = str_at hb ''contract_hash'',
       bh_created_at = str_at hb ''created_at'', bh_tool = str_at hb ''tool'',
       bh_records = (case json_u64 (json_index hb ''records'') of Some n \<Rightarrow> n | None \<Rightarrow> 0)\<rparr>)"

definition insert_ids :: "string \<Rightarrow> json \<Rightarrow> string_set \<Rightarrow> string_set" where
  "insert_ids key xs s =
     fold (\<lambda>x s. case json_str (json_index x key) of Some i \<Rightarrow> ss_insert i s | None \<Rightarrow> s) (items_of xs) s"

definition requirement_of :: "json \<Rightarrow> (string \<times> string) option" where
  "requirement_of v =
     map_option (\<lambda>req. (str_at v ''claim_id'', req)) (json_str (json_index v ''requirement''))"

definition evidence_drift :: "bundle_header \<Rightarrow> evidence \<Rightarrow> cross_error list" where
  "evidence_drift h ev =
     (if ev_registry_hash ev \<noteq> [] \<and> ev_registry_hash ev \<noteq> bh_registry_hash h
      then [OtherRegistry (ev_claim_id ev)] else []) @
     (if ev_contract_hash ev \<noteq> [] \<and> ev_contract_hash ev \<noteq> bh_contract_hash h
      then [OtherContract (ev_claim_id ev)] else [])"

definition record_kind :: "json \<Rightarrow> string" where
  "record_kind v = (case Option.bind (json_get v ''kind'') json_str of Some k \<Rightarrow> k | None \<Rightarrow> ''?'')"

definition record_hash_ok :: "bundle_codec \<Rightarrow> json \<Rightarrow> bool" where
  "record_hash_ok c v \<longleftrightarrow>
     Option.bind (json_get v ''sha256'') json_str = Some (body_hash c (json_index v ''body''))"

definition scan_contract :: "bundle_codec \<Rightarrow> bundle_header \<Rightarrow> json \<Rightarrow> bundle_scan \<Rightarrow> bundle_scan" where
  "scan_contract c h body s =
     s\<lparr>bn_integrity := bn_integrity s @
         (if sha256_hex (bc_digest c) (str_at body ''text'') \<noteq> bh_contract_hash h then [ContractText] else []),
       bn_contract := insert_ids ''id'' (json_index (json_index body ''ir'') ''claims'') (bn_contract s),
       bn_requirements := bn_requirements s @
         List.map_filter requirement_of (items_of (json_index (json_index body ''ir'') ''verification''))\<rparr>"

definition scan_kind ::
  "bundle_codec \<Rightarrow> bundle_header \<Rightarrow> string \<Rightarrow> json \<Rightarrow> bundle_scan \<Rightarrow> bundle_error + bundle_scan" where
  "scan_kind c h kind body s =
     (if kind = ''contract'' then Inr (scan_contract c h body s)
      else if kind = ''registry'' then
        Inr (s\<lparr>bn_integrity := bn_integrity s @
          (if sha256_hex (bc_digest c) (str_at body ''text'') \<noteq> bh_registry_hash h then [RegistryText] else [])\<rparr>)
      else if kind = ''evidence'' then
        bind_r (ok_or (bc_evidence_of c body) MalformedEvidence) (\<lambda>ev.
          Inr (s\<lparr>bn_evidence := ss_insert (ev_claim_id ev) (bn_evidence s),
                 bn_cross := bn_cross s @ evidence_drift h ev\<rparr>))
      else if kind = ''binding'' then
        Inr (case json_str (json_index body ''claim_id'') of
               Some i \<Rightarrow> s\<lparr>bn_bindings := ss_insert i (bn_bindings s)\<rparr> | None \<Rightarrow> s)
      else if kind = ''decision'' then
        Inr (s\<lparr>bn_decision := insert_ids ''claim_id'' (json_index body ''claims'') (bn_decision s)\<rparr>)
      else Inr s)"

definition scan_record ::
  "bundle_codec \<Rightarrow> bundle_header \<Rightarrow> string \<Rightarrow> bundle_scan \<Rightarrow> bundle_error + bundle_scan" where
  "scan_record c h line s =
     bind_r (ok_or (bc_from_str c line) MalformedRecord) (\<lambda>rec.
       scan_kind c h (record_kind rec) (json_index rec ''body'')
         (s\<lparr>bn_records := Suc (bn_records s),
            bn_integrity := bn_integrity s @
              (if record_hash_ok c rec then [] else [RecordHash (record_kind rec)])\<rparr>))"

text \<open>The checks after the last record.\<close>

definition bundle_finish :: "bundle_header \<Rightarrow> bundle_scan \<Rightarrow> bundle_report" where
  "bundle_finish h s =
     \<lparr>br_records = bn_records s,
      br_integrity = bn_integrity s @
        (if bn_records s \<noteq> bh_records h then [RecordCount (bh_records h) (bn_records s)] else []),
      br_cross = bn_cross s @
        map (\<lambda>(claim, req). NoBundledBinding claim req)
          (filter (\<lambda>(claim, req). claim \<notin> set (bt_keys (bn_bindings s))) (bn_requirements s)) @
        map NoBundledEvidence
          (filter (\<lambda>i. i \<notin> set (bt_keys (bn_evidence s))) (bt_keys (bn_decision s))) @
        map UnknownClaim (filter (\<lambda>i. i \<notin> set (bt_keys (bn_contract s))) (bt_keys (bn_evidence s))),
      br_covered = length (filter (\<lambda>i. i \<in> set (bt_keys (bn_evidence s))) (bt_keys (bn_contract s))),
      br_total = length (bt_keys (bn_contract s))\<rparr>"

definition scan_start :: "bundle_codec \<Rightarrow> json \<Rightarrow> bundle_header \<Rightarrow> bundle_scan" where
  "scan_start c hv h =
     \<lparr>bn_records = 0,
      bn_integrity =
        (if json_str (json_index hv ''sha256'') = Some (body_hash c (header_seed h)) then [] else [HeaderHash]),
      bn_cross = [], bn_evidence = [], bn_contract = [], bn_bindings = [], bn_requirements = [],
      bn_decision = []\<rparr>"

definition bundle_verify ::
  "bundle_codec \<Rightarrow> string option \<Rightarrow> bundle_error + bundle_header \<times> bundle_report" where
  "bundle_verify c file =
     bind_r (ok_or file UnreadableBundle) (\<lambda>text.
     case filter (\<lambda>l. trim l \<noteq> []) (lines text) of
       [] \<Rightarrow> Inl EmptyBundle
     | l # ls \<Rightarrow>
         bind_r (ok_or (bc_from_str c l) MalformedHeader) (\<lambda>hv.
         if Option.bind (json_get hv ''kind'') json_str \<noteq> Some ''header'' then Inl NoHeader
         else
           let h = read_header hv in
           if bh_version h \<noteq> BUNDLE_VERSION then Inl (UnsupportedVersion (bh_version h))
           else bind_r (fold_r (scan_record c h) ls (scan_start c hv h)) (\<lambda>s. Inr (h, bundle_finish h s))))"

text \<open>\<open>uni bundle verify\<close>: it fails unless both lists are empty.\<close>

definition bundle_ok :: "bundle_report \<Rightarrow> bool" where
  "bundle_ok r \<longleftrightarrow> br_integrity r = [] \<and> br_cross r = []"

end
