(* ===== verification/Bundle_Facts.thy ===== *)
theory Bundle_Facts
  imports Bundle Verify_Facts
begin

section \<open>What a bundle check establishes\<close>

text \<open>
  What the records of a bundle say, as sets, and the two verdicts of \<open>uni bundle verify\<close> in
  terms of them: which edits the integrity check detects, and when the pieces belong together.
  A bundle that was exported passes the integrity check.
\<close>

definition record_intact :: "bundle_codec \<Rightarrow> bundle_header \<Rightarrow> json \<Rightarrow> bool" where
  "record_intact c h v \<longleftrightarrow> record_hash_ok c v \<and>
     (record_kind v = ''contract'' \<longrightarrow>
        sha256_hex (bc_digest c) (str_at (json_index v ''body'') ''text'') = bh_contract_hash h) \<and>
     (record_kind v = ''registry'' \<longrightarrow>
        sha256_hex (bc_digest c) (str_at (json_index v ''body'') ''text'') = bh_registry_hash h)"

definition kind_bodies :: "string \<Rightarrow> json list \<Rightarrow> json list" where
  "kind_bodies k vs = map (\<lambda>v. json_index v ''body'') (filter (\<lambda>v. record_kind v = k) vs)"

definition ids_at :: "string \<Rightarrow> json \<Rightarrow> string set" where
  "ids_at key xs = {i. \<exists>x\<in>set (items_of xs). json_str (json_index x key) = Some i}"

definition evidence_in :: "bundle_codec \<Rightarrow> json list \<Rightarrow> evidence list" where
  "evidence_in c vs = List.map_filter (bc_evidence_of c) (kind_bodies ''evidence'' vs)"

definition contract_claims :: "json list \<Rightarrow> string set" where
  "contract_claims vs =
     (\<Union>b\<in>set (kind_bodies ''contract'' vs). ids_at ''id'' (json_index (json_index b ''ir'') ''claims''))"

definition required_in :: "json list \<Rightarrow> (string \<times> string) set" where
  "required_in vs =
     (\<Union>b\<in>set (kind_bodies ''contract'' vs).
        {p. \<exists>v\<in>set (items_of (json_index (json_index b ''ir'') ''verification'')). requirement_of v = Some p})"

definition bound_in :: "json list \<Rightarrow> string set" where
  "bound_in vs = {i. \<exists>b\<in>set (kind_bodies ''binding'' vs). json_str (json_index b ''claim_id'') = Some i}"

definition decided_in :: "json list \<Rightarrow> string set" where
  "decided_in vs = (\<Union>b\<in>set (kind_bodies ''decision'' vs). ids_at ''claim_id'' (json_index b ''claims''))"

lemma kind_bodies_simps [simp]:
  "kind_bodies k [] = []"
  "kind_bodies k (v # vs) = (if record_kind v = k then [json_index v ''body''] else []) @ kind_bodies k vs"
  by (simp_all add: kind_bodies_def)

lemma keys_insert_ids: "set (bt_keys (insert_ids key v s)) = set (bt_keys s) \<union> ids_at key v"
proof -
  have "set (bt_keys (fold (\<lambda>x s. case json_str (json_index x key) of Some i \<Rightarrow> ss_insert i s | None \<Rightarrow> s) xs s)) =
      set (bt_keys s) \<union> {i. \<exists>x\<in>set xs. json_str (json_index x key) = Some i}" for xs
    by (induction xs arbitrary: s) (auto simp: keys_bt_insert split: option.splits)
  then show ?thesis by (simp add: insert_ids_def ids_at_def)
qed

lemma ok_insert_ids: "bt_ok s \<Longrightarrow> bt_ok (insert_ids key v s)"
proof -
  have "bt_ok s \<Longrightarrow> bt_ok (fold (\<lambda>x s. case json_str (json_index x key) of Some i \<Rightarrow> ss_insert i s | None \<Rightarrow> s) xs s)" for xs
    by (induction xs arbitrary: s) (auto intro: bt_ok_insert split: option.splits)
  then show "bt_ok s \<Longrightarrow> ?thesis" by (simp add: insert_ids_def)
qed

text \<open>What the loop has gathered from the records \<open>vs\<close>.\<close>

definition gathered :: "bundle_codec \<Rightarrow> bundle_header \<Rightarrow> json list \<Rightarrow> bundle_scan \<Rightarrow> bundle_scan \<Rightarrow> bool" where
  "gathered c h vs s t \<longleftrightarrow>
     bn_records t = bn_records s + length vs \<and>
     (bn_integrity t = [] \<longleftrightarrow> bn_integrity s = [] \<and> list_all (record_intact c h) vs) \<and>
     (bn_cross t = [] \<longleftrightarrow> bn_cross s = [] \<and> list_all (\<lambda>e. evidence_drift h e = []) (evidence_in c vs)) \<and>
     set (bt_keys (bn_evidence t)) = set (bt_keys (bn_evidence s)) \<union> ev_claim_id ` set (evidence_in c vs) \<and>
     set (bt_keys (bn_contract t)) = set (bt_keys (bn_contract s)) \<union> contract_claims vs \<and>
     set (bt_keys (bn_bindings t)) = set (bt_keys (bn_bindings s)) \<union> bound_in vs \<and>
     set (bn_requirements t) = set (bn_requirements s) \<union> required_in vs \<and>
     set (bt_keys (bn_decision t)) = set (bt_keys (bn_decision s)) \<union> decided_in vs \<and>
     (bt_ok (bn_evidence s) \<longrightarrow> bt_ok (bn_evidence t)) \<and> (bt_ok (bn_contract s) \<longrightarrow> bt_ok (bn_contract t))"

lemma evidence_in_simps [simp]:
  "evidence_in c [] = []"
  "evidence_in c (us @ vs) = evidence_in c us @ evidence_in c vs"
  "evidence_in c [v] = (if record_kind v = ''evidence'' then
     (case bc_evidence_of c (json_index v ''body'') of Some e \<Rightarrow> [e] | None \<Rightarrow> []) else [])"
  by (simp_all add: evidence_in_def kind_bodies_def map_filter_def split: option.splits)

lemma contract_claims_simps [simp]:
  "contract_claims [] = {}"
  "contract_claims (us @ vs) = contract_claims us \<union> contract_claims vs"
  "contract_claims [v] = (if record_kind v = ''contract''
     then ids_at ''id'' (json_index (json_index (json_index v ''body'') ''ir'') ''claims'') else {})"
  by (simp_all add: contract_claims_def kind_bodies_def)

lemma required_in_simps [simp]:
  "required_in [] = {}"
  "required_in (us @ vs) = required_in us \<union> required_in vs"
  "required_in [v] = (if record_kind v = ''contract'' then
     set (List.map_filter requirement_of
       (items_of (json_index (json_index (json_index v ''body'') ''ir'') ''verification''))) else {})"
  by (simp_all add: required_in_def kind_bodies_def set_map_filter)

lemma bound_in_simps [simp]:
  "bound_in [] = {}"
  "bound_in (us @ vs) = bound_in us \<union> bound_in vs"
  "bound_in [v] = (if record_kind v = ''binding'' then
     set_option (json_str (json_index (json_index v ''body'') ''claim_id'')) else {})"
  by (auto simp: bound_in_def kind_bodies_def)

lemma decided_in_simps [simp]:
  "decided_in [] = {}"
  "decided_in (us @ vs) = decided_in us \<union> decided_in vs"
  "decided_in [v] = (if record_kind v = ''decision''
     then ids_at ''claim_id'' (json_index (json_index v ''body'') ''claims'') else {})"
  by (simp_all add: decided_in_def kind_bodies_def)

lemma gathered_trans: "gathered c h us s t \<Longrightarrow> gathered c h vs t u \<Longrightarrow> gathered c h (us @ vs) s u"
  unfolding gathered_def by (intro conjI; simp add: Un_assoc image_Un)

text \<open>One record, by its kind.\<close>

lemma gathered_kind:
  assumes "scan_kind c h (record_kind v) (json_index v ''body'')
      (s\<lparr>bn_records := Suc (bn_records s),
         bn_integrity := bn_integrity s @ (if record_hash_ok c v then [] else [RecordHash (record_kind v)])\<rparr>) = Inr t"
  shows "gathered c h [v] s t"
proof -
  consider "record_kind v = ''contract''" | "record_kind v = ''registry''" | "record_kind v = ''evidence''"
    | "record_kind v = ''binding''" | "record_kind v = ''decision''"
    | "record_kind v \<notin> {''contract'', ''registry'', ''evidence'', ''binding'', ''decision''}" by blast
  then show ?thesis
  proof cases
    case 1
    show ?thesis using assms
      by (cases "record_hash_ok c v")
        (auto simp: 1 gathered_def scan_kind_def scan_contract_def record_intact_def keys_insert_ids ok_insert_ids
          split: if_splits)
  next
    case 2
    show ?thesis using assms
      by (cases "record_hash_ok c v") (auto simp: 2 gathered_def scan_kind_def record_intact_def split: if_splits)
  next
    case 3
    show ?thesis using assms
      by (cases "record_hash_ok c v")
        (auto simp: 3 gathered_def scan_kind_def record_intact_def ok_or_def bind_r_Inr_iff keys_bt_insert
          bt_ok_insert split: option.splits)
  next
    case 4
    show ?thesis using assms
      by (cases "record_hash_ok c v"; cases "json_str (json_index (json_index v ''body'') ''claim_id'')")
        (auto simp: 4 gathered_def scan_kind_def record_intact_def keys_bt_insert)
  next
    case 5
    show ?thesis using assms
      by (cases "record_hash_ok c v")
        (auto simp: 5 gathered_def scan_kind_def record_intact_def keys_insert_ids)
  next
    case 6
    then show ?thesis using assms
      by (cases "record_hash_ok c v") (auto simp: gathered_def scan_kind_def record_intact_def)
  qed
qed

lemma gathered_one:
  assumes "scan_record c h l s = Inr t"
  shows "\<exists>v. bc_from_str c l = Some v \<and> gathered c h [v] s t"
proof -
  obtain v where v: "bc_from_str c l = Some v"
    using assms by (auto simp: scan_record_def ok_or_def split: option.splits)
  have "gathered c h [v] s t"
    using assms by (intro gathered_kind) (simp add: scan_record_def v)
  then show ?thesis using v by blast
qed

lemma gathered_all:
  assumes "fold_r (scan_record c h) ls s = Inr t"
  shows "\<exists>vs. map (bc_from_str c) ls = map Some vs \<and> gathered c h vs s t"
  using assms
proof (induction ls arbitrary: s)
  case Nil
  then show ?case
    by (intro exI [of _ "[]"])
      (simp add: gathered_def)
next
  case (Cons l ls)
  then obtain u where u: "scan_record c h l s = Inr u" and t: "fold_r (scan_record c h) ls u = Inr t"
    by (auto simp: bind_r_Inr_iff)
  obtain v where v: "bc_from_str c l = Some v" "gathered c h [v] s u"
    using gathered_one [OF u] by blast
  obtain vs where vs: "map (bc_from_str c) ls = map Some vs" "gathered c h vs u t"
    using Cons.IH [OF t] by blast
  show ?case
    using gathered_trans [OF v(2) vs(2)] v(1) vs(1) by (intro exI [of _ "v # vs"]) simp
qed

text \<open>What a check that ran to the end has read.\<close>

lemma bundle_verify_Inr:
  assumes "bundle_verify c (Some text) = Inr (h, r)"
  obtains l ls hv vs s where "filter (\<lambda>l. trim l \<noteq> []) (lines text) = l # ls"
    and "bc_from_str c l = Some hv" and "h = read_header hv" and "bh_version h = BUNDLE_VERSION"
    and "map (bc_from_str c) ls = map Some vs" and "gathered c h vs (scan_start c hv h) s"
    and "r = bundle_finish h s"
  using assms gathered_all
  by (fastforce simp: bundle_verify_def bind_r_Inr_iff ok_or_Inr_iff Let_def split: list.splits if_splits)

text \<open>The decoded records of a bundle file, its first line, the header, apart.\<close>

definition bundle_values :: "bundle_codec \<Rightarrow> string \<Rightarrow> json list" where
  "bundle_values c file = map (\<lambda>l. the (bc_from_str c l)) (filter (\<lambda>l. trim l \<noteq> []) (lines file))"

lemma bundle_values_eq:
  assumes "filter (\<lambda>l. trim l \<noteq> []) (lines file) = l # ls" and "bc_from_str c l = Some hv"
    and "map (bc_from_str c) ls = map Some vs"
  shows "bundle_values c file = hv # vs"
proof -
  have "map (\<lambda>l. the (bc_from_str c l)) ls = map the (map (bc_from_str c) ls)" by simp
  also have "\<dots> = vs" unfolding assms(3) by (simp add: o_def)
  finally show ?thesis using assms(1,2) by (simp add: bundle_values_def)
qed

text \<open>
  C11. The integrity verdict is exact: it is clean if and only if the header carries the hash of its
  version, intent and two context hashes, every record that of its body, the contract and the
  registry texts hash to what the header says, and the header counts the records. Any edit of a
  body that does not collide, a lost line or an added one is reported.
\<close>

theorem bundle_integrity_exact:
  assumes "bundle_verify c (Some file) = Inr (h, r)"
  shows "br_integrity r = [] \<longleftrightarrow>
    json_str (json_index (hd (bundle_values c file)) ''sha256'') = Some (body_hash c (header_seed h)) \<and>
    (\<forall>v\<in>set (tl (bundle_values c file)). record_intact c h v) \<and>
    bh_records h = length (tl (bundle_values c file))"
proof -
  obtain l ls hv vs s where f: "filter (\<lambda>l. trim l \<noteq> []) (lines file) = l # ls"
    "bc_from_str c l = Some hv" "map (bc_from_str c) ls = map Some vs"
    and g: "gathered c h vs (scan_start c hv h) s" and r: "r = bundle_finish h s"
    using bundle_verify_Inr [OF assms] by metis
  have v: "bundle_values c file = hv # vs" by (rule bundle_values_eq [OF f])
  have "(bn_integrity s = [] \<longleftrightarrow> bn_integrity (scan_start c hv h) = [] \<and> list_all (record_intact c h) vs)"
    and "bn_records s = length vs"
    using g by (simp_all add: gathered_def scan_start_def)
  then show ?thesis
    unfolding v r by (auto simp: bundle_finish_def scan_start_def list_all_iff)
qed

lemma ss_card: "bt_ok s \<Longrightarrow> length (filter P (bt_keys s)) = card {i \<in> set (bt_keys s). P i}"
proof -
  assume "bt_ok s"
  then have "distinct (filter P (bt_keys s))" by (simp add: bt_ok_def strict_sorted_iff)
  then show ?thesis using distinct_card [of "filter P (bt_keys s)"] by simp
qed

lemma finish_cross:
  "br_cross (bundle_finish h s) = [] \<longleftrightarrow> bn_cross s = [] \<and>
     fst ` set (bn_requirements s) \<subseteq> set (bt_keys (bn_bindings s)) \<and>
     set (bt_keys (bn_decision s)) \<subseteq> set (bt_keys (bn_evidence s)) \<and>
     set (bt_keys (bn_evidence s)) \<subseteq> set (bt_keys (bn_contract s))"
  by (auto simp: bundle_finish_def filter_empty_conv)

text \<open>
  C26. The pieces of a bundle belong together, for the check, if and only if no evidence record
  names another registry or contract than the header, every requirement of the contract has a
  binding of its claim, every claim of the decision has evidence, and no evidence is of an
  unknown claim. The coverage it prints is the number of claims of the contract with evidence.
\<close>

theorem bundle_cross_exact:
  assumes "bundle_verify c (Some file) = Inr (h, r)"
  defines "vs \<equiv> tl (bundle_values c file)"
  defines "proved \<equiv> ev_claim_id ` set (evidence_in c vs)"
  shows "(br_cross r = [] \<longleftrightarrow>
      (\<forall>e\<in>set (evidence_in c vs). evidence_drift h e = []) \<and> fst ` required_in vs \<subseteq> bound_in vs \<and>
      decided_in vs \<subseteq> proved \<and> proved \<subseteq> contract_claims vs) \<and>
    br_total r = card (contract_claims vs) \<and> br_covered r = card (contract_claims vs \<inter> proved)"
proof -
  obtain l ls hv us s where f: "filter (\<lambda>l. trim l \<noteq> []) (lines file) = l # ls"
    "bc_from_str c l = Some hv" "map (bc_from_str c) ls = map Some us"
    and g: "gathered c h us (scan_start c hv h) s" and r: "r = bundle_finish h s"
    using bundle_verify_Inr [OF assms(1)] by metis
  have vs: "vs = us" by (simp add: vs_def bundle_values_eq [OF f])
  have ok: "bt_ok (bn_contract s)" and
    e: "set (bt_keys (bn_evidence s)) = proved" "set (bt_keys (bn_contract s)) = contract_claims vs"
    "set (bt_keys (bn_bindings s)) = bound_in vs" "set (bn_requirements s) = required_in vs"
    "set (bt_keys (bn_decision s)) = decided_in vs"
    "bn_cross s = [] \<longleftrightarrow> (\<forall>e\<in>set (evidence_in c vs). evidence_drift h e = [])"
    using g by (simp_all add: gathered_def scan_start_def bt_keys_def proved_def vs list_all_iff)
  have "contract_claims vs \<inter> proved = {i \<in> set (bt_keys (bn_contract s)). i \<in> proved}"
    unfolding e by blast
  then have "br_covered r = card (contract_claims vs \<inter> proved)"
    using ss_card [OF ok, of "\<lambda>i. i \<in> proved"] by (simp add: r bundle_finish_def e)
  moreover have "br_total r = card (contract_claims vs)"
    using ss_card [OF ok, of "\<lambda>_. True"] by (simp add: r bundle_finish_def e)
  moreover have "br_cross r = [] \<longleftrightarrow>
      (\<forall>e\<in>set (evidence_in c vs). evidence_drift h e = []) \<and> fst ` required_in vs \<subseteq> bound_in vs \<and>
      decided_in vs \<subseteq> proved \<and> proved \<subseteq> contract_claims vs"
    unfolding r finish_cross e ..
  ultimately show ?thesis by blast
qed

end
