(* ===== verification/Bundle_Export.thy ===== *)
theory Bundle_Export
  imports Bundle_Facts
begin

section \<open>Exporting and checking a bundle\<close>

text \<open>
  An exported bundle, checked: its records are read back as they were written, it passes the
  integrity check, and when it passes the cross checks. At the end a concrete bundle, with
  evidence that was gathered under an older registry.
\<close>

text \<open>serde_json prints the value on one line that is not blank, and parses it back.\<close>

definition faithful_text :: "bundle_codec \<Rightarrow> json \<Rightarrow> bool" where
  "faithful_text c v \<longleftrightarrow> nl \<notin> set (bc_to_string c v) \<and> cr \<notin> set (bc_to_string c v) \<and>
     trim (bc_to_string c v) \<noteq> [] \<and> bc_from_str c (bc_to_string c v) = Some v"

lemma lines_bundle_text:
  "list_all (\<lambda>l. nl \<notin> set l \<and> cr \<notin> set l) ls \<Longrightarrow> lines (bundle_text ls) = ls"
  unfolding bundle_text_def by (rule lines_unlines)

text \<open>The lines of the text of some values, and the values.\<close>

lemma bundle_lines:
  assumes "list_all (faithful_text c) vs"
  shows "filter (\<lambda>l. trim l \<noteq> []) (lines (bundle_text (map (bc_to_string c) vs))) = map (bc_to_string c) vs"
proof -
  have "list_all (\<lambda>l. nl \<notin> set l \<and> cr \<notin> set l) (map (bc_to_string c) vs)"
    using assms by (auto simp: list_all_iff faithful_text_def)
  then have "lines (bundle_text (map (bc_to_string c) vs)) = map (bc_to_string c) vs"
    by (rule lines_bundle_text)
  moreover have "filter (\<lambda>l. trim l \<noteq> []) (map (bc_to_string c) vs) = map (bc_to_string c) vs"
    using assms by (auto simp: list_all_iff faithful_text_def intro!: filter_True)
  ultimately show ?thesis by simp
qed

lemma decode_lines:
  "list_all (faithful_text c) vs \<Longrightarrow> map (bc_from_str c) (map (bc_to_string c) vs) = map Some vs"
  by (induction vs) (simp_all add: faithful_text_def)

subsection \<open>Reading the records back\<close>

declare json_value_simps [simp]

lemma record_value_simps [simp]:
  "record_kind (record_value c (k, b)) = k" "json_index (record_value c (k, b)) ''body'' = b"
  "record_hash_ok c (record_value c (k, b))"
  by (simp_all add: record_value_def record_kind_def record_hash_ok_def bt_get_def)

lemma kind_bodies_records:
  "kind_bodies k (map (record_value c) recs) = map snd (filter (\<lambda>r. fst r = k) recs)"
  by (induction recs) auto

lemma read_header_value:
  "bh_records h < 2 ^ 64 \<Longrightarrow> read_header (header_value c h) = h"
  by (simp add: read_header_def header_value_def Let_def bt_get_def str_at_def text_or_empty_def json_u64_def)

lemma policy_records_kind: "(k, b) \<in> set (policy_records s) \<Longrightarrow> k = ''policy''"
  by (auto simp: policy_records_def set_map_filter split: option.splits if_splits)

lemma other_records_kind:
  "(k, b) \<in> set (decision_records s i) \<Longrightarrow> k = ''decision''"
  "(k, b) \<in> set (event_records c s) \<Longrightarrow> k = ''events''"
  by (auto simp: decision_records_def event_records_def split: option.splits if_splits)

lemma no_other_kind:
  "k \<noteq> ''policy'' \<Longrightarrow> filter (\<lambda>r. fst r = k) (policy_records s) = []"
  "k \<noteq> ''decision'' \<Longrightarrow> filter (\<lambda>r. fst r = k) (decision_records s i) = []"
  "k \<noteq> ''events'' \<Longrightarrow> filter (\<lambda>r. fst r = k) (event_records c s) = []"
  "filter (\<lambda>r. fst r = ''decision'') (decision_records s i) = decision_records s i"
  using policy_records_kind other_records_kind by (fastforce simp: filter_empty_conv filter_id_conv)+

lemma filter_kind_map:
  "filter (\<lambda>r. fst r = k) (map (\<lambda>x. (j, f x)) xs) = (if j = k then map (\<lambda>x. (j, f x)) xs else [])"
  by (induction xs) auto

lemma exported_bodies:
  "kind_bodies ''contract'' (map (record_value c) (bundle_records c s i)) = [snd (contract_record c s i)]"
  "kind_bodies ''registry'' (map (record_value c) (bundle_records c s i)) = [snd (registry_record c s)]"
  "kind_bodies ''evidence'' (map (record_value c) (bundle_records c s i)) = map (bc_evidence c) (bundled_evidence s i)"
  "kind_bodies ''binding'' (map (record_value c) (bundle_records c s i)) = map binding_value (bundled_bindings s i)"
  "kind_bodies ''decision'' (map (record_value c) (bundle_records c s i)) = map snd (decision_records s i)"
  unfolding kind_bodies_records bundle_records_def
  by (simp_all add: no_other_kind filter_kind_map contract_record_def registry_record_def o_def)

lemma ids_at_claims: "ids_at ''id'' (json_index (ir_value i) ''claims'') = ci_id ` set (ir_claims i)"
  by (auto simp: ids_at_def ir_value_def bt_get_def)

lemma requirement_of_value:
  "requirement_of (JObject [(''claim_id'', JString cl), (''inline_shell'', a), (''requirement'', opt_value r),
      (''verifier_ref'', b)]) = map_option (Pair cl) r"
  by (cases r) (simp_all add: requirement_of_def str_at_def bt_get_def text_or_empty_def opt_value_def json_str_def)

lemma exported_summary:
  fixes c s i
  defines "vs \<equiv> map (record_value c) (bundle_records c s i)"
  shows "contract_claims vs = ci_id ` set (ir_claims i)"
    and "fst ` required_in vs = {vi_claim_id v |v. v \<in> set (ir_verification i) \<and> vi_requirement v \<noteq> None}"
    and "bound_in vs = vb_claim_id ` set (bundled_bindings s i)"
    and "decided_in vs = (\<Union>r\<in>set (decision_records s i). ids_at ''claim_id'' (json_index (snd r) ''claims''))"
proof -
  show "contract_claims vs = ci_id ` set (ir_claims i)"
    by (simp add: vs_def contract_claims_def exported_bodies contract_record_def bt_get_def ids_at_claims)
  have "required_in vs = {(vi_claim_id v, r) |v r. v \<in> set (ir_verification i) \<and> vi_requirement v = Some r}"
    by (auto simp: vs_def required_in_def exported_bodies contract_record_def ir_value_def bt_get_def
        requirement_of_value)
  then show "fst ` required_in vs = {vi_claim_id v |v. v \<in> set (ir_verification i) \<and> vi_requirement v \<noteq> None}"
    by force
  show "bound_in vs = vb_claim_id ` set (bundled_bindings s i)"
    by (auto simp: vs_def bound_in_def exported_bodies binding_value_def bt_get_def)
  show "decided_in vs = (\<Union>r\<in>set (decision_records s i). ids_at ''claim_id'' (json_index (snd r) ''claims''))"
    by (simp add: vs_def decided_in_def exported_bodies)
qed

lemma exported_evidence:
  assumes "\<And>e. e \<in> set (bundled_evidence s i) \<Longrightarrow> bc_evidence_of c (bc_evidence c e) = Some e"
  shows "evidence_in c (map (record_value c) (bundle_records c s i)) = bundled_evidence s i"
proof -
  have "List.map_filter (bc_evidence_of c) (map (bc_evidence c) es) = es"
    if "\<And>e. e \<in> set es \<Longrightarrow> bc_evidence_of c (bc_evidence c e) = Some e" for es
    using that by (induction es) (simp_all add: map_filter_Cons)
  then show ?thesis using assms by (simp add: evidence_in_def exported_bodies)
qed

text \<open>The loop ends when every line decodes and every evidence record does.\<close>

lemma scan_total:
  assumes "map (bc_from_str c) ls = map Some vs"
    and "list_all (\<lambda>b. bc_evidence_of c b \<noteq> None) (kind_bodies ''evidence'' vs)"
  shows "\<exists>t. fold_r (scan_record c h) ls s = Inr t"
  using assms
proof (induction ls arbitrary: vs s)
  case Nil
  then show ?case by simp
next
  case (Cons l ls)
  then obtain v us where v: "vs = v # us" "bc_from_str c l = Some v" "map (bc_from_str c) ls = map Some us"
    by (cases vs) auto
  have "\<exists>t. scan_kind c h (record_kind v) (json_index v ''body'') s' = Inr t" for s'
    using Cons.prems(2) by (auto simp: v(1) scan_kind_def ok_or_def bind_r_def split: option.splits if_splits)
  then obtain u where "scan_record c h l s = Inr u" by (auto simp: scan_record_def v(2))
  moreover have "\<exists>t. fold_r (scan_record c h) ls u = Inr t"
    using Cons.IH [OF v(3)] Cons.prems(2) by (simp add: v(1) split: if_splits)
  ultimately show ?case by simp
qed

lemma exported_intact:
  assumes "bh_contract_hash h = sha256_hex (bc_digest c) (text_or_empty (bu_contract s))"
    and "bh_registry_hash h = sha256_hex (bc_digest c) (text_or_empty (bu_config s))"
  shows "list_all (record_intact c h) (map (record_value c) (bundle_records c s i))"
proof -
  have t: "str_at (snd (contract_record c s i)) ''text'' = text_or_empty (bu_contract s)"
    "str_at (snd (registry_record c s)) ''text'' = text_or_empty (bu_config s)"
    by (simp_all add: str_at_def contract_record_def registry_record_def bt_get_def text_or_empty_def)
  have "record_intact c h (record_value c r)" if r: "r \<in> set (bundle_records c s i)" for r
  proof (cases r)
    case (Pair k b)
    have "b \<in> set (kind_bodies k (map (record_value c) (bundle_records c s i)))"
      using r by (force simp: Pair kind_bodies_records)
    then have "k = ''contract'' \<longrightarrow> b = snd (contract_record c s i)" "k = ''registry'' \<longrightarrow> b = snd (registry_record c s)"
      by (auto simp: exported_bodies)
    then show ?thesis using t assms by (simp add: Pair record_intact_def)
  qed
  then show ?thesis by (simp add: list_all_iff)
qed

text \<open>What decides the cross checks of a bundle when it is exported.\<close>

definition export_coherent :: "bundle_src \<Rightarrow> ir \<Rightarrow> bundle_header \<Rightarrow> bool" where
  "export_coherent s i h \<longleftrightarrow>
     (\<forall>e\<in>set (bundled_evidence s i). evidence_drift h e = []) \<and>
     {vi_claim_id v |v. v \<in> set (ir_verification i) \<and> vi_requirement v \<noteq> None} \<subseteq>
       vb_claim_id ` set (bundled_bindings s i) \<and>
     (\<Union>r\<in>set (decision_records s i). ids_at ''claim_id'' (json_index (snd r) ''claims'')) \<subseteq>
       ev_claim_id ` set (bundled_evidence s i)"

text \<open>The check of an exported bundle runs to the end and reads what was written.\<close>

lemma exported_verifies:
  fixes c s i h
  defines "vs \<equiv> map (record_value c) (bundle_records c s i)"
  assumes i: "load_contract (bu_contract s) = Inr i" and x: "bundle_export c now tool s = Inr (h, file)"
    and ft: "list_all (faithful_text c) (header_value c h # vs)"
    and ev: "\<forall>e\<in>set (bundled_evidence s i). bc_evidence_of c (bc_evidence c e) = Some e"
    and n: "bh_records h < 2 ^ 64"
  obtains t where "bundle_verify c (Some file) = Inr (h, bundle_finish h t)"
    and "gathered c h vs (scan_start c (header_value c h) h) t"
    and "bundle_values c file = header_value c h # vs"
    and "list_all (record_intact c h) vs" and "bh_records h = length vs"
proof -
  have tx: "file = bundle_text (map (bc_to_string c) (header_value c h # vs))"
    and h: "bh_version h = BUNDLE_VERSION" "bh_records h = length vs"
      "bh_contract_hash h = sha256_hex (bc_digest c) (text_or_empty (bu_contract s))"
      "bh_registry_hash h = sha256_hex (bc_digest c) (text_or_empty (bu_config s))"
    using i x by (auto simp: bundle_export_def Let_def vs_def)
  have ls: "filter (\<lambda>l. trim l \<noteq> []) (lines file) =
      bc_to_string c (header_value c h) # map (bc_to_string c) vs"
    unfolding tx using bundle_lines [OF ft] by simp
  have d: "bc_from_str c (bc_to_string c (header_value c h)) = Some (header_value c h)"
    "map (bc_from_str c) (map (bc_to_string c) vs) = map Some vs"
    using decode_lines [OF ft] by (simp_all del: map_map)
  have hd: "Option.bind (json_get (header_value c h) ''kind'') json_str = Some ''header''"
    "json_str (json_index (header_value c h) ''sha256'') = Some (body_hash c (header_seed h))"
    by (simp_all add: header_value_def bt_get_def)
  obtain t where t: "fold_r (scan_record c h) (map (bc_to_string c) vs) (scan_start c (header_value c h) h) = Inr t"
    using scan_total [OF d(2), of h "scan_start c (header_value c h) h"] ev
    by (auto simp: vs_def exported_bodies list_all_iff)
  obtain us where us: "map (bc_from_str c) (map (bc_to_string c) vs) = map Some us"
    and g0: "gathered c h us (scan_start c (header_value c h) h) t"
    using gathered_all [OF t] by blast
  have "map Some us = map Some vs" using us d(2) by simp
  then have "us = vs" by (simp add: inj_map_eq_map del: map_map)
  with g0 have g: "gathered c h vs (scan_start c (header_value c h) h) t" by simp
  have v: "bundle_verify c (Some file) = Inr (h, bundle_finish h t)"
    using t by (simp add: bundle_verify_def ls d(1) hd(1) read_header_value [OF n] h(1) Let_def
        del: map_map)
  have "bundle_values c file = header_value c h # vs" by (rule bundle_values_eq [OF ls d])
  moreover have "list_all (record_intact c h) vs" unfolding vs_def by (rule exported_intact [OF h(3,4)])
  ultimately show thesis using that [OF v g] h(2) by blast
qed

text \<open>
  C21. The round trip of a bundle: what \<open>export\<close> writes, \<open>verify\<close> reads with the same header, the
  same number of records and no integrity error. Its cross checks are clean exactly when all
  the evidence files of the claims of the contract, superseded ones included, were gathered
  under the registry and contract of the export, every stated requirement has a binding that
  names its claim, and the decision cites no claim without evidence.
\<close>

theorem bundle_roundtrip:
  assumes "load_contract (bu_contract s) = Inr i" and "bundle_export c now tool s = Inr (h, file)"
    and "list_all (faithful_text c) (header_value c h # map (record_value c) (bundle_records c s i))"
    and "\<forall>e\<in>set (bundled_evidence s i). bc_evidence_of c (bc_evidence c e) = Some e"
    and "bh_records h < 2 ^ 64"
  shows "\<exists>r. bundle_verify c (Some file) = Inr (h, r) \<and> br_integrity r = [] \<and>
    br_records r = bh_records h \<and> (br_cross r = [] \<longleftrightarrow> export_coherent s i h)"
proof -
  let ?vs = "map (record_value c) (bundle_records c s i)"
  obtain t where v: "bundle_verify c (Some file) = Inr (h, bundle_finish h t)"
    and g: "gathered c h ?vs (scan_start c (header_value c h) h) t"
    and h: "list_all (record_intact c h) ?vs" "bh_records h = length ?vs"
    using exported_verifies [OF assms] by metis
  have hd: "json_str (json_index (header_value c h) ''sha256'') = Some (body_hash c (header_seed h))"
    by (simp add: header_value_def bt_get_def)
  have e: "evidence_in c ?vs = bundled_evidence s i" using assms(4) by (intro exported_evidence) simp
  have "bn_records t = length ?vs" "bn_integrity t = []"
    using g h(1) hd by (simp_all add: gathered_def scan_start_def)
  moreover have "br_cross (bundle_finish h t) = [] \<longleftrightarrow> export_coherent s i h"
  proof -
    have k: "set (bt_keys (bn_evidence t)) = ev_claim_id ` set (bundled_evidence s i)"
      "set (bt_keys (bn_contract t)) = ci_id ` set (ir_claims i)"
      "set (bt_keys (bn_bindings t)) = vb_claim_id ` set (bundled_bindings s i)"
      "set (bn_requirements t) = required_in ?vs"
      "set (bt_keys (bn_decision t)) =
         (\<Union>r\<in>set (decision_records s i). ids_at ''claim_id'' (json_index (snd r) ''claims''))"
      "bn_cross t = [] \<longleftrightarrow> (\<forall>e\<in>set (bundled_evidence s i). evidence_drift h e = [])"
      using g by (simp_all add: gathered_def scan_start_def e exported_summary bt_keys_def list_all_iff)
    have "ev_claim_id ` set (bundled_evidence s i) \<subseteq> ci_id ` set (ir_claims i)"
      by (auto simp: bundled_evidence_def)
    then show ?thesis
      unfolding finish_cross export_coherent_def k exported_summary(2) by (simp only: simp_thms)
  qed
  ultimately show ?thesis using v h(2) by (simp add: bundle_finish_def)
qed

subsection \<open>A concrete bundle\<close>

text \<open>
  A contract of one claim, with an evidence record of it that names another registry. A value
  is printed as its \<open>kind\<close>, which tells these apart.
\<close>

definition print_kind :: "json \<Rightarrow> string" where
  "print_kind v = (case json_str (json_index v ''kind'') of Some k \<Rightarrow> k | None \<Rightarrow> ''x'')"

definition zero_hex :: string where
  "zero_hex = sha256_hex (\<lambda>_. []) []"

definition mini_codec :: bundle_codec where
  "mini_codec = \<lparr>bc_digest = (\<lambda>_. []), bc_to_string = print_kind, bc_from_str = (\<lambda>_. None),
     bc_evidence = (\<lambda>_. JNull), bc_evidence_of = (\<lambda>_. Some demo_record)\<rparr>"

definition mini_src :: bundle_src where
  "mini_src = \<lparr>bu_path = ''a.uni'', bu_contract = Some demo_source, bu_config = Some ''cfg'',
     bu_policies = None, bu_evidence = [(''a__f0.json'', demo_record)], bu_bindings = empty_bindings,
     bu_last = None, bu_events = None\<rparr>"

definition mini_header :: bundle_header where
  "mini_header = \<lparr>bh_version = BUNDLE_VERSION, bh_intent = in_id (ir_intent demo_ir),
     bh_registry_hash = zero_hex, bh_contract_hash = zero_hex, bh_created_at = ''now'', bh_tool = ''uni'',
     bh_records = 3\<rparr>"

text \<open>The same codec, parsing the three kinds and the header back.\<close>

definition parsing_codec :: bundle_codec where
  "parsing_codec = mini_codec\<lparr>bc_from_str := (\<lambda>l.
     if l = ''header'' then Some (header_value mini_codec mini_header)
     else if l = ''contract'' then Some (record_value mini_codec (contract_record mini_codec mini_src demo_ir))
     else if l = ''registry'' then Some (record_value mini_codec (registry_record mini_codec mini_src))
     else if l = ''evidence'' then Some (record_value mini_codec (''evidence'', JNull))
     else None)\<rparr>"

lemma parsing_codec_same:
  "record_value parsing_codec = record_value mini_codec" "header_value parsing_codec = header_value mini_codec"
  "contract_record parsing_codec = contract_record mini_codec" "registry_record parsing_codec = registry_record mini_codec"
  by (simp_all add: fun_eq_iff parsing_codec_def record_value_def header_value_def contract_record_def
      registry_record_def body_hash_def)

lemma parsing_codec_evidence: "bc_evidence parsing_codec = (\<lambda>_. JNull)"
  by (simp add: parsing_codec_def mini_codec_def)

lemma mini_records:
  "bundle_records parsing_codec mini_src demo_ir =
     [contract_record mini_codec mini_src demo_ir, registry_record mini_codec mini_src, (''evidence'', JNull)]"
  "bundled_evidence mini_src demo_ir = [demo_record]"
proof -
  show e: "bundled_evidence mini_src demo_ir = [demo_record]"
    by (simp add: bundled_evidence_def mini_src_def listed_def demo_record_def demo_ir_def)
  have "policy_records mini_src = []" "bundled_bindings mini_src demo_ir = []" "decision_records mini_src demo_ir = []"
    "event_records parsing_codec mini_src = []"
    by (simp_all add: policy_records_def bundled_bindings_def decision_records_def event_records_def
        mini_src_def demo_ir_def map_filter_Cons)
  then show "bundle_records parsing_codec mini_src demo_ir =
     [contract_record mini_codec mini_src demo_ir, registry_record mini_codec mini_src, (''evidence'', JNull)]"
    by (simp add: bundle_records_def parsing_codec_same e parsing_codec_evidence)
qed

text \<open>What the bundle is, and that it meets the hypotheses of the round trip.\<close>

definition mini_file :: string where
  "mini_file = bundle_text [''header'', ''contract'', ''registry'', ''evidence'']"

lemma mini_bundle:
  shows "load_contract (bu_contract mini_src) = Inr demo_ir"
    and "bundle_export parsing_codec ''now'' ''uni'' mini_src = Inr (mini_header, mini_file)"
    and "list_all (faithful_text parsing_codec) (header_value parsing_codec mini_header #
      map (record_value parsing_codec) (bundle_records parsing_codec mini_src demo_ir))"
    and "\<forall>e\<in>set (bundled_evidence mini_src demo_ir).
      bc_evidence_of parsing_codec (bc_evidence parsing_codec e) = Some e"
    and "bh_records mini_header < 2 ^ 64"
proof -
  show l: "load_contract (bu_contract mini_src) = Inr demo_ir"
    using demo_load_contract by (simp add: mini_src_def)
  have h: "\<lparr>bh_version = BUNDLE_VERSION, bh_intent = in_id (ir_intent demo_ir),
      bh_registry_hash = sha256_hex (bc_digest parsing_codec) (text_or_empty (bu_config mini_src)),
      bh_contract_hash = sha256_hex (bc_digest parsing_codec) (text_or_empty (bu_contract mini_src)),
      bh_created_at = ''now'', bh_tool = ''uni'', bh_records = 3\<rparr> = mini_header"
    by (simp add: mini_header_def parsing_codec_def mini_codec_def zero_hex_def sha256_hex_def)
  have t: "map (bc_to_string parsing_codec) (header_value parsing_codec mini_header #
      map (record_value parsing_codec) (bundle_records parsing_codec mini_src demo_ir)) =
      [''header'', ''contract'', ''registry'', ''evidence'']"
    by (simp add: parsing_codec_same mini_records)
      (simp add: parsing_codec_def mini_codec_def print_kind_def header_value_def record_value_def
        contract_record_def registry_record_def bt_get_def)
  have n: "length (bundle_records parsing_codec mini_src demo_ir) = 3" by (simp add: mini_records)
  show "bundle_export parsing_codec ''now'' ''uni'' mini_src = Inr (mini_header, mini_file)"
    unfolding bundle_export_def l bind_r_simps Let_def n h t mini_file_def by simp
  show "list_all (faithful_text parsing_codec) (header_value parsing_codec mini_header #
      map (record_value parsing_codec) (bundle_records parsing_codec mini_src demo_ir))"
    by (simp add: parsing_codec_same mini_records faithful_text_def)
      (simp add: parsing_codec_def mini_codec_def print_kind_def header_value_def record_value_def
        contract_record_def registry_record_def bt_get_def trim_eq_Nil_iff is_ws_def)
  show "\<forall>e\<in>set (bundled_evidence mini_src demo_ir).
      bc_evidence_of parsing_codec (bc_evidence parsing_codec e) = Some e"
    by (simp add: mini_records parsing_codec_def mini_codec_def)
  show "bh_records mini_header < 2 ^ 64" by (simp add: mini_header_def)
qed

text \<open>Its only evidence names a registry that is not the one of the bundle.\<close>

lemma mini_drift: "evidence_drift mini_header demo_record \<noteq> []"
  by (simp add: evidence_drift_def demo_record_def mini_header_def zero_hex_def sha256_hex_def hex_encode_def)

theorem bundle_roundtrip_witness:
  "\<exists>r. bundle_export parsing_codec ''now'' ''uni'' mini_src = Inr (mini_header, mini_file) \<and>
     bundle_verify parsing_codec (Some mini_file) = Inr (mini_header, r) \<and> br_integrity r = [] \<and>
     br_records r = 3 \<and> br_cross r \<noteq> []"
proof -
  have "\<not> export_coherent mini_src demo_ir mini_header"
    using mini_drift by (simp add: export_coherent_def mini_records)
  then show ?thesis
    using mini_bundle(2) bundle_roundtrip [OF mini_bundle] by (simp add: mini_header_def)
qed

text \<open>The verdicts on it, by the exact characterizations.\<close>

theorem bundle_integrity_exact_witness:
  "\<exists>r. bundle_verify parsing_codec (Some mini_file) = Inr (mini_header, r) \<and> br_integrity r = []"
proof -
  obtain t where v: "bundle_verify parsing_codec (Some mini_file) = Inr (mini_header, bundle_finish mini_header t)"
    and b: "bundle_values parsing_codec mini_file = header_value parsing_codec mini_header #
      map (record_value parsing_codec) (bundle_records parsing_codec mini_src demo_ir)"
    and i: "list_all (record_intact parsing_codec mini_header)
      (map (record_value parsing_codec) (bundle_records parsing_codec mini_src demo_ir))"
    and n: "bh_records mini_header = length (map (record_value parsing_codec)
      (bundle_records parsing_codec mini_src demo_ir))"
    using exported_verifies [OF mini_bundle] by metis
  have "json_str (json_index (header_value parsing_codec mini_header) ''sha256'') =
      Some (body_hash parsing_codec (header_seed mini_header))"
    by (simp add: header_value_def bt_get_def)
  then have "br_integrity (bundle_finish mini_header t) = []"
    using bundle_integrity_exact [OF v] i n unfolding b by (simp add: list_all_iff)
  then show ?thesis using v by blast
qed

theorem bundle_cross_exact_witness:
  "\<exists>r. bundle_verify parsing_codec (Some mini_file) = Inr (mini_header, r) \<and> br_cross r \<noteq> [] \<and>
     br_total r = 1 \<and> br_covered r = 1"
proof -
  obtain t where v: "bundle_verify parsing_codec (Some mini_file) = Inr (mini_header, bundle_finish mini_header t)"
    and b: "bundle_values parsing_codec mini_file = header_value parsing_codec mini_header #
      map (record_value parsing_codec) (bundle_records parsing_codec mini_src demo_ir)"
    using exported_verifies [OF mini_bundle] by metis
  let ?vs = "map (record_value parsing_codec) (bundle_records parsing_codec mini_src demo_ir)"
  have e: "evidence_in parsing_codec ?vs = [demo_record]"
    using exported_evidence [of mini_src demo_ir parsing_codec] mini_bundle(4) by (simp add: mini_records(2))
  have cl: "contract_claims ?vs = {''a''}"
    unfolding exported_summary by (simp add: demo_ir_def)
  show ?thesis
    using bundle_cross_exact [OF v] v mini_drift unfolding b list.sel e cl
    by (auto simp: demo_record_def)
qed

end
