(* ===== verification/Speckit.thy ===== *)
theory Speckit
  imports Brief
begin

section \<open>Importing a Spec Kit directory (crates/uni-cli, cmd/speckit.rs)\<close>

text \<open>
  The candidate claims found in \<open>spec.md\<close>, \<open>plan.md\<close> and \<open>tasks.md\<close>, the contract text made
  of them and the work order written beside it. A slice that would not fall on a character
  boundary is a panic, \<open>None\<close>. The dash in the goal of the candidate is a parameter, being
  a character beyond those of the model; so is the text of a parse or compile error.
\<close>

subsection \<open>Markers and words\<close>

definition is_digit :: "char \<Rightarrow> bool" where
  "is_digit c \<longleftrightarrow> c \<in> set ''0123456789''"

definition trim_start :: "string \<Rightarrow> string" where
  "trim_start s = trim_start_matches is_ws s"

definition strip_number :: "string \<Rightarrow> string" where
  "strip_number t =
     (let rest = dropWhile is_digit t in
      if length rest = length t then t
      else case or_else (strip_prefix ''. '' rest) (strip_prefix '') '' rest) of
             Some r \<Rightarrow> trim_start r | None \<Rightarrow> t)"

definition strip_bullet :: "string \<Rightarrow> string \<Rightarrow> string" where
  "strip_bullet p t = (case strip_prefix p t of Some r \<Rightarrow> trim_start r | None \<Rightarrow> t)"

definition strip_heading :: "string \<Rightarrow> string \<Rightarrow> string" where
  "strip_heading p t = (case strip_prefix p t of Some r \<Rightarrow> r | None \<Rightarrow> t)"

definition strip_markers :: "string \<Rightarrow> string" where
  "strip_markers l =
     strip_heading ''### '' (strip_heading ''#### ''
       (fold strip_bullet [''- '', ''* '', ''+ ''] (strip_number (trim l))))"

text \<open>\<open>trim_start_matches("**")\<close>\<close>

fun trim_stars :: "string \<Rightarrow> string" where
  "trim_stars (a # b # s) = (if a = CHR ''*'' \<and> b = CHR ''*'' then trim_stars s else a # b # s)"
| "trim_stars s = s"

text \<open>What precedes the first separator, and what follows it.\<close>

definition before_any :: "string \<Rightarrow> string \<Rightarrow> string" where
  "before_any seps t = takeWhile (\<lambda>c. c \<notin> set seps) t"

definition after_any :: "string \<Rightarrow> string \<Rightarrow> string option" where
  "after_any seps t = (case dropWhile (\<lambda>c. c \<notin> set seps) t of [] \<Rightarrow> None | _ # r \<Rightarrow> Some r)"

text \<open>\<open>format!("{:02}")\<close>\<close>

definition two_digits :: "nat \<Rightarrow> string" where
  "two_digits n = (if n < 10 then ''0'' @ show_nat n else show_nat n)"

subsection \<open>The claims of a line\<close>

type_synonym candidate = "string \<times> string"

definition fr_claim :: "string \<Rightarrow> candidate" where
  "fr_claim t =
     (to_lower (trim_end_matches (\<lambda>c. c \<in> set ''*:'') (before_any '': '' t)),
      case after_any '': '' t of Some d \<Rightarrow> trim d | None \<Rightarrow> t)"

definition bold_claim :: "string \<Rightarrow> string \<Rightarrow> candidate" where
  "bold_claim t b =
     (''fr-'' @ trim_matches (\<lambda>c. c \<in> set ''*:'') (before_any '':* '' b),
      case split_once ''**:'' b of Some (_, d) \<Rightarrow> trim d | None \<Rightarrow> trim_stars t)"

text \<open>
  One line: no claim, a claim, or a panic. \<open>n\<close> is the number of claims found so far. The slice
  \<open>t[4..]\<close> of a check box is in bytes.
\<close>

datatype line_result = NoClaim | Candidate candidate | Panic

definition line_claim :: "nat \<Rightarrow> string \<Rightarrow> line_result" where
  "line_claim n l =
     (let t = strip_markers l in
      if starts_with ''FR-'' t then Candidate (fr_claim t)
      else case strip_prefix ''**FR-'' t of
        Some b \<Rightarrow> Candidate (bold_claim t b)
      | None \<Rightarrow>
          if starts_with ''Requirement'' t then
            Candidate (to_lower (case split_whitespace t of w # _ \<Rightarrow> w | [] \<Rightarrow> []), t)
          else case strip_prefix ''Scenario:'' t of
            Some s \<Rightarrow> Candidate (''scenario-'' @ two_digits (n + 1), trim s)
          | None \<Rightarrow>
              if starts_with ''[ ]'' t \<or> starts_with ''[x]'' t then
                (case byte_drop 4 t of
                   Some r \<Rightarrow> Candidate (''check-'' @ two_digits (n + 1), trim r) | None \<Rightarrow> Panic)
              else NoClaim)"

definition add_candidate :: "candidate \<Rightarrow> candidate list \<Rightarrow> candidate list" where
  "add_candidate = (\<lambda>(i, t) cs. if i \<noteq> [] \<and> i \<notin> fst ` set cs then cs @ [(i, take 160 t)] else cs)"

fun extract_claims :: "string list \<Rightarrow> candidate list \<Rightarrow> candidate list option" where
  "extract_claims [] cs = Some cs"
| "extract_claims (l # ls) cs =
     (case line_claim (length cs) l of
        NoClaim \<Rightarrow> extract_claims ls cs
      | Candidate c \<Rightarrow> extract_claims ls (add_candidate c cs)
      | Panic \<Rightarrow> None)"

subsection \<open>The candidate contract\<close>

definition candidate_goal :: "string \<Rightarrow> string" where
  "candidate_goal dash = ''Imported from Spec Kit (candidate '' @ dash @ '' review required).''"

definition header_lines :: "string \<Rightarrow> string \<Rightarrow> string list" where
  "header_lines dash intent_id =
     [''VERSION 0.1'', ''DOMAIN software'', ''INTENT candidate-'' @ intent_id, ''GOAL'',
      ''  '' @ candidate_goal dash]"

definition claim_lines :: "candidate \<Rightarrow> string list" where
  "claim_lines = (\<lambda>(i, ensure).
     [''CLAIM '' @ i @ '' REQUIRED'', ''  ENSURE '' @ map (\<lambda>c. if c = nl then CHR '' '' else c) ensure])"

definition verify_lines :: "candidate \<Rightarrow> string list" where
  "verify_lines = (\<lambda>(i, _). [''VERIFY '' @ i, ''  USING project.tests''])"

definition accept_lines :: "string list" where
  "accept_lines = [''ACCEPT WHEN'', ''  required_claims == VERIFIED'', ''  AND critical_failures == 0'']"

definition dsl_lines :: "string \<Rightarrow> string \<Rightarrow> candidate list \<Rightarrow> string list" where
  "dsl_lines dash intent_id cs =
     header_lines dash intent_id @ concat (map claim_lines cs) @ concat (map verify_lines cs) @ accept_lines"

definition candidate_dsl :: "string \<Rightarrow> string \<Rightarrow> candidate list \<Rightarrow> string" where
  "candidate_dsl dash intent_id cs = concat (map (\<lambda>l. l @ [nl]) (dsl_lines dash intent_id cs))"

subsection \<open>The import\<close>

record spec_dir =
  sd_name :: string
  sd_spec :: "string option"
  sd_plan :: "string option"
  sd_tasks :: "string option"

record import_result =
  im_claims :: "candidate list"
  im_dsl :: string
  im_brief :: "string option"
  im_brief_claims :: nat
  im_problems :: "string list"

datatype import_error = NoSpec | ImportPanic

definition read_opt :: "string option \<Rightarrow> string" where
  "read_opt file = take 4000 (text_or_empty file)"

definition import_claims :: "spec_dir \<Rightarrow> candidate list option" where
  "import_claims d =
     map_option (\<lambda>cs. if cs = [] then [(''intent-satisfied'', ''spec acceptance criteria met'')] else cs)
       (extract_claims (lines (read_opt (sd_spec d)) @ lines (read_opt (sd_plan d)) @ lines (read_opt (sd_tasks d))) [])"

definition import_speckit ::
  "(string \<Rightarrow> toml option) \<Rightarrow> string \<Rightarrow> (cmd_error \<Rightarrow> string) \<Rightarrow> string option \<Rightarrow> spec_dir \<Rightarrow>
   import_error + import_result" where
  "import_speckit parse_toml dash error_text config d =
     (if trim (read_opt (sd_spec d)) = [] then Inl NoSpec
      else case import_claims d of
        None \<Rightarrow> Inl ImportPanic
      | Some cs \<Rightarrow>
          let dsl = candidate_dsl dash (sd_name d) cs in
          Inr (case load_contract (Some dsl) of
             Inr i \<Rightarrow>
               let (claims, problems) = brief_build i (load_registry parse_toml config) in
               \<lparr>im_claims = cs, im_dsl = dsl,
                im_brief = Some (brief_to_markdown i claims problems @ [nl]),
                im_brief_claims = length claims, im_problems = problems\<rparr>
           | Inl e \<Rightarrow>
               \<lparr>im_claims = cs, im_dsl = dsl, im_brief = None, im_brief_claims = 0,
                im_problems = [''candidate did not compile: '' @ error_text e]\<rparr>))"

end
