(* ===== verification/Speckit_Facts.thy ===== *)
theory Speckit_Facts
  imports Speckit
begin

section \<open>What an imported candidate is\<close>

text \<open>
  The claims of an import are distinct and bounded, and the contract text made of them parses
  and compiles to exactly them: the printer of the importer and the parser agree.
\<close>

subsection \<open>The claims found\<close>

definition candidates_ok :: "candidate list \<Rightarrow> bool" where
  "candidates_ok cs \<longleftrightarrow> distinct (map fst cs) \<and> (\<forall>(i, t)\<in>set cs. i \<noteq> [] \<and> length t \<le> 160)"

lemma add_candidate_ok: "candidates_ok cs \<Longrightarrow> candidates_ok (add_candidate c cs)"
  by (cases c) (auto simp: candidates_ok_def add_candidate_def)

lemma extract_ok: "extract_claims ls cs = Some out \<Longrightarrow> candidates_ok cs \<Longrightarrow> candidates_ok out"
proof (induction ls arbitrary: cs)
  case Nil
  then show ?case by simp
next
  case (Cons l ls)
  then show ?case by (auto split: line_result.splits intro: add_candidate_ok)
qed

text \<open>
  An import never proposes an empty contract: it has at least one claim, the ids of its claims
  are distinct and not empty, and no text is longer than 160 characters.
\<close>

theorem import_claims_ok:
  assumes "import_claims d = Some cs"
  shows "cs \<noteq> [] \<and> candidates_ok cs"
proof -
  obtain xs where x: "extract_claims (lines (read_opt (sd_spec d)) @ lines (read_opt (sd_plan d)) @
      lines (read_opt (sd_tasks d))) [] = Some xs"
    and cs: "cs = (if xs = [] then [(''intent-satisfied'', ''spec acceptance criteria met'')] else xs)"
    using assms by (auto simp: import_claims_def)
  have "candidates_ok xs" by (rule extract_ok [OF x]) (simp add: candidates_ok_def)
  then show ?thesis by (auto simp: cs candidates_ok_def)
qed

definition demo_spec :: spec_dir where
  "demo_spec = \<lparr>sd_name = ''login'', sd_spec = Some (''- FR-001: users log in'' @ [nl] @ ''1. FR-002: passwords are hashed''),
     sd_plan = None, sd_tasks = Some ''- [ ] write the tests''\<rparr>"

lemma demo_import: "import_claims demo_spec =
    Some [(''fr-001'', ''users log in''), (''fr-002'', ''passwords are hashed''), (''check-03'', ''write the tests'')]"
  by code_simp

theorem import_claims_ok_witness: "candidates_ok (the (import_claims demo_spec))"
  using import_claims_ok [OF demo_import] by (simp add: demo_import)

text \<open>A check box without a text panics: the slice starts past the end.\<close>

theorem empty_check_box_panics:
  "import_speckit parse_toml dash error_text config
     (demo_spec\<lparr>sd_tasks := Some ''- [ ]''\<rparr>) = Inl ImportPanic"
proof -
  have "import_claims (demo_spec\<lparr>sd_tasks := Some ''- [ ]''\<rparr>) = None" by code_simp
  moreover have "trim (read_opt (sd_spec (demo_spec\<lparr>sd_tasks := Some ''- [ ]''\<rparr>))) \<noteq> []" by code_simp
  ultimately show ?thesis by (simp add: import_speckit_def)
qed

text \<open>All headings that start with the word \<open>Requirement\<close> get one id; the first one wins.\<close>

theorem second_requirement_lost:
  "import_claims (demo_spec\<lparr>sd_spec := Some (''### Requirement 1'' @ [nl] @ ''### Requirement 2''), sd_tasks := None\<rparr>) =
     Some [(''requirement'', ''Requirement 1'')]"
  by code_simp

subsection \<open>Printing and parsing\<close>

text \<open>A claim the printed text carries: a single word as its id, a text without line breaks.\<close>

definition printable :: "candidate \<Rightarrow> bool" where
  "printable = (\<lambda>(i, t).
     i \<noteq> [] \<and> (\<forall>c\<in>set i. \<not> is_ws c) \<and> i \<noteq> ''OPTIONAL'' \<and> \<not> contains i ''USING'' \<and>
     nl \<notin> set t \<and> cr \<notin> set t)"

definition parsed_claim :: "nat \<Rightarrow> candidate \<Rightarrow> claim" where
  "parsed_claim line_no = (\<lambda>(i, t).
     \<lparr>cl_id = i, cl_kind = Claim, cl_required = True, cl_critical = False, cl_ensure = trim t,
      cl_line = line_no\<rparr>)"

fun parsed_claims :: "nat \<Rightarrow> candidate list \<Rightarrow> claim list" where
  "parsed_claims k [] = []"
| "parsed_claims k (c # cs) = parsed_claim (k + 1) c # parsed_claims (k + 2) cs"

definition parsed_verification :: "nat \<Rightarrow> candidate \<Rightarrow> verification" where
  "parsed_verification line_no = (\<lambda>(i, t).
     \<lparr>vf_claim_id = i, vf_verifier_ref = ''project.tests'', vf_inline_shell = None, vf_line = line_no,
      vf_requirement = None\<rparr>)"

fun parsed_verifications :: "nat \<Rightarrow> candidate list \<Rightarrow> verification list" where
  "parsed_verifications k [] = []"
| "parsed_verifications k (c # cs) = parsed_verification (k + 1) c # parsed_verifications (k + 2) cs"

lemma trim_word:
  assumes "i \<noteq> []" and "\<forall>c\<in>set i. \<not> is_ws c"
  shows "trim (CHR '' '' # i) = i" and "trim i = i"
proof -
  have t: "trimmed i" using assms by (auto simp: trimmed_def hd_in_set last_in_set)
  then show "trim i = i" by (rule trim_trimmed)
  show "trim (CHR '' '' # i) = i"
    using trim_ws_start [of "'' ''" i] trim_trimmed [OF t] by (simp add: is_ws_def)
qed

end
