(* ===== verification/Speckit_Parse.thy ===== *)
theory Speckit_Parse
  imports Speckit_Facts Parser_Facts
begin

section \<open>The candidate of an import parses\<close>

text \<open>
  The lines the importer prints, taken one by one by the parser, and the whole text: the
  candidate compiles to exactly the imported claims.
\<close>

subsection \<open>One line\<close>

lemma parse_claim_line:
  assumes "raw ! k = ''CLAIM '' @ i @ '' REQUIRED''" and "p_skip_until st \<le> k"
    and "i \<noteq> []" and "\<forall>c\<in>set i. \<not> is_ws c" and "i \<noteq> ''OPTIONAL''"
  shows "parse_line raw k st = Inr (push_claim
    \<lparr>cl_id = i, cl_kind = Claim, cl_required = True, cl_critical = False, cl_ensure = [], cl_line = k + 1\<rparr>
    (st\<lparr>p_in_goal := False\<rparr>))"
proof -
  have t: "trim (raw ! k) = ''CLAIM '' @ i @ '' REQUIRED''"
    unfolding assms(1) by (rule trim_trimmed) (simp add: trimmed_def is_ws_def)
  have r: "split_whitespace ''REQUIRED'' = [''REQUIRED'']"
    by (rule split_whitespace_word) (simp_all add: is_ws_def)
  have s: "split_whitespace (CHR '' '' # i @ '' REQUIRED'') = [i, ''REQUIRED'']"
    using split_whitespace_word(3) [OF assms(4,3), of "''REQUIRED''"] r by simp
  have d: "starts_with_directive (''CLAIM '' @ i @ '' REQUIRED'')"
    by (simp add: starts_with_directive_def DIRECTIVES_def word_end_def is_ws_def)
  show ?thesis
    using assms(2,5) s d
    by (simp add: parse_line_def Let_def t blank_or_comment_def starts_with_def parse_header_def parse_goal_def
        parse_claims_def parse_claim_def)
qed

lemma parse_ensure_line:
  assumes "raw ! k = ''  ENSURE '' @ t" and "p_skip_until st \<le> k" and "p_claims st \<noteq> []" and "\<not> p_in_goal st"
  shows "parse_line raw k st =
    Inr (st\<lparr>p_claims := update_last (\<lambda>c. c\<lparr>cl_ensure := trim t\<rparr>) (p_claims st)\<rparr>)"
proof -
  obtain r where r: "trim (''ENSURE'' @ CHR '' '' # t) = ''ENSURE'' @ r" "trim r = trim t"
    using trim_keyword [of "''ENSURE''" t] by (auto simp: is_ws_def)
  have "trim (raw ! k) = trim (''ENSURE'' @ CHR '' '' # t)"
    using trim_ws_start [of "''  ''" "''ENSURE'' @ CHR '' '' # t"] by (simp add: assms(1) is_ws_def)
  then have l: "trim (raw ! k) = ''ENSURE'' @ r" using r(1) by simp
  show ?thesis
    using assms(2-4)
    by (simp add: parse_line_def Let_def l blank_or_comment_def starts_with_def parse_header_def parse_goal_def
        parse_claims_def parse_ensure_def r(2))
qed

lemma parse_verify_line:
  assumes "raw ! k = ''VERIFY '' @ i" and "p_skip_until st \<le> k" and "\<not> p_in_goal st"
    and "p_pending_forbid st = None" and "i \<noteq> []" and "\<forall>c\<in>set i. \<not> is_ws c" and "\<not> contains i ''USING''"
  shows "parse_line raw k st = Inr (st\<lparr>p_pending_verify := Some (i, k + 1)\<rparr>)"
proof -
  have "trimmed (''VERIFY '' @ i)" using assms(5,6) by (auto simp: trimmed_def is_ws_def last_in_set)
  then have t: "trim (raw ! k) = ''VERIFY '' @ i" unfolding assms(1) by (rule trim_trimmed)
  have u: "split_once ''USING'' i = None" using assms(7) by (simp add: contains_def del: not_None_eq)
  show ?thesis
    using assms(2-5) trim_word(1) [OF assms(5,6)] u
    by (simp add: parse_line_def Let_def t blank_or_comment_def starts_with_def parse_header_def parse_goal_def
        parse_claims_def parse_forbids_def parse_tail_def parse_verify_def)
qed

lemma parse_using_line:
  assumes "raw ! k = ''  USING project.tests''" and "p_skip_until st \<le> k"
    and "p_pending_verify st = Some (i, n)" and "i \<noteq> []"
  shows "parse_line raw k st = Inr (st\<lparr>p_pending_verify := None,
    p_verifications := p_verifications st @
      [\<lparr>vf_claim_id = i, vf_verifier_ref = ''project.tests'', vf_inline_shell = None, vf_line = n,
        vf_requirement = None\<rparr>],
    p_last_using_line := Some (k + 1)\<rparr>)"
proof -
  have t: "trim (raw ! k) = ''USING project.tests''" unfolding assms(1) by code_simp
  have r: "trim '' project.tests'' = ''project.tests''" by code_simp
  have u: "using_target ''project.tests'' = (''project.tests'', None)" by code_simp
  show ?thesis
    using assms(2-4) by (simp add: parse_line_def Let_def t parse_using_def r push_verification_def u)
qed

subsection \<open>The claims and the verifications\<close>

lemma upt_two: "[k..<k + 2 * Suc n] = k # Suc k # [k + 2..<k + 2 + 2 * n]"
proof -
  have "[k..<k + 2 * Suc n] = k # [Suc k..<k + 2 * Suc n]" by (rule upt_conv_Cons) simp
  also have "[Suc k..<k + 2 * Suc n] = Suc k # [Suc (Suc k)..<k + 2 * Suc n]" by (rule upt_conv_Cons) simp
  finally show ?thesis by simp
qed

lemma fold_r_two:
  "f j s = Inr s1 \<Longrightarrow> f k s1 = Inr s2 \<Longrightarrow> fold_r f (j # k # xs) s = fold_r f xs s2"
  by simp

lemma printable_ensure: "nl \<notin> set t \<Longrightarrow> map (\<lambda>c. if c = nl then CHR '' '' else c) t = t"
  by (rule map_idI) auto

lemma length_claim_lines [simp]: "length (concat (map claim_lines cs)) = 2 * length cs"
  by (induction cs) (auto simp: claim_lines_def)

lemma length_verify_lines [simp]: "length (concat (map verify_lines cs)) = 2 * length cs"
  by (induction cs) (auto simp: verify_lines_def)

lemma parse_claim_block:
  assumes "raw = pre @ concat (map claim_lines cs) @ post" and "list_all printable cs"
    and "p_skip_until st \<le> length pre"
  shows "fold_r (parse_line raw) [length pre..<length pre + 2 * length cs] st =
    Inr (st\<lparr>p_in_goal := (p_in_goal st \<and> cs = []),
            p_claims := p_claims st @ parsed_claims (length pre) cs\<rparr>)"
  using assms
proof (induction cs arbitrary: pre st)
  case Nil
  then show ?case by simp
next
  case (Cons c cs)
  obtain i t where c: "c = (i, t)" by (cases c)
  have pr: "i \<noteq> []" "\<forall>c\<in>set i. \<not> is_ws c" "i \<noteq> ''OPTIONAL''" "nl \<notin> set t"
    using Cons.prems(2) by (auto simp: c printable_def)
  have raw: "raw ! length pre = ''CLAIM '' @ i @ '' REQUIRED''" "raw ! Suc (length pre) = ''  ENSURE '' @ t"
    "raw = (pre @ claim_lines c) @ concat (map claim_lines cs) @ post"
    using Cons.prems(1) by (simp_all add: c claim_lines_def printable_ensure [OF pr(4)] nth_append)
  let ?s1 = "push_claim \<lparr>cl_id = i, cl_kind = Claim, cl_required = True, cl_critical = False, cl_ensure = [],
      cl_line = length pre + 1\<rparr> (st\<lparr>p_in_goal := False\<rparr>)"
  let ?s2 = "?s1\<lparr>p_claims := update_last (\<lambda>c. c\<lparr>cl_ensure := trim t\<rparr>) (p_claims ?s1)\<rparr>"
  have 1: "parse_line raw (length pre) st = Inr ?s1"
    by (rule parse_claim_line [OF raw(1) Cons.prems(3) pr(1-3)])
  have 2: "parse_line raw (Suc (length pre)) ?s1 = Inr ?s2"
    using Cons.prems(3) by (intro parse_ensure_line [OF raw(2)]) (simp_all add: push_claim_def)
  have s2: "?s2 = st\<lparr>p_in_goal := False, p_claims := p_claims st @ [parsed_claim (length pre + 1) c]\<rparr>"
    by (simp add: push_claim_def parsed_claim_def c)
  have len: "length (pre @ claim_lines c) = length pre + 2" by (simp add: c claim_lines_def)
  have skip: "p_skip_until (st\<lparr>p_in_goal := False, p_claims := p_claims st @ [parsed_claim (length pre + 1) c]\<rparr>) \<le>
      length (pre @ claim_lines c)" using Cons.prems(3) by (simp add: len)
  have pcs: "list_all printable cs" using Cons.prems(2) by simp
  show ?case
    unfolding length_Cons upt_two fold_r_two [where f = "parse_line raw", OF 1 2] s2 using Cons.IH [OF raw(3) pcs skip] unfolding len
    by (simp del: upt_Suc add: add.commute)
qed

lemma parse_verify_block:
  assumes "raw = pre @ concat (map verify_lines cs) @ post" and "list_all printable cs"
    and "p_skip_until st \<le> length pre" and "\<not> p_in_goal st" and "p_pending_forbid st = None"
    and "p_pending_verify st = None"
  shows "\<exists>l. fold_r (parse_line raw) [length pre..<length pre + 2 * length cs] st =
    Inr (st\<lparr>p_verifications := p_verifications st @ parsed_verifications (length pre) cs,
            p_last_using_line := l\<rparr>)"
  using assms
proof (induction cs arbitrary: pre st)
  case Nil
  then show ?case by (intro exI [of _ "p_last_using_line st"]) simp
next
  case (Cons c cs)
  obtain i t where c: "c = (i, t)" by (cases c)
  have pr: "i \<noteq> []" "\<forall>c\<in>set i. \<not> is_ws c" "\<not> contains i ''USING''"
    using Cons.prems(2) by (auto simp: c printable_def)
  have raw: "raw ! length pre = ''VERIFY '' @ i" "raw ! Suc (length pre) = ''  USING project.tests''"
    "raw = (pre @ verify_lines c) @ concat (map verify_lines cs) @ post"
    using Cons.prems(1) by (simp_all add: c verify_lines_def nth_append)
  let ?s1 = "st\<lparr>p_pending_verify := Some (i, length pre + 1)\<rparr>"
  let ?s2 = "st\<lparr>p_verifications := p_verifications st @ [parsed_verification (length pre + 1) c],
      p_last_using_line := Some (Suc (length pre) + 1)\<rparr>"
  have 1: "parse_line raw (length pre) st = Inr ?s1"
    by (rule parse_verify_line [OF raw(1) Cons.prems(3-5) pr])
  have "?s1\<lparr>p_pending_verify := None\<rparr> = st" using Cons.prems(6) by simp
  then have 2: "parse_line raw (Suc (length pre)) ?s1 = Inr ?s2"
    using Cons.prems(3,6) pr(1)
    by (subst parse_using_line [OF raw(2), where i = i and n = "length pre + 1"])
      (simp_all add: parsed_verification_def c)
  have len: "length (pre @ verify_lines c) = length pre + 2" by (simp add: c verify_lines_def)
  obtain l where "fold_r (parse_line raw) [length pre + 2..<length pre + 2 + 2 * length cs] ?s2 =
      Inr (?s2\<lparr>p_verifications := p_verifications ?s2 @ parsed_verifications (length pre + 2) cs,
               p_last_using_line := l\<rparr>)"
    using Cons.IH [OF raw(3), of ?s2] Cons.prems(2-6) unfolding len by auto
  then show ?case
    unfolding length_Cons upt_two fold_r_two [where f = "parse_line raw", OF 1 2] by (intro exI [of _ l]) simp
qed

subsection \<open>The header and the acceptance\<close>

definition header_state :: "string \<Rightarrow> string \<Rightarrow> pstate" where
  "header_state dash intent_id = init_pstate\<lparr>p_version := Some ''0.1'', p_domain := Some ''software'',
     p_intent := Some (trim (''candidate-'' @ intent_id)), p_goal := candidate_goal dash, p_in_goal := True\<rparr>"

lemma parse_header_block:
  assumes "raw = header_lines dash intent_id @ post"
  shows "fold_r (parse_line raw) [0..<5] init_pstate = Inr (header_state dash intent_id)"
proof -
  have raw: "raw ! 0 = ''VERSION 0.1''" "raw ! Suc 0 = ''DOMAIN software''"
    "raw ! 2 = ''INTENT'' @ CHR '' '' # (''candidate-'' @ intent_id)" "raw ! 3 = ''GOAL''"
    "raw ! 4 = ''  '' @ candidate_goal dash"
    by (simp_all add: assms header_lines_def)
  have u: "[0..<5] = [0, Suc 0, 2, 3, 4]" by code_simp
  let ?s1 = "init_pstate\<lparr>p_version := Some ''0.1''\<rparr>"
  let ?s2 = "?s1\<lparr>p_domain := Some ''software''\<rparr>"
  let ?s3 = "?s2\<lparr>p_intent := Some (trim (''candidate-'' @ intent_id))\<rparr>"
  let ?s4 = "?s3\<lparr>p_in_goal := True\<rparr>"
  have t: "trim ''VERSION 0.1'' = ''VERSION 0.1''" "trim '' 0.1'' = ''0.1''" "trim ''DOMAIN software'' = ''DOMAIN software''"
    "trim '' software'' = ''software''" "trim ''GOAL'' = ''GOAL''" by code_simp+
  have 1: "parse_line raw 0 init_pstate = Inr ?s1"
    by (simp add: parse_line_def Let_def raw t blank_or_comment_def starts_with_def parse_header_def init_pstate_def)
  have 2: "parse_line raw (Suc 0) ?s1 = Inr ?s2"
    by (simp add: parse_line_def Let_def raw t blank_or_comment_def starts_with_def parse_header_def init_pstate_def)
  obtain r where r: "trim (''INTENT'' @ CHR '' '' # (''candidate-'' @ intent_id)) = ''INTENT'' @ r"
    "trim r = trim (''candidate-'' @ intent_id)"
    using trim_keyword [of "''INTENT''" "''candidate-'' @ intent_id"] by (auto simp: is_ws_def)
  have l: "trim (raw ! 2) = ''INTENT'' @ r" unfolding raw(3) by (rule r(1))
  have 3: "parse_line raw 2 ?s2 = Inr ?s3"
    by (simp add: parse_line_def Let_def l r(2) blank_or_comment_def starts_with_def parse_header_def init_pstate_def)
  have 4: "parse_line raw 3 ?s3 = Inr ?s4"
    by (simp add: parse_line_def Let_def raw t blank_or_comment_def starts_with_def parse_header_def parse_goal_def
        init_pstate_def)
  have g: "trim (raw ! 4) = candidate_goal dash"
    unfolding raw(5) using trim_ws_start [of "''  ''" "candidate_goal dash"]
    by (simp add: is_ws_def) (rule trim_trimmed, simp add: trimmed_def candidate_goal_def is_ws_def)
  have 5: "parse_line raw 4 ?s4 = Inr (header_state dash intent_id)"
    by (simp add: parse_line_def Let_def g)
      (simp add: candidate_goal_def blank_or_comment_def starts_with_def parse_header_def parse_goal_def
        starts_with_directive_def DIRECTIVES_def init_pstate_def header_state_def push_goal_def)
  show ?thesis unfolding u by (simp only: fold_r.simps 1 2 3 4 5 bind_r_simps)
qed

lemma parse_accept_block:
  assumes "raw = pre @ accept_lines" and "p_skip_until st \<le> length pre" and "p_pending_forbid st = None"
    and "\<not> p_in_goal st"
  shows "fold_r (parse_line raw) [length pre..<length pre + 3] st = Inr (st\<lparr>p_skip_until := length pre + 3\<rparr>)"
proof -
  let ?k = "length pre"
  have raw: "raw ! ?k = ''ACCEPT WHEN''"
    "drop (Suc ?k) raw = [''  required_claims == VERIFIED'', ''  AND critical_failures == 0'']"
    by (simp_all add: assms(1) accept_lines_def)
  have t: "trim ''ACCEPT WHEN'' = ''ACCEPT WHEN''" by code_simp
  have a: "accept_lookahead (trim []) [''  required_claims == VERIFIED'', ''  AND critical_failures == 0''] =
      (''required_claims == VERIFIED AND critical_failures == 0'', 2)" by code_simp
  have v: "validate_accept_condition ''required_claims == VERIFIED AND critical_failures == 0'' n = Inr ()" for n
  proof -
    have "accept_parts ''required_claims == VERIFIED AND critical_failures == 0'' = [required_clause, critical_clause]"
      by code_simp
    then show ?thesis by (simp add: validate_accept_condition_def Let_def)
  qed
  have 1: "parse_line raw ?k st = Inr (st\<lparr>p_skip_until := ?k + 3\<rparr>)"
    using assms(2-4) a v
    by (simp add: parse_line_def Let_def raw t blank_or_comment_def starts_with_def parse_header_def parse_goal_def
        parse_claims_def parse_forbids_def parse_tail_def parse_accept_def)
  have u: "[?k..<?k + 3] = [?k, Suc ?k, Suc (Suc ?k)]" by (simp add: upt_rec)
  show ?thesis unfolding u by (simp add: 1) (simp add: parse_line_def)
qed

subsection \<open>The whole text\<close>

lemma parsed_claims_ids: "map cl_id (parsed_claims k cs) = map fst cs"
  by (induction cs arbitrary: k) (auto simp: parsed_claim_def)

lemma parsed_ir:
  "map (\<lambda>c. (ci_id c, ci_required c, ci_ensure c)) (map claim_to_ir (parsed_claims k cs)) =
     map (\<lambda>(i, t). (i, True, trim t)) cs"
  "map (\<lambda>v. (vi_claim_id v, vi_verifier_ref v, vi_requirement v)) (map verification_to_ir (parsed_verifications n cs)) =
     map (\<lambda>(i, t). (i, ''project.tests'', None)) cs"
  by (induction cs arbitrary: k n)
    (auto simp: parsed_claim_def parsed_verification_def claim_to_ir_def verification_to_ir_def)

lemma link_check_parsed:
  "fst ` set cs \<subseteq> cl_id ` set claims \<Longrightarrow> link_check claims (parsed_verifications k cs) = Inr ()"
  by (induction cs arbitrary: k) (auto simp: parsed_verification_def list_ex_iff)

lemma parse_dsl_lines:
  assumes "list_all printable cs" and that: "cs \<noteq> []"
  shows "\<exists>l. parse_lines (dsl_lines dash intent_id cs) = Inr ((header_state dash intent_id)
    \<lparr>p_in_goal := (cs = []), p_claims := parsed_claims 5 cs, p_verifications := parsed_verifications (5 + 2 * length cs) cs,
     p_last_using_line := l, p_skip_until := 8 + 4 * length cs\<rparr>)"
proof -
  let ?raw = "dsl_lines dash intent_id cs"
  let ?h = "header_lines dash intent_id" and ?c = "concat (map claim_lines cs)" and ?v = "concat (map verify_lines cs)"
  let ?n = "length cs"
  let ?s0 = "header_state dash intent_id"
  let ?s1 = "?s0\<lparr>p_in_goal := False, p_claims := parsed_claims 5 cs\<rparr>"
  have h: "length ?h = 5" by (simp add: header_lines_def)
  have s0: "p_skip_until ?s0 = 0" "p_claims ?s0 = []" "p_pending_forbid ?s0 = None" "p_pending_verify ?s0 = None"
    "p_verifications ?s0 = []" "p_in_goal ?s0"
    by (simp_all add: header_state_def init_pstate_def)
  have 0: "fold_r (parse_line ?raw) [0..<5] init_pstate = Inr ?s0"
    by (rule parse_header_block) (simp add: dsl_lines_def)
  have 1: "fold_r (parse_line ?raw) [5..<5 + 2 * ?n] ?s0 = Inr ?s1"
    using parse_claim_block [of ?raw ?h cs "?v @ accept_lines" ?s0] assms s0 by (simp add: dsl_lines_def h)
  obtain l where 2: "fold_r (parse_line ?raw) [5 + 2 * ?n..<5 + 2 * ?n + 2 * ?n] ?s1 =
      Inr (?s1\<lparr>p_verifications := parsed_verifications (5 + 2 * ?n) cs, p_last_using_line := l\<rparr>)"
    using parse_verify_block [of ?raw "?h @ ?c" cs accept_lines ?s1] assms s0
    by (auto simp: dsl_lines_def h)
  have 3: "fold_r (parse_line ?raw) [5 + 2 * ?n + 2 * ?n..<5 + 2 * ?n + 2 * ?n + 3]
      (?s1\<lparr>p_verifications := parsed_verifications (5 + 2 * ?n) cs, p_last_using_line := l\<rparr>) =
      Inr (?s1\<lparr>p_verifications := parsed_verifications (5 + 2 * ?n) cs, p_last_using_line := l,
               p_skip_until := 8 + 4 * ?n\<rparr>)"
    using parse_accept_block [of ?raw "?h @ ?c @ ?v"
        "?s1\<lparr>p_verifications := parsed_verifications (5 + 2 * ?n) cs, p_last_using_line := l\<rparr>"] s0
    by (simp add: dsl_lines_def h add.commute del: upt_Suc)
  have len: "length ?raw = 5 + 2 * ?n + 2 * ?n + 3" by (simp add: dsl_lines_def h accept_lines_def)
  have u: "[0..<length ?raw] = [0..<5] @ [5..<5 + 2 * ?n] @ [5 + 2 * ?n..<5 + 2 * ?n + 2 * ?n] @
      [5 + 2 * ?n + 2 * ?n..<5 + 2 * ?n + 2 * ?n + 3]"
    unfolding len using upt_add_eq_append [of 0 "5 + 2 * ?n + 2 * ?n" 3] upt_add_eq_append [of 0 "5 + 2 * ?n" "2 * ?n"]
      upt_add_eq_append [of 0 5 "2 * ?n"] by (simp only: append_assoc zero_le simp_thms)
  show ?thesis
    unfolding parse_lines_def u fold_r_append 0 1 2 3 bind_r_simps using that by (intro exI [of _ l]) simp
qed



end
