(* ===== verification/Report.thy ===== *)
theory Report
  imports Verify_State
begin

section \<open>Reporting the last decision (crates/uni-cli, cmd/report.rs)\<close>

text \<open>
  The value \<open>uni verify\<close> stores as \<open>decisions/last.json\<close>, and what \<open>uni report\<close> and
  \<open>uni explain\<close> make of it: the stable report, its text, the annotations for a pull request and
  the story of each claim that is not proven. The text of a reason is a parameter (one of
  them contains a percentage that the standard library formats), and so is the printer of
  time stamps. The other lines of \<open>uni explain\<close> are in \<open>Console\<close>.
\<close>

subsection \<open>The stored decision\<close>

definition state_name :: "evidence_state \<Rightarrow> string" where
  "state_name st = (case st of Valid \<Rightarrow> ''Valid'' | Invalid \<Rightarrow> ''Invalid'' | Stale \<Rightarrow> ''Stale'')"

definition claim_result_value :: "claim_result \<Rightarrow> json" where
  "claim_result_value c = JObject
     [(''claim_id'', JString (cr_claim_id c)), (''critical'', JBool (cr_critical c)),
      (''detail'', JString (cr_detail c)), (''required'', JBool (cr_required c)),
      (''state'', JString (state_name (cr_state c)))]"

definition stale_value :: "string \<times> (string \<times> string) list \<Rightarrow> string \<times> json" where
  "stale_value = (\<lambda>(claim, reasons). (claim, JArray (map (\<lambda>(dimension, detail).
     JObject [(''detail'', JString detail), (''dimension'', JString dimension)]) reasons)))"

definition decision_value :: "(reason \<Rightarrow> string) \<Rightarrow> last_decision \<Rightarrow> json" where
  "decision_value reason_text ld = JObject
     [(''assurance'', JString (ld_assurance ld)),
      (''claims'', JArray (map claim_result_value (dr_claims (ld_result ld)))),
      (''commit'', JString (ld_commit ld)),
      (''decision'', JString (decision_name (dr_decision (ld_result ld)))),
      (''identity_assurance'', JString (ld_identity ld)), (''independent_actor'', JBool (ld_independent ld)),
      (''intent'', JObject [(''domain'', JString (in_domain (ld_intent ld))),
         (''goal'', JString (in_goal (ld_intent ld))), (''id'', JString (in_id (ld_intent ld)))]),
      (''reason'', JString (reason_text (dr_reason (ld_result ld)))),
      (''stale'', JObject (map stale_value (ld_stale ld)))]"

subsection \<open>The stable report\<close>

text \<open>The text and the truth value of a field, with their defaults.\<close>

definition json_str_or :: "string \<Rightarrow> json \<Rightarrow> string" where
  "json_str_or d v = (case json_str v of Some s \<Rightarrow> s | None \<Rightarrow> d)"

definition bool_or_false :: "json \<Rightarrow> bool" where
  "bool_or_false v = (case json_bool v of Some b \<Rightarrow> b | None \<Rightarrow> False)"

definition is_valid_claim :: "json \<Rightarrow> bool" where
  "is_valid_claim c \<longleftrightarrow> json_index c ''state'' = JString ''Valid''"

definition base_assurance :: "json \<Rightarrow> json" where
  "base_assurance v = JString (''A'' @ show_nat (assurance_of_json (json_str (json_index v ''decision''))))"

definition get_or :: "json \<Rightarrow> string \<Rightarrow> json \<Rightarrow> json" where
  "get_or v k d = (case json_get v k of Some x \<Rightarrow> x | None \<Rightarrow> d)"

definition report_of :: "json \<Rightarrow> json" where
  "report_of v =
     (let claims = items_of (json_index v ''claims'') in
      JObject
        [(''assurance'', get_or v ''assurance'' (base_assurance v)),
         (''claims'', JArray (map (\<lambda>c. JObject
            [(''claim_id'', json_index c ''claim_id''), (''state'', json_index c ''state'')]) claims)),
         (''decision'', json_index v ''decision''),
         (''identity_assurance'', get_or v ''identity_assurance'' (JString ''SELF-DECLARED'')),
         (''independent_actor'', get_or v ''independent_actor'' (JBool False)),
         (''intent'', json_index v ''intent''), (''reason'', json_index v ''reason''),
         (''summary'', JObject [(''claims_total'', JInt (int (length claims))),
            (''claims_verified'', JInt (int (length (filter is_valid_claim claims))))])])"

datatype report_error = NoDecision | BadDecision

definition stable_report :: "(string \<Rightarrow> json option) \<Rightarrow> string option \<Rightarrow> report_error + json" where
  "stable_report from_str file =
     bind_r (ok_or file NoDecision) (\<lambda>text. bind_r (ok_or (from_str text) BadDecision) (\<lambda>v. Inr (report_of v)))"

subsection \<open>The report as text\<close>

definition pad :: "nat \<Rightarrow> string \<Rightarrow> string" where
  "pad n s = s @ replicate (n - length s) CHR '' ''"

definition mark_of :: "json \<Rightarrow> string" where
  "mark_of c =
     (if json_index c ''state'' = JString ''Valid'' then ''PASS''
      else if json_index c ''state'' = JString ''Stale'' then ''STALE'' else ''FAIL'')"

definition show_number :: "json \<Rightarrow> string" where
  "show_number v = (case v of JInt i \<Rightarrow> show_int i | _ \<Rightarrow> ''null'')"

definition yes_no :: "bool \<Rightarrow> string" where
  "yes_no b = (if b then ''YES'' else ''NO'')"

definition report_lines :: "json \<Rightarrow> string list" where
  "report_lines r =
     [''UNI Assurance'', ''-------------''] @
     (case json_object (json_index r ''intent'') of
        Some _ \<Rightarrow> [''Intent      '' @ json_str_or ''?'' (json_index (json_index r ''intent'') ''id'')] | None \<Rightarrow> []) @
     [''Claims      '' @ show_number (json_index (json_index r ''summary'') ''claims_verified'') @ ''/'' @
        show_number (json_index (json_index r ''summary'') ''claims_total'') @ '' verified'',
      ''Assurance   '' @ json_str_or ''A0'' (json_index r ''assurance'') @ '' (independent actor: '' @
        yes_no (bool_or_false (json_index r ''independent_actor'')) @ '', identity: '' @
        json_str_or ''SELF-DECLARED'' (json_index r ''identity_assurance'') @ '')''] @
     (case json_array (json_index r ''claims'') of
        None \<Rightarrow> []
      | Some cs \<Rightarrow> [[], ''Claims''] @
          map (\<lambda>c. ''  '' @ pad 24 (json_str_or ''?'' (json_index c ''claim_id'')) @ '' '' @ mark_of c) cs) @
     [[], ''Decision    '' @ json_str_or ''?'' (json_index r ''decision''), ''Reason      '' @ json_str_or ''?'' (json_index r ''reason'')]"

subsection \<open>Annotations\<close>

definition detail_part :: "string \<Rightarrow> string \<Rightarrow> string list" where
  "detail_part detail marker =
     (case split_once marker detail of
        None \<Rightarrow> []
      | Some (_, rest) \<Rightarrow>
          filter (\<lambda>p. p \<noteq> []) (map trim (split_str '','' (hd (split_str '')'' rest)))))"

definition files_from_detail :: "string \<Rightarrow> string list" where
  "files_from_detail detail =
     detail_part detail ''changed: '' @ detail_part detail ''added: '' @ detail_part detail ''removed: ''"

definition reason_files :: "json \<Rightarrow> string list" where
  "reason_files r = (case json_str (json_index r ''detail'') of Some d \<Rightarrow> files_from_detail d | None \<Rightarrow> [])"

definition push_new :: "string \<Rightarrow> string list \<Rightarrow> string list" where
  "push_new f fs = (if f \<in> set fs then fs else fs @ [f])"

definition annotation :: "string \<Rightarrow> string \<Rightarrow> string \<Rightarrow> json \<Rightarrow> string" where
  "annotation level where_at claim r =
     ''::'' @ level @ '' '' @ where_at @ ''title=claim '' @ claim @ ''::'' @
     json_str_or ''context changed'' (json_index r ''detail'') @ '' ('' @ json_str_or ''stale'' (json_index r ''dimension'') @
     ''); run '' @ [CHR 0x60] @ ''uni verify '' @ claim @ [CHR 0x60]"

definition claim_annotations :: "json \<Rightarrow> json \<Rightarrow> string list" where
  "claim_annotations v c =
     (let claim = json_str_or ''claim'' (json_index c ''claim_id'');
          reasons = items_of (json_index (json_index v ''stale'') claim);
          level = (if bool_or_false (json_index c ''critical'') then ''error'' else ''warning'');
          files = fold push_new (concat (map reason_files reasons)) [] in
      if reasons = [] then
        [''::'' @ level @ '' title=claim '' @ claim @ ''::no valid evidence for this revision; run '' @
         [CHR 0x60] @ ''uni verify '' @ claim @ [CHR 0x60]]
      else if files = [] then [annotation level [] claim (hd reasons)]
      else map (\<lambda>f. annotation level (''file='' @ f @ '','') claim
             (case List.find (\<lambda>r. f \<in> set (reason_files r)) reasons of Some r \<Rightarrow> r | None \<Rightarrow> JNull)) files)"

definition github_annotations :: "json \<Rightarrow> string list" where
  "github_annotations v =
     concat (map (claim_annotations v) (filter (\<lambda>c. \<not> is_valid_claim c) (items_of (json_index v ''claims''))))"

subsection \<open>The stories of \<open>uni explain\<close>\<close>

definition last_line :: "string \<Rightarrow> string" where
  "last_line s = (case rev (lines s) of l # _ \<Rightarrow> trim l | [] \<Rightarrow> [])"

definition drift_story :: "(int \<Rightarrow> string) \<Rightarrow> evidence \<Rightarrow> json list \<Rightarrow> string list" where
  "drift_story rfc3339 e reasons =
     map (\<lambda>r. ''  why          '' @ json_str_or [] (json_index r ''detail'') @ '' ('' @
                json_str_or [] (json_index r ''dimension'') @ '')'') reasons @
     (case ev_expires_at e of Some t \<Rightarrow> [''  expired      '' @ rfc3339 t] | None \<Rightarrow> [])"

definition failure_story :: "string \<Rightarrow> evidence \<Rightarrow> string list" where
  "failure_story commit e =
     [''  exit_code    '' @ show_int (ev_exit_code e), ''  proven on    '' @ take 8 (ev_commit_sha e)] @
     (if commit = [] then [] else [''  delivering   '' @ take 8 commit]) @
     (if ev_output_excerpt e \<noteq> [] \<and> last_line (ev_output_excerpt e) \<noteq> []
      then [''  output       '' @ last_line (ev_output_excerpt e)] else [])"

definition claim_story :: "(int \<Rightarrow> string) \<Rightarrow> evidence_dir \<Rightarrow> json \<Rightarrow> json \<Rightarrow> string list" where
  "claim_story rfc3339 d v c =
     (let claim = json_str_or [] (json_index c ''claim_id'');
          reasons = items_of (json_index (json_index v ''stale'') claim) in
      [''CLAIM '' @ claim] @
      (case latest_for_claim d claim of
         None \<Rightarrow> [''  status       EVIDENCE_REQUIRED'', ''  found        no evidence bound to this revision'']
       | Some e \<Rightarrow>
           [''  status       '' @ state_name (ev_state e), ''  command      '' @ ev_command e] @
           (if ev_artifact_files e = [] then [] else [''  watched      '' @ join '', '' (bt_keys (ev_artifact_files e))]) @
           (if reasons \<noteq> [] then drift_story rfc3339 e reasons
            else failure_story (json_str_or [] (json_index v ''commit'')) e)) @
      [''  action       uni verify '' @ claim])"

definition explain_stories :: "(int \<Rightarrow> string) \<Rightarrow> evidence_dir \<Rightarrow> json \<Rightarrow> string list list" where
  "explain_stories rfc3339 d v =
     map (claim_story rfc3339 d v) (filter (\<lambda>c. \<not> is_valid_claim c) (items_of (json_index v ''claims'')))"

end
