(* ===== verification/Workspace.thy ===== *)
theory Workspace
  imports Bundle Report
begin

section \<open>The workspace commands (cmd/contract.rs, cmd/journal.rs, cmd/pack.rs, events.rs)\<close>

text \<open>
  \<open>uni init\<close>, \<open>uni compile\<close>, \<open>uni doctor\<close>, \<open>uni events\<close> with its OTLP projection, and the domain
  packs. What the operating system answers to the creation of a directory and to the opening
  of a file, the time stamps of chrono, the formatting of a ratio and the text of JSON values
  are parameters.
\<close>

subsection \<open>Creating a workspace and showing a contract\<close>

definition default_config :: string where
  "default_config = concat (map (\<lambda>l. l @ [nl])
     [''[verifiers]'',
      [CHR 0x22] @ ''project.check'' @ [CHR 0x22] @ '' = '' @ [CHR 0x22] @ ''cargo check'' @ [CHR 0x22],
      [CHR 0x22] @ ''project.tests'' @ [CHR 0x22] @ '' = '' @ [CHR 0x22] @ ''cargo test'' @ [CHR 0x22],
      [CHR 0x22] @ ''project.build'' @ [CHR 0x22] @ '' = '' @ [CHR 0x22] @ ''cargo build'' @ [CHR 0x22]])"

definition cmd_init :: "uni_dir \<Rightarrow> uni_dir" where
  "cmd_init uni =
     uni\<lparr>ud_policies := (case ud_policies uni of None \<Rightarrow> Some [] | Some d \<Rightarrow> Some d),
         ud_config := (case ud_config uni of None \<Rightarrow> Some default_config | Some t \<Rightarrow> Some t)\<rparr>"

text \<open>The canonical text of a representation (\<open>to_json\<close> of uni-ir, serde output) is a parameter.\<close>

definition cmd_compile :: "(ir \<Rightarrow> string) \<Rightarrow> string option \<Rightarrow> bool \<Rightarrow> cmd_error + string list" where
  "cmd_compile to_json file as_json =
     bind_r (load_contract file) (\<lambda>i. Inr
       (if as_json then [to_json i]
        else [''intent: '' @ in_id (ir_intent i), ''claims: '' @ show_nat (length (ir_claims i)),
              ''verifications: '' @ show_nat (length (ir_verification i)), ''--json for canonical IR'']))"

subsection \<open>The health check\<close>

record doctor_env =
  dc_mkdir :: bool
  dc_open :: bool
  dc_sha :: string
  dc_dirty :: bool
  dc_ratio :: "f64 \<Rightarrow> string"
  dc_toml :: "string \<Rightarrow> toml option"

record doctor_dir =
  dd_exists :: bool
  dd_config :: "string option"
  dd_policies :: "text_dir option"
  dd_journal :: journal_dir

record check =
  ck_name :: string
  ck_ok :: bool
  ck_detail :: string

definition git_ok :: "string \<Rightarrow> bool" where
  "git_ok sha \<longleftrightarrow> sha \<noteq> ''no-git'' \<and> sha \<noteq> []"

definition policy_detail :: "(f64 \<Rightarrow> string) \<Rightarrow> policy \<Rightarrow> string" where
  "policy_detail ratio p =
     ''reject_on_invalid='' @ show_bool (reject_on_invalid p) @
     '' escalate_on_stale='' @ show_bool (escalate_on_stale p) @
     '' escalate_on_missing='' @ show_bool (escalate_on_missing p) @
     '' min_ratio='' @ ratio (min_verified_ratio p)"

definition journal_detail :: "journal_dir \<Rightarrow> string" where
  "journal_detail d =
     show_nat (utf8_len (text_or_empty (map_of d live_name)) div 1024) @ '' KiB current, '' @
     show_nat (length (archives d)) @ '' archive(s), rotates at '' @ show_nat (JOURNAL_MAX_BYTES div 1024) @ '' KiB''"

text \<open>The journal is opened with \<open>create\<close> and \<open>append\<close>, the evidence directory is created.\<close>

definition open_journal :: "journal_dir \<Rightarrow> journal_dir" where
  "open_journal d = (case map_of d live_name of None \<Rightarrow> d @ [(live_name, [])] | Some _ \<Rightarrow> d)"

definition doctor_touch :: "doctor_env \<Rightarrow> doctor_dir \<Rightarrow> doctor_dir" where
  "doctor_touch env d =
     d\<lparr>dd_exists := dd_exists d \<or> dc_mkdir env,
       dd_journal := (if dc_open env then open_journal (dd_journal d) else dd_journal d)\<rparr>"

definition doctor_checks :: "doctor_env \<Rightarrow> doctor_dir \<Rightarrow> check list" where
  "doctor_checks env d =
     [\<lparr>ck_name = ''.uni present'', ck_ok = dd_exists d,
       ck_detail = (if dd_exists d then [] else ''run '' @ [CHR 0x60] @ ''uni init'' @ [CHR 0x60])\<rparr>,
      \<lparr>ck_name = ''git binding'', ck_ok = git_ok (dc_sha env),
       ck_detail = (if git_ok (dc_sha env) then take 8 (dc_sha env) @ '' dirty='' @ show_bool (dc_dirty env)
                    else ''no repository'')\<rparr>,
      \<lparr>ck_name = ''registry'', ck_ok = True,
       ck_detail = show_nat (length (load_registry (dc_toml env) (dd_config d))) @ '' verifier(s)''\<rparr>,
      \<lparr>ck_name = ''policies'', ck_ok = True,
       ck_detail = policy_detail (dc_ratio env) (load_policies (dc_toml env) (dd_policies d))\<rparr>,
      \<lparr>ck_name = ''evidence dir writable'', ck_ok = dc_mkdir env, ck_detail = []\<rparr>,
      \<lparr>ck_name = ''journal writable'', ck_ok = dc_open env,
       ck_detail = journal_detail (dd_journal (doctor_touch env d))\<rparr>]"

definition failed_checks :: "check list \<Rightarrow> nat" where
  "failed_checks cs = length (filter (\<lambda>c. \<not> ck_ok c) cs)"

text \<open>\<open>None\<close> is a success, \<open>Some n\<close> the error about \<open>n\<close> failed checks.\<close>

definition cmd_doctor :: "doctor_env \<Rightarrow> doctor_dir \<Rightarrow> (check list \<times> nat option) \<times> doctor_dir" where
  "cmd_doctor env d =
     (let cs = doctor_checks env d; n = failed_checks cs in
      ((cs, if 0 < n then Some n else None), doctor_touch env d))"

subsection \<open>Listing and exporting the events\<close>

definition attr_text :: "(json \<Rightarrow> string) \<Rightarrow> json \<Rightarrow> string" where
  "attr_text to_string v = (case v of JString s \<Rightarrow> s | _ \<Rightarrow> to_string v)"

definition event_line :: "(json \<Rightarrow> string) \<Rightarrow> journal_event \<Rightarrow> string" where
  "event_line to_string e =
     pad 22 (je_event e) @ '' '' @ je_timestamp e @ '' '' @
     join '' '' (map (\<lambda>(k, v). k @ ''='' @ attr_text to_string v) (je_attributes e))"

definition event_lines :: "(json \<Rightarrow> string) \<Rightarrow> nat \<Rightarrow> journal_event list \<Rightarrow> string list" where
  "event_lines to_string most evts =
     map (event_line to_string) (drop (length evts - most) evts) @
     [[], show_nat (length evts) @ '' events (append-only .uni/events.jsonl)'']"

record otlp_env =
  ot_digest :: "string \<Rightarrow> nat list"
  ot_to_string :: "json \<Rightarrow> string"
  ot_event_text :: "journal_event \<Rightarrow> string"
  ot_nanos :: "string \<Rightarrow> int option option"
  ot_version :: string

definition event_intent :: "journal_event \<Rightarrow> string" where
  "event_intent e =
     (case Option.bind (bt_get (je_attributes e) ''uni.intent.id'') json_str of Some s \<Rightarrow> s | None \<Rightarrow> ''uni'')"

definition trace_id :: "otlp_env \<Rightarrow> string \<Rightarrow> string" where
  "trace_id env seed = take 32 (sha256_hex (ot_digest env) seed)"

definition span_id :: "otlp_env \<Rightarrow> string \<Rightarrow> string" where
  "span_id env seed = take 16 (sha256_hex (ot_digest env) seed)"

definition nanos_text :: "otlp_env \<Rightarrow> string \<Rightarrow> string" where
  "nanos_text env ts =
     (case ot_nanos env ts of None \<Rightarrow> ''0'' | Some None \<Rightarrow> show_int 0 | Some (Some n) \<Rightarrow> show_int n)"

definition string_value :: "string \<Rightarrow> string \<Rightarrow> json" where
  "string_value k s = JObject [(''key'', JString k), (''value'', JObject [(''stringValue'', JString s)])]"

definition otlp_span :: "otlp_env \<Rightarrow> journal_event \<Rightarrow> json" where
  "otlp_span env e = JObject
     [(''attributes'', JArray (map (\<lambda>(k, v). string_value k (attr_text (ot_to_string env) v)) (je_attributes e))),
      (''endTimeUnixNano'', JString (nanos_text env (je_timestamp e))), (''kind'', JInt 1),
      (''name'', JString (je_event e)), (''spanId'', JString (span_id env (ot_event_text env e))),
      (''startTimeUnixNano'', JString (nanos_text env (je_timestamp e))),
      (''traceId'', JString (trace_id env (event_intent e)))]"

definition to_otlp :: "otlp_env \<Rightarrow> journal_event list \<Rightarrow> json" where
  "to_otlp env evts = JObject [(''resourceSpans'', JArray [JObject
     [(''resource'', JObject [(''attributes'', JArray
         [string_value ''service.name'' ''uni'', string_value ''service.version'' (ot_version env)])]),
      (''scopeSpans'', JArray [JObject
         [(''scope'', JObject [(''name'', JString ''uni''), (''version'', JString (ot_version env))]),
          (''spans'', JArray (map (otlp_span env) evts))]])]])]"

subsection \<open>Domain packs\<close>

text \<open>
  The two roots of the packs: their directories in the order of \<open>read_dir\<close>, each with its
  manifest, \<open>None\<close> where there is none that parses.
\<close>

type_synonym pack_root = "(string \<times> toml option) list"

definition discover_packs :: "pack_root \<Rightarrow> pack_root \<Rightarrow> (string \<times> toml) list" where
  "discover_packs local installed =
     sort_key fst (List.map_filter (\<lambda>(n, v). map_option (Pair n) v) (local @ installed))"

definition toml_str_or :: "string \<Rightarrow> toml option \<Rightarrow> string" where
  "toml_str_or d v = (case Option.bind v as_str of Some s \<Rightarrow> s | None \<Rightarrow> d)"

definition template_value :: "toml \<Rightarrow> json option" where
  "template_value t =
     map_option (\<lambda>n. JObject
       [(''description'', JString (toml_str_or [] (toml_get t ''description''))), (''name'', JString n)])
       (Option.bind (toml_get t ''name'') as_str)"

definition pack_value :: "string \<times> toml \<Rightarrow> json" where
  "pack_value = (\<lambda>(dir, doc).
     let p = toml_get doc ''pack''; field = (\<lambda>k. Option.bind p (\<lambda>x. toml_get x k)) in
     JObject
       [(''description'', JString (toml_str_or [] (field ''description''))), (''dir'', JString dir),
        (''name'', JString (toml_str_or dir (field ''name''))),
        (''templates'', JArray (case Option.bind (toml_get doc ''template'') as_array of
            Some ts \<Rightarrow> List.map_filter template_value ts | None \<Rightarrow> [])),
        (''version'', JString (toml_str_or ''?'' (field ''version'')))])"

definition pack_list :: "pack_root \<Rightarrow> pack_root \<Rightarrow> json" where
  "pack_list local installed =
     JObject [(''packs'', JArray (map pack_value (discover_packs local installed)))]"

definition template_paths :: "string \<Rightarrow> string \<Rightarrow> string list" where
  "template_paths pack name =
     [''packs/'' @ pack @ ''/templates/'' @ name @ ''.uni'',
      ''.uni/packs/'' @ pack @ ''/templates/'' @ name @ ''.uni'']"

text \<open>The files of the working directory by path; \<open>None\<close> is the error of a missing template.\<close>

definition pack_template ::
  "string \<Rightarrow> string \<Rightarrow> (string \<Rightarrow> string option) \<Rightarrow> (string \<Rightarrow> string option) option" where
  "pack_template pack name files =
     (case List.find (\<lambda>p. files p \<noteq> None) (template_paths pack name) of
        None \<Rightarrow> None
      | Some src \<Rightarrow> Some (files(''uni/intents/'' @ name @ ''.uni'' := files src)))"

subsection \<open>What the commands guarantee\<close>

text \<open>Initializing keeps what is there, and doing it again changes nothing.\<close>

lemma init_keeps:
  "ud_config uni = Some t \<Longrightarrow> ud_config (cmd_init uni) = Some t"
  "cmd_init (cmd_init uni) = cmd_init uni"
  by (simp_all add: cmd_init_def split: option.splits)

text \<open>
  The health check passes exactly when the directory exists, git names a revision and both
  writes succeed.
\<close>

lemma doctor_healthy:
  "snd (fst (cmd_doctor env d)) = None \<longleftrightarrow> dd_exists d \<and> git_ok (dc_sha env) \<and> dc_mkdir env \<and> dc_open env"
  by (simp add: cmd_doctor_def Let_def doctor_checks_def failed_checks_def)

text \<open>
  Git answers \<open>HEAD\<close> and an error in a repository without a commit, and nothing and an error
  outside of one. The error is not looked at: the first passes the check, and in the second
  the workspace counts as clean whatever changes in it.
\<close>

theorem git_errors_ignored:
  "git_ok (fst (git_info (Some (''HEAD'' @ [nl])) status)) \<and> git_info (Some []) (Some []) = ([], False) \<and>
   git_info None None = (''no-git'', False)"
proof -
  have "trim (''HEAD'' @ [nl]) = ''HEAD''" by code_simp
  then show ?thesis by (simp add: git_info_def git_ok_def)
qed

text \<open>
  The check is not read-only: run in a repository without a \<open>.uni\<close> directory it reports that and
  creates one, so a second run reports a healthy workspace that was never initialized.
\<close>

theorem doctor_heals_itself:
  assumes "\<not> dd_exists d" and "git_ok (dc_sha env)" and "dc_mkdir env" and "dc_open env"
  shows "snd (fst (cmd_doctor env d)) = Some 1 \<and>
    snd (fst (cmd_doctor env (snd (cmd_doctor env d)))) = None \<and>
    snd (cmd_doctor env d) \<noteq> d"
proof -
  have "dd_exists (snd (cmd_doctor env d))"
    using assms(3) by (simp add: cmd_doctor_def Let_def doctor_touch_def)
  then have "snd (cmd_doctor env d) \<noteq> d" using assms(1) by metis
  then show ?thesis
    using assms doctor_healthy [of env "snd (cmd_doctor env d)"]
      \<open>dd_exists (snd (cmd_doctor env d))\<close>
    by (simp add: cmd_doctor_def Let_def doctor_checks_def failed_checks_def)
qed

theorem doctor_heals_itself_witness:
  "\<exists>env d. snd (fst (cmd_doctor env d)) = Some 1 \<and> snd (fst (cmd_doctor env (snd (cmd_doctor env d)))) = None"
  using doctor_heals_itself
    [of "\<lparr>dd_exists = False, dd_config = None, dd_policies = None, dd_journal = []\<rparr>"
        "\<lparr>dc_mkdir = True, dc_open = True, dc_sha = ''abc'', dc_dirty = False, dc_ratio = (\<lambda>_. []),
          dc_toml = (\<lambda>_. None)\<rparr>"]
  by (auto simp: git_ok_def)

text \<open>
  The projection to OTLP keeps every event in order: the spans have the names of the events,
  events of one intent share the trace and, when no two events have the same text and the
  digest does not collide on their first eight bytes, the spans have distinct ids.
\<close>

lemma spans_distinct:
  assumes "inj_on (\<lambda>e. span_id env (ot_event_text env e)) (set evts)" and "distinct evts"
  shows "distinct (map (\<lambda>e. json_index (otlp_span env e) ''spanId'') evts)"
  using assms by (auto simp: distinct_map inj_on_def otlp_span_def json_value_simps bt_get_def)

text \<open>A template of the working directory shadows the installed one, and only one file is written.\<close>

lemma template_shadows:
  assumes "files (''packs/'' @ pack @ ''/templates/'' @ name @ ''.uni'') = Some t"
  shows "pack_template pack name files = Some (files(''uni/intents/'' @ name @ ''.uni'' := Some t))"
  using assms by (simp add: pack_template_def template_paths_def)

end
