(* ===== verification/Session.thy ===== *)
theory Session
  imports Verify_Again Lint Run_Cmd Authorize_Cmd Workspace Speckit
begin

section \<open>Sequences of commands (crates/uni-cli, main.rs)\<close>

text \<open>
  The subcommands of \<open>uni\<close> and what each does to the \<open>.uni\<close> directory, as \<open>main\<close> dispatches
  them, and what holds after any sequence of them: the machine may be in any state when a
  command starts, and the committed configuration and policies may be edited in between. The
  directory has one writer at a time here; the interleaving of two is the subject of \<open>Lock\<close>.
  A command that only prints, or writes outside the modelled files of \<open>.uni\<close> (a brief, a
  bundle, a candidate contract, a template), leaves the directory as it is.
\<close>

subsection \<open>The subcommands\<close>

datatype bundle_cmd = BundleExport "string option" "string option" | BundleVerify "string option"

datatype pack_cmd = PackList | PackTemplate string string

datatype 'w command =
    CmdInit
  | CmdCompile "string option"
  | CmdVerify verify_args
  | CmdExplain "string option" bool
  | CmdInspect "string option"
  | CmdImportSpeckit spec_dir
  | CmdReport
  | CmdEvents bool bool
  | CmdLint "string option"
  | CmdDoctor bool
  | CmdPack pack_cmd
  | CmdBind bind_args
  | CmdBindings
  | CmdRun "'w executor" "string list" nat bool verify_args
  | CmdBrief "string option" "string option"
  | CmdBundle bundle_cmd

text \<open>
  The effect of a command on the directory. The argument of \<open>CmdDoctor\<close> is whether the system
  lets it open the journal; the words of a command line to run are joined with spaces.
\<close>

definition dispatch :: "('w, 'k, 'd) verify_env \<Rightarrow> 'w command \<Rightarrow> uni_dir \<Rightarrow> 'w \<Rightarrow> uni_dir" where
  "dispatch env c uni w =
     (case c of
        CmdInit \<Rightarrow> cmd_init uni
      | CmdVerify args \<Rightarrow> snd (cmd_verify env args uni w)
      | CmdDoctor opened \<Rightarrow> (if opened then uni\<lparr>ud_journal := open_journal (ud_journal uni)\<rparr> else uni)
      | CmdBind args \<Rightarrow> snd (cmd_bind env args uni w)
      | CmdRun exec ws timeout_ms brief args \<Rightarrow>
          snd (cmd_run env exec (join '' '' ws) timeout_ms brief args uni w)
      | _ \<Rightarrow> uni)"

text \<open>Commands one after the other, each with the machine it finds.\<close>

fun session :: "('w, 'k, 'd) verify_env \<Rightarrow> ('w command \<times> 'w) list \<Rightarrow> uni_dir \<Rightarrow> uni_dir" where
  "session env [] uni = uni"
| "session env ((c, w) # h) uni = session env h (dispatch env c uni w)"

text \<open>
  What is asked of a command: a reviewed bindings file decodes to a B-tree map, and the program
  that \<open>uni run\<close> starts does not write into \<open>.uni\<close> itself.
\<close>

definition command_ok :: "'w command \<Rightarrow> bool" where
  "command_ok c \<longleftrightarrow>
     (case c of
        CmdBind args \<Rightarrow> bind_args_ok args
      | CmdRun exec _ _ _ _ \<Rightarrow> \<forall>cmd t body w uni k. fst (snd (snd (exec cmd t body (w, uni, k)))) = uni
      | _ \<Rightarrow> True)"

text \<open>
  The four things a command can do: initialize, verify (a run of an executor included, up to
  the journal), authorize, or move nothing but the journal.
\<close>

lemma run_dispatch:
  assumes "command_ok (CmdRun exec ws t brief args)"
  shows "dispatch env (CmdRun exec ws t brief args) uni w = uni \<or>
    (\<exists>args' w' d. dispatch env (CmdRun exec ws t brief args) uni w =
       snd (cmd_verify env args' (uni\<lparr>ud_journal := d\<rparr>) w'))"
proof (cases "run_brief env brief (va_contract args) uni")
  case (Inl e)
  then show ?thesis by (simp add: dispatch_def cmd_run_def)
next
  case (Inr body)
  obtain p w' uni' k where e: "exec (join '' '' ws) (max t 1) body (w, uni, va_contract args) = (p, w', uni', k)"
    by (metis prod_cases4)
  have "fst (snd (snd (exec (join '' '' ws) (max t 1) body (w, uni, va_contract args)))) = uni"
    using assms by (simp add: command_ok_def)
  then have u: "uni' = uni" unfolding e by simp
  have sn: "snd (case x of (res, v) \<Rightarrow> (map_err RunVerify res, v)) = snd x" for x :: "(cmd_error + verify_report) \<times> uni_dir"
    by (cases x) simp
  have "dispatch env (CmdRun exec ws t brief args) uni w =
      snd (cmd_verify env (args\<lparr>va_contract := k, va_attest := False\<rparr>)
        (record_execution env (join '' '' ws) p w w' uni) w')" if "p \<noteq> SpawnError"
    using that Inr e u by (cases p) (simp_all add: dispatch_def cmd_run_def Let_def sn)
  moreover have "dispatch env (CmdRun exec ws t brief args) uni w = uni" if "p = SpawnError"
    using that Inr e by (simp add: dispatch_def cmd_run_def)
  ultimately show ?thesis unfolding record_execution_def Let_def by blast
qed

lemma dispatch_cases:
  assumes "command_ok c"
  obtains (init) "dispatch env c uni w = cmd_init uni"
    | (verify) args w' d where "dispatch env c uni w = snd (cmd_verify env args (uni\<lparr>ud_journal := d\<rparr>) w')"
    | (bind) args where "c = CmdBind args" "dispatch env c uni w = snd (cmd_bind env args uni w)"
    | (journal) d where "dispatch env c uni w = uni\<lparr>ud_journal := d\<rparr>"
proof -
  have same: thesis if "dispatch env c uni w = uni" using that journal [of "ud_journal uni"] by simp
  show thesis
  proof (cases c)
    case (CmdVerify args)
    then show ?thesis using verify [of args "ud_journal uni" w] by (simp add: dispatch_def)
  next
    case (CmdRun exec ws t brief args)
    then show ?thesis using run_dispatch [of exec ws t brief args env uni w] assms verify same by metis
  next
    case (CmdDoctor opened)
    then show ?thesis using journal same by (cases opened) (simp_all add: dispatch_def)
  qed (use init bind same in \<open>simp_all add: dispatch_def\<close>)
qed

subsection \<open>Only a human authorizes\<close>

text \<open>What an authorization asked for: the claim, its verifier, requirement and selector.\<close>

definition asked :: "bind_args \<Rightarrow> verifier_binding \<Rightarrow> bool" where
  "asked args b \<longleftrightarrow>
     (case ba_from args of
        None \<Rightarrow> ba_claim args = Some (vb_claim_id b) \<and> ba_verifier args = Some (vb_verifier_ref b) \<and>
          ba_requirement args = vb_requirement b \<and> ba_selector args = vb_selector b
      | Some src \<Rightarrow> \<exists>e. (vb_claim_id b, e) \<in> set (read_bindings src) \<and> be_verifier e = vb_verifier_ref b \<and>
          be_requirement e = vb_requirement b \<and> be_selector e = vb_selector b)"

lemma bind_act_asked:
  assumes "bind_act digest now who args s = Inr (bs, s')" and "b \<in> set bs"
  shows "asked args b"
proof (cases "ba_from args")
  case None
  then show ?thesis
    using assms by (auto simp: bind_act_def asked_def authorize_def stamp_def Let_def split: option.splits)
next
  case (Some src)
  then have "authorize_from_file digest now src who s = Inr (bs, s')"
    using assms(1) by (auto simp: bind_act_def Let_def split: option.splits)
  then have "bs = map (stamp_entry digest now who) (read_bindings src)"
    using authorize_from_file_fold by blast
  then show ?thesis using assms(2) Some by (auto simp: asked_def stamp_entry_def stamp_def)
qed

lemma bind_act_ok:
  assumes "bind_act digest now who args s = Inr (bs, s')" and "bindings_ok s"
  shows "bindings_ok s'"
proof (cases "ba_from args")
  case None
  then show ?thesis
    using assms bs.ok_put [OF assms(2)]
    by (auto simp: bind_act_def authorize_def Let_def split: option.splits)
next
  case (Some src)
  then have "authorize_from_file digest now src who s = Inr (bs, s')"
    using assms(1) by (auto simp: bind_act_def Let_def split: option.splits)
  then have "s' = fold write_binding bs s" using authorize_from_file_fold by blast
  then show ?thesis using bs.ok_put_all assms(2) by simp
qed

text \<open>One command: only \<open>bind\<close> moves the bindings, and only as it was asked.\<close>

lemma verify_bindings: "ud_bindings (snd (cmd_verify env args uni w)) = ud_bindings uni"
  by (auto simp: cmd_verify_def save_run_def split: sum.splits prod.splits)

lemma bind_bindings:
  assumes "bind_args_ok args" and "bindings_ok (ud_bindings uni)"
  shows "bindings_ok (ud_bindings (snd (cmd_bind env args uni w)))"
    and "load_binding (ud_bindings (snd (cmd_bind env args uni w))) i = Some b \<Longrightarrow>
      load_binding (ud_bindings uni) i = Some b \<or> asked args b \<and> vb_claim_id b = i"
proof -
  let ?act = "bind_act (os_digest (ve_os env)) (ve_rfc3339 env (os_now (ve_os env) w))
    (ac_id (local_actor (ve_user env) (ve_username env))) args (ud_bindings uni)"
  show "bindings_ok (ud_bindings (snd (cmd_bind env args uni w)))"
    using assms(2) by (cases ?act) (auto simp: cmd_bind_def Let_def dest: bind_act_ok)
  assume l: "load_binding (ud_bindings (snd (cmd_bind env args uni w))) i = Some b"
  show "load_binding (ud_bindings uni) i = Some b \<or> asked args b \<and> vb_claim_id b = i"
  proof (cases ?act)
    case (Inl e)
    then show ?thesis using l by (simp add: cmd_bind_def Let_def)
  next
    case (Inr r)
    obtain bs s' where r: "r = (bs, s')" by (cases r)
    have "ba_from args = Some src \<Longrightarrow> bt_ok (read_bindings src)" for src
      using assms(1) by (simp add: bind_args_ok_def)
    note e = bind_act_Inr [OF Inr [unfolded r] assms(2) this]
    have "load_binding s' i = Some b" using l Inr by (simp add: r cmd_bind_def Let_def)
    then show ?thesis
      using e bind_act_asked [OF Inr [unfolded r]] by (cases "i \<in> vb_claim_id ` set bs") auto
  qed
qed

lemma dispatch_bindings:
  assumes "command_ok c" and "bindings_ok (ud_bindings uni)"
  shows "bindings_ok (ud_bindings (dispatch env c uni w)) \<and>
    (\<forall>i b. load_binding (ud_bindings (dispatch env c uni w)) i = Some b \<longrightarrow>
      load_binding (ud_bindings uni) i = Some b \<or> (\<exists>args. c = CmdBind args \<and> asked args b \<and> vb_claim_id b = i))"
  using assms(1)
proof (cases rule: dispatch_cases [where env = env and uni = uni and w = w])
  case (bind args)
  then have "bind_args_ok args" using assms(1) by (simp add: command_ok_def)
  from bind_bindings [OF this assms(2)] bind show ?thesis by metis
qed (use assms(2) in \<open>simp_all add: verify_bindings cmd_init_def\<close>)

lemma session_bindings:
  assumes "list_all (\<lambda>(c, w). command_ok c) h" and "bindings_ok (ud_bindings uni)"
    and "load_binding (ud_bindings (session env h uni)) i = Some b"
  shows "load_binding (ud_bindings uni) i = Some b \<or>
    (\<exists>args w. (CmdBind args, w) \<in> set h \<and> asked args b \<and> vb_claim_id b = i)"
  using assms
proof (induction h arbitrary: uni)
  case Nil
  then show ?case by simp
next
  case (Cons x h)
  obtain c w where x: "x = (c, w)" by (cases x)
  have ok: "command_ok c" "list_all (\<lambda>(c, w). command_ok c) h" using Cons.prems(1) by (simp_all add: x)
  note d = dispatch_bindings [OF ok(1) Cons.prems(2), of env w]
  have "load_binding (ud_bindings (dispatch env c uni w)) i = Some b \<or>
      (\<exists>args w. (CmdBind args, w) \<in> set h \<and> asked args b \<and> vb_claim_id b = i)"
    using Cons.IH [OF ok(2)] d Cons.prems(3) by (simp add: x)
  then show ?case using d by (auto simp: x)
qed


text \<open>A machine and a registry on which every authorized contract that uses \<open>k\<close> runs.\<close>

lemma demo_passes:
  assumes "ud_config uni = Some ''cfg''" and i: "load_contract (va_contract args) = Inr i"
    and "\<not> va_attest args" and "va_token args = None"
    and k: "\<forall>v\<in>set (ir_verification i). vi_verifier_ref v = ''k''"
    and a: "\<forall>v\<in>set (ir_verification i). authorized (ud_bindings uni) [(''k'', shell_spec ''true'')] v"
  shows "\<exists>rep. completed (fst (cmd_verify demo_env args uni w)) = Some rep"
proof -
  let ?ex = "local_actor (ve_user demo_env) (ve_username demo_env)"
  obtain actor where c: "choose_actor demo_env args uni ?ex w = Inr (actor, False)"
    using assms(4) by (simp add: choose_actor_def)
  let ?rc = "make_ctx demo_env args uni i actor ?ex w"
  let ?sc0 = "\<lparr>sc_stored = [], sc_need = [], sc_stale_ids = [], sc_reasons = [],
                   sc_journal = opening_events demo_env args uni ?rc False\<rparr>"
  let ?ph = "sha256_hex (os_digest (ve_os demo_env)) (ve_policy_json demo_env (resolve_policy demo_env uni w))"
  have reg: "rc_registry ?rc = [(''k'', shell_spec ''true'')]"
    using demo_registry_loaded assms(1) by (simp add: demo_uni_def)
  have "(\<exists>sc. fold_r (scan_one demo_env uni ?rc w) (ir_verification i) ?sc0 = Inr sc) \<longleftrightarrow>
      (\<forall>v\<in>set (ir_verification i). gated (rc_registry ?rc) v \<longrightarrow> authorized (ud_bindings uni) (rc_registry ?rc) v)"
    by (rule fold_r_passes) (rule scan_one_passes)
  then obtain sc where sc: "fold_r (scan_one demo_env uni ?rc w) (ir_verification i) ?sc0 = Inr sc"
    using a unfolding reg by blast
  have ok: "scan_ok demo_env uni ?rc w i sc"
    by (rule fold_r_invariant [OF sc]) (auto simp: scan_ok_def [of _ _ _ _ _ ?sc0] intro: scan_one_ok)
  have t: "\<not> is_selector_template (shell_spec ''true'')" by code_simp
  have rs: "resolved_spec (rc_registry ?rc) ''k'' sel = Inr (Some (shell_spec ''true''))" for sel
    unfolding reg using t by (simp add: resolved_spec_def bt_get_def with_selector_def)
  have "pd_spec p = Some (shell_spec ''true'') \<and> pd_ref p = ''k''" if p: "p \<in> set (sc_need sc)" for p
  proof -
    obtain v where v: "v \<in> set (ir_verification i)" "pending_of demo_env uni ?rc w v p"
      using ok p unfolding scan_ok_def by blast
    obtain res :: resolution where "resolved_spec (rc_registry ?rc) (vi_verifier_ref v) (rs_selector res) = Inr (pd_spec p)"
      and "pd_ref p = vi_verifier_ref v"
      using v(2) unfolding pending_of_def by blast
    then show ?thesis using rs bspec [OF k v(1)] by simp
  qed
  then obtain rn w' where
    "fold_r (run_one demo_env ?rc ?ph) (sc_need sc) (\<lparr>rn_fresh = [], rn_journal = sc_journal sc\<rparr>, w) = Inr (rn, w')"
    using demo_runs_succeed by blast
  then obtain ro where "gather demo_env args uni w = Inr (ro, w')"
    using sc c i assms(3) by (simp add: gather_def Let_def)
  then show ?thesis by (auto simp: cmd_verify_def verdict_def completed_def demo_env_def)
qed

definition demo_history :: "(nat command \<times> nat) list" where
  "demo_history = [(CmdInit, 0), (CmdBind demo_bind, 1), (CmdDoctor True, 2)]"


end
