(* ===== verification/Reachable.thy ===== *)
theory Reachable
  imports Session
begin

section \<open>The directories the program can reach\<close>

text \<open>
  A workspace as a transition system: its commands, and edits of the committed configuration
  and policies. The invariant of every directory it reaches: the bindings are a B-tree map,
  each evidence file is named after the record it holds, a record that says valid exited with
  0, and the acknowledged registry hash is that of the snapshot.
\<close>

inductive uni_step :: "('w, 'k, 'd) verify_env \<Rightarrow> uni_dir \<Rightarrow> uni_dir \<Rightarrow> bool" for env where
  command: "command_ok c \<Longrightarrow> uni_step env uni (dispatch env c uni w)"
| edit: "uni_step env uni (uni\<lparr>ud_config := cfg, ud_policies := pols\<rparr>)"

definition fresh_uni :: "uni_dir \<Rightarrow> bool" where
  "fresh_uni uni \<longleftrightarrow> ud_evidence uni = [] \<and> ud_bindings uni = empty_bindings \<and>
     ud_registry_hash uni = None \<and> ud_snapshot uni = None"

definition file_ok :: "string \<times> evidence \<Rightarrow> bool" where
  "file_ok = (\<lambda>(name, ev). name = evidence_path (ev_claim_id ev) (ev_fingerprint ev) \<and>
     (ev_state ev = Valid \<longrightarrow> ev_exit_code ev = 0))"

definition acknowledged :: "('w, 'k, 'd) verify_env \<Rightarrow> uni_dir \<Rightarrow> bool" where
  "acknowledged env uni \<longleftrightarrow>
     ud_registry_hash uni = map_option (sha256_hex (os_digest (ve_os env))) (ud_snapshot uni)"

definition proofs_ok :: "uni_dir \<Rightarrow> bool" where
  "proofs_ok uni \<longleftrightarrow> bindings_ok (ud_bindings uni) \<and> distinct (map fst (ud_evidence uni)) \<and>
     list_all file_ok (ud_evidence uni)"

definition uni_ok :: "('w, 'k, 'd) verify_env \<Rightarrow> uni_dir \<Rightarrow> bool" where
  "uni_ok env uni \<longleftrightarrow> proofs_ok uni \<and> acknowledged env uni"

lemma fresh_ok: "fresh_uni uni \<Longrightarrow> uni_ok env uni"
  by (simp add: fresh_uni_def uni_ok_def proofs_ok_def acknowledged_def empty_bindings_def bindings_ok_def
      read_bindings_def)

subsection \<open>Saving proofs\<close>

lemma set_update: "x \<in> set (AList.update k v d) \<Longrightarrow> x = (k, v) \<or> x \<in> set d"
  by (induction d) (auto split: if_splits)

lemma save_fresh_ok:
  assumes "\<forall>(ev, fp)\<in>set fresh. file_ok (evidence_path (ev_claim_id ev) fp, ev)"
    and "distinct (map fst d)" and "list_all file_ok d"
  shows "distinct (map fst (save_fresh fresh d)) \<and> list_all file_ok (save_fresh fresh d)"
  using assms
proof (induction fresh arbitrary: d)
  case Nil
  then show ?case by (simp add: save_fresh_def)
next
  case (Cons x fresh)
  obtain ev fp where x: "x = (ev, fp)" by (cases x)
  let ?d = "save_file (evidence_path (ev_claim_id ev) fp) ev d"
  have "distinct (map fst ?d)" using Cons.prems(2) by (simp add: save_file_def distinct_update)
  moreover have "list_all file_ok ?d"
    using Cons.prems(1,3) by (auto simp: x save_file_def list_all_iff dest!: set_update)
  moreover have "save_fresh (x # fresh) d = save_fresh fresh ?d" by (simp add: save_fresh_def x)
  ultimately show ?case using Cons.IH [of ?d] Cons.prems(1) by simp
qed

lemma proved_now_file:
  assumes "proved_now env uni rc w ph v ev"
  shows "ev_state ev = Valid \<longrightarrow> ev_exit_code ev = 0"
proof -
  obtain s binding w1 w2 ev0 where
    r: "run_spec (ve_os env) (vi_claim_id v) (vi_verifier_ref v) s (rc_actor rc) (rc_executor rc) w1 = Inr (ev0, w2)"
    and ev: "ev = seal env rc ph binding ev0"
    using assms unfolding proved_now_def by blast
  show ?thesis using run_spec_sound [OF r] by (auto simp: ev seal_def Let_def split: if_splits)
qed

lemma fresh_files:
  assumes "gather env args uni w = Inr (ro, w')"
  shows "\<forall>(ev, fp)\<in>set (ro_fresh ro). file_ok (evidence_path (ev_claim_id ev) fp, ev)"
  using gather_all(2) [OF assms] proved_now_file by (fastforce simp: file_ok_def)

text \<open>A run keeps the invariant, each half of it by itself.\<close>

lemma verify_proofs_ok:
  assumes "proofs_ok uni"
  shows "proofs_ok (snd (cmd_verify env args uni w))"
proof (cases "gather env args uni w")
  case (Inl e)
  then show ?thesis using assms by (simp add: cmd_verify_def)
next
  case (Inr r)
  obtain ro w' where r: "r = (ro, w')" by (cases r)
  have "proofs_ok (save_drift ro uni)" using assms by (simp add: proofs_ok_def)
  moreover have "proofs_ok (save_run env ro w' uni)"
    using assms save_fresh_ok [OF fresh_files [OF Inr [unfolded r]]] by (simp add: proofs_ok_def save_run_def)
  ultimately show ?thesis by (simp add: cmd_verify_def Inr r)
qed

lemma verify_acknowledged:
  assumes "acknowledged env uni"
  shows "acknowledged env (snd (cmd_verify env args uni w))"
  using assms gather_ctx(4,5) [of env args uni w]
  by (auto simp: cmd_verify_def acknowledged_def save_run_def split: sum.split)

lemma bind_proofs_ok:
  assumes "proofs_ok uni" and "bind_args_ok args"
  shows "proofs_ok (snd (cmd_bind env args uni w))"
  using assms bind_bindings(1) [OF assms(2), of uni env w]
  by (auto simp: proofs_ok_def cmd_bind_def Let_def split: sum.splits)

lemma bind_acknowledged: "acknowledged env (snd (cmd_bind env args uni w)) \<longleftrightarrow> acknowledged env uni"
  by (auto simp: acknowledged_def cmd_bind_def Let_def split: sum.splits)

lemma journal_ok [simp]:
  "proofs_ok (uni\<lparr>ud_journal := d\<rparr>) \<longleftrightarrow> proofs_ok uni"
  "acknowledged env (uni\<lparr>ud_journal := d\<rparr>) \<longleftrightarrow> acknowledged env uni"
  by (simp_all add: proofs_ok_def acknowledged_def)

lemma dispatch_proofs_ok:
  assumes "proofs_ok uni" and "command_ok c"
  shows "proofs_ok (dispatch env c uni w)"
  using assms(2)
proof (cases rule: dispatch_cases [where env = env and uni = uni and w = w])
  case init
  then show ?thesis using assms(1) by (simp add: cmd_init_def proofs_ok_def)
next
  case (verify args w' d)
  then show ?thesis using verify_proofs_ok [of "uni\<lparr>ud_journal := d\<rparr>"] assms(1) by simp
next
  case (bind args)
  then show ?thesis using bind_proofs_ok [OF assms(1)] assms(2) by (simp add: command_ok_def)
next
  case (journal d)
  then show ?thesis using assms(1) by simp
qed

lemma dispatch_acknowledged:
  assumes "acknowledged env uni" and "command_ok c"
  shows "acknowledged env (dispatch env c uni w)"
  using assms(2)
proof (cases rule: dispatch_cases [where env = env and uni = uni and w = w])
  case init
  then show ?thesis using assms(1) by (simp add: cmd_init_def acknowledged_def)
next
  case (verify args w' d)
  then show ?thesis using verify_acknowledged [of env "uni\<lparr>ud_journal := d\<rparr>"] assms(1) by simp
next
  case (bind args)
  then show ?thesis using assms(1) by (simp add: bind_acknowledged)
next
  case (journal d)
  then show ?thesis using assms(1) by simp
qed

lemma uni_ok_step:
  assumes "uni_ok env uni" and "uni_step env uni uni'"
  shows "uni_ok env uni'"
  using assms(2)
proof (cases rule: uni_step.cases)
  case (command c w)
  then show ?thesis
    using assms(1) dispatch_proofs_ok [of uni c env w] dispatch_acknowledged [of env uni c w]
    by (simp add: uni_ok_def)
next
  case (edit cfg pols)
  then show ?thesis using assms(1) by (simp add: uni_ok_def proofs_ok_def acknowledged_def)
qed

interpretation uni: transition_system fresh_uni "uni_step env" "uni_ok env" for env
  by unfold_locales (auto intro: fresh_ok uni_ok_step)

text \<open>What a run on such a directory decides on.\<close>

lemma gather_sound:
  assumes "proofs_ok uni" and "gather env args uni w = Inr (ro, w')"
  shows "sound_evidence (ro_stored ro)"
proof -
  have "ev_state ev = Valid \<longrightarrow> ev_exit_code ev = 0" if "ev \<in> set (sc_stored (ro_scan ro))" for ev
  proof -
    obtain v where "reused env uni (ro_ctx ro) w v ev" using gather_all(1) [OF assms(2)] \<open>ev \<in> _\<close> by blast
    then obtain name ev0 where "load_file (ud_evidence uni) name = Some ev0"
      and ev: "ev = ev0\<lparr>ev_executor := rc_executor (ro_ctx ro)\<rparr>"
      unfolding reused_def by blast
    then have "(name, ev0) \<in> set (ud_evidence uni)" by (simp add: load_file_def map_of_SomeD)
    then show ?thesis using assms(1) by (auto simp: ev proofs_ok_def list_all_iff file_ok_def)
  qed
  moreover have "ev_state (fst x) = Valid \<longrightarrow> ev_exit_code (fst x) = 0" if "x \<in> set (ro_fresh ro)" for x
    using fresh_files [OF assms(2)] that by (auto simp: file_ok_def)
  ultimately show ?thesis using gather_all(4) [OF assms(2)] by (auto simp: sound_evidence_def list_all_iff)
qed

text \<open>
  C8. The state of a workspace is sound at every moment: after any commands and edits, starting
  from a fresh directory, the bindings are a well-formed map, every evidence file is named
  after the claim and fingerprint of its record, the acknowledged registry hash is that of the
  snapshot, and no record anywhere, stored or decided on by the next run, says valid with
  another exit code than 0. So the decision of no run depends on the order of its evidence.
\<close>

theorem reachable_sound:
  assumes "fresh_uni uni" and "(uni_step env)\<^sup>*\<^sup>* uni uni'"
  shows "uni_ok env uni' \<and>
    (\<forall>args w ro w'. gather env args uni' w = Inr (ro, w') \<longrightarrow> sound_evidence (ro_stored ro))"
  using uni.inv_reachable [OF assms] by (auto simp: uni_ok_def intro: gather_sound)

theorem reachable_sound_witness:
  "\<exists>rep uni'. cmd_verify demo_env demo_args demo_uni 0 = (Inr rep, uni') \<and> uni_ok demo_env uni' \<and>
     ud_registry_hash uni' \<noteq> None"
proof -
  obtain rep uni' where v: "cmd_verify demo_env demo_args demo_uni 0 = (Inr rep, uni')" using demo_verify by blast
  have "fresh_uni demo_uni" by (simp add: fresh_uni_def demo_uni_def)
  moreover have "uni_step demo_env demo_uni uni'"
    using uni_step.command [of "CmdVerify demo_args" demo_env demo_uni 0] v
    by (simp add: command_ok_def dispatch_def)
  ultimately have "uni_ok demo_env uni'" using reachable_sound by blast
  moreover have "ud_registry_hash uni' \<noteq> None"
    using cmd_verify_Inr [OF v] by (auto simp: save_run_def)
  ultimately show ?thesis using v by blast
qed

end
