(* ===== verification/Persist.thy ===== *)
theory Persist
  imports Reachable
begin

section \<open>The persist phase, one write at a time (cmd/verify.rs, uni-evidence save_json)\<close>

text \<open>
  What a run saves, as the sequence of the file operations it makes: \<open>save_json\<close> writes a
  temporary sibling and renames it, which is one operation for whoever reads the directory;
  \<open>std::fs::write\<close> truncates the file and then fills it; the journal is renamed, pruned, opened
  and extended. Making them all is \<open>persist\<close>; a process that dies made a prefix of them.
\<close>

subsection \<open>The writes\<close>

datatype disk_write =
    SaveEvidence evidence string
  | RenameJournal string
  | RemoveArchive string
  | AppendJournal string
  | SaveLast last_decision
  | PutHash string
  | PutSnapshot string

fun apply_write :: "disk_write \<Rightarrow> uni_dir \<Rightarrow> uni_dir" where
  "apply_write (SaveEvidence ev fp) u =
     u\<lparr>ud_evidence := save_file (evidence_path (ev_claim_id ev) fp) ev (ud_evidence u)\<rparr>"
| "apply_write (RenameJournal tm) u =
     u\<lparr>ud_journal := rename_file live_name (archive_name tm) (ud_journal u)\<rparr>"
| "apply_write (RemoveArchive n) u = u\<lparr>ud_journal := remove_file n (ud_journal u)\<rparr>"
| "apply_write (AppendJournal t) u = u\<lparr>ud_journal := append_text t (ud_journal u)\<rparr>"
| "apply_write (SaveLast l) u = u\<lparr>ud_last := Some l\<rparr>"
| "apply_write (PutHash t) u = u\<lparr>ud_registry_hash := Some t\<rparr>"
| "apply_write (PutSnapshot t) u = u\<lparr>ud_snapshot := Some t\<rparr>"

text \<open>\<open>std::fs::write\<close>: the contents on the way are the beginnings of the text.\<close>

definition file_writes :: "(string \<Rightarrow> disk_write) \<Rightarrow> string \<Rightarrow> disk_write list" where
  "file_writes put t = map (\<lambda>n. put (take n t)) [0..<Suc (length t)]"

text \<open>\<open>events::append\<close>: rotation of a journal past its cap, then the lines.\<close>

definition rotate_writes :: "nat \<Rightarrow> string \<Rightarrow> journal_dir \<Rightarrow> disk_write list" where
  "rotate_writes max_bytes tm d =
     (case map_of d live_name of
        None \<Rightarrow> []
      | Some t \<Rightarrow>
          if utf8_len t \<le> max_bytes then []
          else let as = archives (rename_file live_name (archive_name tm) d) in
               RenameJournal tm # map RemoveArchive (take (length as - KEEP_ARCHIVES) as))"

definition journal_writes ::
  "(json \<Rightarrow> string) \<Rightarrow> string \<Rightarrow> string \<Rightarrow> event list \<Rightarrow> journal_dir \<Rightarrow> disk_write list" where
  "journal_writes to_string tm ts evs d =
     rotate_writes JOURNAL_MAX_BYTES tm d @
     AppendJournal [] # map (\<lambda>c. AppendJournal [c]) (concat (map (\<lambda>e. event_json to_string e ts @ [nl]) evs))"

definition data_writes ::
  "('w, 'k, 'd) verify_env \<Rightarrow> (evidence \<times> string) list \<Rightarrow> event list \<Rightarrow> last_decision \<Rightarrow>
   'w \<Rightarrow> uni_dir \<Rightarrow> disk_write list" where
  "data_writes env fresh journal newest w uni =
     (let now = os_now (ve_os env) w in
      map (\<lambda>(ev, fp). SaveEvidence ev fp) fresh @
      journal_writes (ve_to_string env) (ve_stamp env now) (ve_rfc3339 env now) journal (ud_journal uni) @
      [SaveLast newest])"

definition ack_writes :: "run_ctx \<Rightarrow> disk_write list" where
  "ack_writes rc = file_writes PutHash (rc_registry_hash rc) @ file_writes PutSnapshot (rc_registry_text rc)"

definition persist_writes ::
  "('w, 'k, 'd) verify_env \<Rightarrow> run_ctx \<Rightarrow> (evidence \<times> string) list \<Rightarrow> event list \<Rightarrow> last_decision \<Rightarrow>
   'w \<Rightarrow> uni_dir \<Rightarrow> disk_write list" where
  "persist_writes env rc fresh journal newest w uni =
     data_writes env fresh journal newest w uni @ ack_writes rc"

subsection \<open>All of them\<close>

abbreviation apply_writes :: "disk_write list \<Rightarrow> uni_dir \<Rightarrow> uni_dir" where
  "apply_writes \<equiv> fold apply_write"

lemma apply_save_evidence:
  "apply_writes (map (\<lambda>(ev, fp). SaveEvidence ev fp) fresh) u =
     u\<lparr>ud_evidence := save_fresh fresh (ud_evidence u)\<rparr>"
  by (induction fresh arbitrary: u) (auto simp: save_fresh_def)

lemma apply_file_writes:
  "apply_writes (file_writes PutHash t) u = u\<lparr>ud_registry_hash := Some t\<rparr>"
  "apply_writes (file_writes PutSnapshot t) u = u\<lparr>ud_snapshot := Some t\<rparr>"
proof -
  have "apply_writes (map (\<lambda>n. PutHash (take n t)) ns) u =
      (if ns = [] then u else u\<lparr>ud_registry_hash := Some (take (last ns) t)\<rparr>)" for ns
    by (induction ns arbitrary: u) auto
  moreover have "apply_writes (map (\<lambda>n. PutSnapshot (take n t)) ns) u =
      (if ns = [] then u else u\<lparr>ud_snapshot := Some (take (last ns) t)\<rparr>)" for ns
    by (induction ns arbitrary: u) auto
  ultimately show "apply_writes (file_writes PutHash t) u = u\<lparr>ud_registry_hash := Some t\<rparr>"
    "apply_writes (file_writes PutSnapshot t) u = u\<lparr>ud_snapshot := Some t\<rparr>"
    by (simp_all add: file_writes_def del: upt_Suc)
qed

lemma append_text_append: "append_text b (append_text a d) = append_text (a @ b) d"
proof -
  have "map_of (map (\<lambda>(n, t). if n = live_name then (n, t @ a) else (n, t)) d) live_name =
      map_option (\<lambda>t. t @ a) (map_of d live_name)"
    by (induction d) auto
  moreover have "map (\<lambda>(n, t). if n = live_name then (n, t @ b) else (n, t)) d = d" if "map_of d live_name = None"
    using that by (induction d) (auto split: if_splits)
  ultimately show ?thesis by (auto simp: append_text_def split: option.splits)
qed

lemma apply_chars:
  "apply_writes (map (\<lambda>c. AppendJournal [c]) cs) (u\<lparr>ud_journal := append_text t d\<rparr>) =
     u\<lparr>ud_journal := append_text (t @ cs) d\<rparr>"
  by (induction cs arbitrary: t) (simp_all add: append_text_append)

lemma apply_removes:
  "apply_writes (map RemoveArchive ns) u = u\<lparr>ud_journal := filter (\<lambda>f. fst f \<notin> set ns) (ud_journal u)\<rparr>"
  by (induction ns arbitrary: u) (auto simp: remove_file_def intro!: arg_cong [of _ _ "\<lambda>d. u\<lparr>ud_journal := d\<rparr>" for u] filter_cong)

lemma apply_rotate:
  "apply_writes (rotate_writes m tm (ud_journal u)) u =
     u\<lparr>ud_journal := rotate_if_needed m tm (ud_journal u)\<rparr>"
  by (simp add: rotate_writes_def rotate_if_needed_def Let_def apply_removes prune_archives_def prune_loop_eq
      split: option.split)

lemma apply_journal:
  "apply_writes (journal_writes ts tm t evs (ud_journal u)) u =
     u\<lparr>ud_journal := append_events ts tm t evs (ud_journal u)\<rparr>"
  by (simp add: journal_writes_def append_events_def apply_rotate apply_chars)

text \<open>Making all the writes is saving the run.\<close>

lemma persist_all:
  "apply_writes (persist_writes env rc fresh journal newest w u) u = persist env rc fresh journal newest w u"
  using apply_journal [of "ve_to_string env" "ve_stamp env (os_now (ve_os env) w)"
      "ve_rfc3339 env (os_now (ve_os env) w)" journal "u\<lparr>ud_evidence := save_fresh fresh (ud_evidence u)\<rparr>"]
  by (simp add: persist_writes_def data_writes_def ack_writes_def persist_def Let_def apply_save_evidence
      apply_file_writes)

subsection \<open>A process that dies\<close>

text \<open>What a run writes under the lock, and the directory when it made the first \<open>n\<close> writes.\<close>

definition run_writes :: "('w, 'k, 'd) verify_env \<Rightarrow> run_outcome \<Rightarrow> 'w \<Rightarrow> uni_dir \<Rightarrow> disk_write list" where
  "run_writes env ro w uni =
     persist_writes env (ro_ctx ro) (ro_fresh ro)
       (ro_journal ro @ [decision_event (ro_ctx ro) (run_decision ro) (ro_stored ro)])
       (last_of (ro_ctx ro) (next_drift uni (ro_scan ro) (run_decision ro)) (run_decision ro) (ro_stored ro))
       w (save_drift ro uni)"

definition crashed :: "('w, 'k, 'd) verify_env \<Rightarrow> run_outcome \<Rightarrow> 'w \<Rightarrow> nat \<Rightarrow> uni_dir \<Rightarrow> uni_dir" where
  "crashed env ro w n uni = apply_writes (take n (run_writes env ro w uni)) (save_drift ro uni)"

lemma run_writes_all: "apply_writes (run_writes env ro w uni) (save_drift ro uni) = save_run env ro w uni"
  by (simp add: run_writes_def save_run_def persist_all)

text \<open>What each part of the directory owes to the writes made so far.\<close>

fun saved_proof :: "disk_write \<Rightarrow> (evidence \<times> string) option" where
  "saved_proof (SaveEvidence ev fp) = Some (ev, fp)"
| "saved_proof _ = None"

fun acknowledges :: "disk_write \<Rightarrow> bool" where
  "acknowledges (PutHash t) \<longleftrightarrow> True"
| "acknowledges (PutSnapshot t) \<longleftrightarrow> True"
| "acknowledges _ \<longleftrightarrow> False"

lemma writes_frame:
  "ud_config (apply_writes ws u) = ud_config u" "ud_bindings (apply_writes ws u) = ud_bindings u"
  "ud_policies (apply_writes ws u) = ud_policies u" "ud_stale (apply_writes ws u) = ud_stale u"
proof -
  have "ud_config (apply_write x u) = ud_config u \<and> ud_bindings (apply_write x u) = ud_bindings u \<and>
      ud_policies (apply_write x u) = ud_policies u \<and> ud_stale (apply_write x u) = ud_stale u" for x u
    by (cases x) simp_all
  then show "ud_config (apply_writes ws u) = ud_config u" "ud_bindings (apply_writes ws u) = ud_bindings u"
    "ud_policies (apply_writes ws u) = ud_policies u" "ud_stale (apply_writes ws u) = ud_stale u"
    by (induction ws arbitrary: u) simp_all
qed

lemma writes_evidence:
  "ud_evidence (apply_writes ws u) = save_fresh (List.map_filter saved_proof ws) (ud_evidence u)"
proof (induction ws arbitrary: u)
  case Nil
  then show ?case by (simp add: save_fresh_def)
next
  case (Cons x ws)
  then show ?case by (cases x) (simp_all add: save_fresh_def)
qed

lemma writes_no_ack:
  assumes "\<forall>x\<in>set ws. \<not> acknowledges x"
  shows "ud_registry_hash (apply_writes ws u) = ud_registry_hash u \<and> ud_snapshot (apply_writes ws u) = ud_snapshot u"
  using assms
proof (induction ws arbitrary: u)
  case (Cons x ws)
  then show ?case by (cases x) simp_all
qed simp

lemma writes_only_ack:
  assumes "\<forall>x\<in>set ws. acknowledges x"
  shows "ud_evidence (apply_writes ws u) = ud_evidence u \<and> ud_journal (apply_writes ws u) = ud_journal u \<and>
    ud_last (apply_writes ws u) = ud_last u"
  using assms
proof (induction ws arbitrary: u)
  case (Cons x ws)
  then show ?case by (cases x) simp_all
qed simp

text \<open>The writes in their order: the proofs, the journal, the decision, the acknowledgement.\<close>

lemma journal_writes_kind:
  "x \<in> set (journal_writes ts tm t evs d) \<Longrightarrow>
     \<not> acknowledges x \<and> saved_proof x = None \<and> (\<forall>l. x \<noteq> SaveLast l)"
  by (auto simp: journal_writes_def rotate_writes_def Let_def split: option.splits if_splits)

lemma ack_writes_kind: "x \<in> set (ack_writes rc) \<Longrightarrow> acknowledges x \<and> saved_proof x = None \<and> (\<forall>l. x \<noteq> SaveLast l)"
  by (auto simp: ack_writes_def file_writes_def)

lemma data_writes_kind: "x \<in> set (data_writes env fresh journal newest w uni) \<Longrightarrow> \<not> acknowledges x"
  by (auto simp: data_writes_def Let_def dest: journal_writes_kind)

lemma map_filter_none:
  "(\<And>x. x \<in> set xs \<Longrightarrow> f x = None) \<Longrightarrow> List.map_filter f xs = []"
  by (induction xs) simp_all

lemma saved_proofs_take:
  assumes "\<And>x. x \<in> set rest \<Longrightarrow> saved_proof x = None"
  shows "List.map_filter saved_proof (take n (map (\<lambda>(ev, fp). SaveEvidence ev fp) fresh @ rest)) = take n fresh"
proof -
  have "List.map_filter saved_proof (map (\<lambda>(ev, fp). SaveEvidence ev fp) l) = l" for l
    by (induction l) auto
  moreover have "List.map_filter saved_proof (take k rest) = []" for k
    using assms by (intro map_filter_none) (auto dest: in_set_takeD)
  ultimately show ?thesis by (simp add: take_map map_filter_append)
qed

lemma persist_writes_proofs:
  "List.map_filter saved_proof (take n (persist_writes env rc fresh journal newest w uni)) = take n fresh"
proof -
  let ?rest = "journal_writes (ve_to_string env) (ve_stamp env (os_now (ve_os env) w))
    (ve_rfc3339 env (os_now (ve_os env) w)) journal (ud_journal uni) @ [SaveLast newest] @ ack_writes rc"
  have "saved_proof x = None" if "x \<in> set ?rest" for x
    using that by (auto dest: journal_writes_kind ack_writes_kind)
  from saved_proofs_take [of ?rest, OF this] show ?thesis
    by (simp add: persist_writes_def data_writes_def Let_def)
qed

subsection \<open>What a death leaves\<close>

lemma crashed_frame [simp]:
  "ud_config (crashed env ro w n uni) = ud_config uni" "ud_bindings (crashed env ro w n uni) = ud_bindings uni"
  "ud_policies (crashed env ro w n uni) = ud_policies uni"
  by (simp_all add: crashed_def writes_frame)

lemma crashed_evidence: "ud_evidence (crashed env ro w n uni) = save_fresh (take n (ro_fresh ro)) (ud_evidence uni)"
  by (simp add: crashed_def writes_evidence run_writes_def persist_writes_proofs)

text \<open>Either nothing was acknowledged, or all but the acknowledgement was saved.\<close>

lemma crashed_ack:
  assumes "run_writes env ro w uni = pre @ acks" and "\<forall>x\<in>set pre. \<not> acknowledges x" and "\<forall>x\<in>set acks. acknowledges x"
  shows "(if n \<le> length pre
    then ud_registry_hash (crashed env ro w n uni) = ud_registry_hash uni \<and>
      ud_snapshot (crashed env ro w n uni) = ud_snapshot uni
    else ud_evidence (crashed env ro w n uni) = ud_evidence (save_run env ro w uni) \<and>
      ud_journal (crashed env ro w n uni) = ud_journal (save_run env ro w uni) \<and>
      ud_last (crashed env ro w n uni) = ud_last (save_run env ro w uni))"
proof (cases "n \<le> length pre")
  case True
  then have "\<forall>x\<in>set (take n pre). \<not> acknowledges x" using assms(2) by (auto dest: in_set_takeD)
  from writes_no_ack [OF this, of "save_drift ro uni"] True show ?thesis by (simp add: crashed_def assms(1))
next
  case False
  let ?u = "apply_writes pre (save_drift ro uni)"
  have t: "crashed env ro w n uni = apply_writes (take (n - length pre) acks) ?u"
    using False by (simp add: crashed_def assms(1))
  have s: "save_run env ro w uni = apply_writes acks ?u" by (simp add: run_writes_all [symmetric] assms(1))
  have "\<forall>x\<in>set (take (n - length pre) acks). acknowledges x" using assms(3) by (auto dest: in_set_takeD)
  from writes_only_ack [OF this, of ?u] writes_only_ack [OF assms(3), of ?u] False show ?thesis
    by (simp add: t s)
qed

lemma run_writes_ack:
  "\<exists>pre. run_writes env ro w uni = pre @ ack_writes (ro_ctx ro) \<and> (\<forall>x\<in>set pre. \<not> acknowledges x)"
  unfolding run_writes_def persist_writes_def by (intro exI conjI, rule refl) (blast dest: data_writes_kind)

lemma crashed_order:
  "(ud_registry_hash (crashed env ro w n uni) = ud_registry_hash uni \<and>
      ud_snapshot (crashed env ro w n uni) = ud_snapshot uni) \<or>
   (ud_evidence (crashed env ro w n uni) = ud_evidence (save_run env ro w uni) \<and>
      ud_journal (crashed env ro w n uni) = ud_journal (save_run env ro w uni) \<and>
      ud_last (crashed env ro w n uni) = ud_last (save_run env ro w uni))"
proof -
  obtain pre where "run_writes env ro w uni = pre @ ack_writes (ro_ctx ro)" "\<forall>x\<in>set pre. \<not> acknowledges x"
    using run_writes_ack [of env ro w uni] by blast
  from crashed_ack [OF this, of n] show ?thesis
    using ack_writes_kind by (cases "n \<le> length pre") simp_all
qed

text \<open>The last decision is the one before the run or the one of the run, never a mixture.\<close>

lemma writes_last:
  "ud_last (apply_writes ws u) = ud_last u \<or> (\<exists>l. SaveLast l \<in> set ws \<and> ud_last (apply_writes ws u) = Some l)"
proof (induction ws arbitrary: u)
  case (Cons x ws)
  show ?case using Cons.IH [of "apply_write x u"] by (cases x) auto
qed simp

lemma run_writes_last: "SaveLast l \<in> set (run_writes env ro w uni) \<Longrightarrow> ud_last (save_run env ro w uni) = Some l"
  by (auto simp: run_writes_def persist_writes_def data_writes_def Let_def save_run_def
      dest: journal_writes_kind ack_writes_kind)

lemma crashed_last:
  "ud_last (crashed env ro w n uni) = ud_last uni \<or> ud_last (crashed env ro w n uni) = ud_last (save_run env ro w uni)"
  using writes_last [of "take n (run_writes env ro w uni)" "save_drift ro uni"]
  by (auto simp: crashed_def run_writes_last dest: in_set_takeD)

text \<open>
  A run that dies leaves nothing half done that a later run relies on: wherever it stops among
  its writes, the registry, the bindings and the policies are as they were, each evidence file
  is as it was or is a whole new proof (the ones made first), the last decision is the one from
  before the run or the one of the run, and the registry is acknowledged
  only once the proofs, the journal and the decision of the run are all saved.
\<close>

theorem crash_leaves:
  "ud_config (crashed env ro w n uni) = ud_config uni \<and> ud_bindings (crashed env ro w n uni) = ud_bindings uni \<and>
   ud_policies (crashed env ro w n uni) = ud_policies uni \<and>
   ud_evidence (crashed env ro w n uni) = save_fresh (take n (ro_fresh ro)) (ud_evidence uni) \<and>
   (ud_last (crashed env ro w n uni) = ud_last uni \<or>
    ud_last (crashed env ro w n uni) = ud_last (save_run env ro w uni)) \<and>
   ((ud_registry_hash (crashed env ro w n uni) = ud_registry_hash uni \<and>
       ud_snapshot (crashed env ro w n uni) = ud_snapshot uni) \<or>
    (ud_evidence (crashed env ro w n uni) = ud_evidence (save_run env ro w uni) \<and>
       ud_journal (crashed env ro w n uni) = ud_journal (save_run env ro w uni) \<and>
       ud_last (crashed env ro w n uni) = ud_last (save_run env ro w uni)))"
  using crashed_order [of env ro w n uni] crashed_last [of env ro w n uni] by (simp add: crashed_evidence)

text \<open>
  The hash file is truncated before it is filled, so a run that dies there leaves it empty, and
  an empty hash raises no flag: the change of the registry the run saw is not reported by any
  later run, although it was never acknowledged.
\<close>

theorem crash_disarms:
  "\<exists>n < length (run_writes env ro w uni). ud_snapshot (crashed env ro w n uni) = ud_snapshot uni \<and>
     (\<forall>rc. \<not> boundary_changed (crashed env ro w n uni) rc)"
proof -
  obtain pre where s: "run_writes env ro w uni = pre @ ack_writes (ro_ctx ro)" and pre: "\<forall>x\<in>set pre. \<not> acknowledges x"
    using run_writes_ack [of env ro w uni] by blast
  obtain rest where r: "ack_writes (ro_ctx ro) = PutHash [] # rest" and "rest \<noteq> []"
    by (simp add: ack_writes_def file_writes_def upt_conv_Cons del: upt_Suc)
  let ?n = "Suc (length pre)"
  have "crashed env ro w ?n uni = (apply_writes pre (save_drift ro uni))\<lparr>ud_registry_hash := Some []\<rparr>"
    by (simp add: crashed_def s r)
  then have "ud_snapshot (crashed env ro w ?n uni) = ud_snapshot uni"
    and "ud_registry_hash (crashed env ro w ?n uni) = Some []"
    using writes_no_ack [OF pre, of "save_drift ro uni"] by simp_all
  moreover have "?n < length (run_writes env ro w uni)" using \<open>rest \<noteq> []\<close> by (simp add: s r)
  ultimately show ?thesis by (auto simp: boundary_changed_def previous_hash_def text_or_empty_def)
qed

subsection \<open>Workspaces in which runs may die\<close>

inductive crash_step :: "('w, 'k, 'd) verify_env \<Rightarrow> uni_dir \<Rightarrow> uni_dir \<Rightarrow> bool" for env where
  lives: "uni_step env uni uni' \<Longrightarrow> crash_step env uni uni'"
| dies: "gather env args uni w = Inr (ro, w') \<Longrightarrow> ve_lock env w' \<Longrightarrow>
    crash_step env uni (crashed env ro w' n uni)"

lemma crashed_proofs_ok:
  assumes "proofs_ok uni" and "gather env args uni w = Inr (ro, w')"
  shows "proofs_ok (crashed env ro w' n uni)"
proof -
  have "\<forall>(ev, fp)\<in>set (take n (ro_fresh ro)). file_ok (evidence_path (ev_claim_id ev) fp, ev)"
    using fresh_files [OF assms(2)] by (auto dest: in_set_takeD)
  from save_fresh_ok [OF this] show ?thesis using assms(1) by (simp add: proofs_ok_def crashed_evidence)
qed

lemma crash_step_proofs_ok:
  assumes "proofs_ok uni" and "crash_step env uni uni'"
  shows "proofs_ok uni'"
  using assms(2)
proof (cases rule: crash_step.cases)
  case lives
  then show ?thesis
  proof (cases rule: uni_step.cases)
    case (command c w)
    then show ?thesis using dispatch_proofs_ok [OF assms(1), of c env w] by simp
  next
    case (edit cfg pols)
    then show ?thesis using assms(1) by (simp add: proofs_ok_def)
  qed
next
  case (dies args w ro w' n)
  then show ?thesis using crashed_proofs_ok [OF assms(1)] by simp
qed

interpretation crashing: transition_system fresh_uni "crash_step env" proofs_ok for env
  by unfold_locales
    (auto intro: crash_step_proofs_ok dest: fresh_ok simp: uni_ok_def)



end
