(* ===== verification/Persist_Order.thy ===== *)
theory Persist_Order
  imports Persist Lock
begin

section \<open>Runs that persist at the same time (cmd/verify.rs, DirLock)\<close>

text \<open>
  Several runs and one directory: the persist phase of each is taken between the creation and
  the removal of the lock file, one write at a time, while the others try to take the lock and,
  outside of it, save their drift records. What every process does to the lock is \<open>lock_step\<close>.
  The writes a run makes are fixed when it holds the lock, by the journal it finds then. Runs
  are numbered, the processes of \<open>Lock\<close>; a number may come back.
\<close>

record 'w prepared_run =
  pr_ctx :: run_ctx
  pr_fresh :: "(evidence \<times> string) list"
  pr_journal :: "event list"
  pr_last :: last_decision
  pr_world :: 'w

definition run_plan :: "('w, 'k, 'd) verify_env \<Rightarrow> 'w prepared_run \<Rightarrow> uni_dir \<Rightarrow> disk_write list" where
  "run_plan env r u = persist_writes env (pr_ctx r) (pr_fresh r) (pr_journal r) (pr_last r) (pr_world r) u"

definition run_persist :: "('w, 'k, 'd) verify_env \<Rightarrow> 'w prepared_run \<Rightarrow> uni_dir \<Rightarrow> uni_dir" where
  "run_persist env r u = persist env (pr_ctx r) (pr_fresh r) (pr_journal r) (pr_last r) (pr_world r) u"

record shared =
  sh_lock :: lstate
  sh_todo :: "nat \<Rightarrow> disk_write list"
  sh_dir :: uni_dir
  sh_order :: "nat list"

abbreviation holds :: "shared \<Rightarrow> nat \<Rightarrow> bool" where
  "holds s p \<equiv> lk_pc (sh_lock s) p = Holding"

text \<open>
  \<open>contend\<close> is every move on the lock that neither takes nor drops it; \<open>enter\<close> takes it and
  fixes the writes; \<open>leave\<close> drops it, when they are all made; \<open>drift\<close> is the save of
  \<open>stale.json\<close>, for which no lock is taken. \<open>sh_order\<close> records who took the lock, in order.
\<close>

inductive persist_step ::
  "('w, 'k, 'd) verify_env \<Rightarrow> (nat \<Rightarrow> 'w prepared_run) \<Rightarrow> shared \<Rightarrow> shared \<Rightarrow> bool" for env runs where
  contend: "lock_step False False (sh_lock s) l \<Longrightarrow> (\<And>p. lk_pc l p = Holding \<longleftrightarrow> holds s p) \<Longrightarrow>
    persist_step env runs s (s\<lparr>sh_lock := l\<rparr>)"
| enter: "lock_step False False (sh_lock s) l \<Longrightarrow> \<not> holds s p \<Longrightarrow> lk_pc l p = Holding \<Longrightarrow>
    persist_step env runs s (s\<lparr>sh_lock := l, sh_todo := (sh_todo s)(p := run_plan env (runs p) (sh_dir s)),
      sh_order := sh_order s @ [p]\<rparr>)"
| save: "holds s p \<Longrightarrow> sh_todo s p = x # xs \<Longrightarrow>
    persist_step env runs s (s\<lparr>sh_dir := apply_write x (sh_dir s), sh_todo := (sh_todo s)(p := xs)\<rparr>)"
| leave: "lock_step False False (sh_lock s) l \<Longrightarrow> holds s p \<Longrightarrow> sh_todo s p = [] \<Longrightarrow> lk_pc l p \<noteq> Holding \<Longrightarrow>
    persist_step env runs s (s\<lparr>sh_lock := l\<rparr>)"
| drift: "persist_step env runs s (s\<lparr>sh_dir := (sh_dir s)\<lparr>ud_stale := d\<rparr>\<rparr>)"

definition shared_start :: "uni_dir \<Rightarrow> shared \<Rightarrow> bool" where
  "shared_start u s \<longleftrightarrow> lock_start (sh_lock s) \<and> sh_dir s = u \<and> sh_order s = []"

subsection \<open>One move of the lock concerns one process\<close>

lemma lock_step_one:
  assumes "lock_step slow crash s t"
  shows "\<exists>p. \<forall>q. q \<noteq> p \<longrightarrow> lk_pc t q = lk_pc s q"
  using assms by (cases rule: lock_step.cases) auto

lemma lock_step_only:
  assumes "lock_step slow crash s t" and "lk_pc t p \<noteq> lk_pc s p" and "q \<noteq> p"
  shows "lk_pc t q = lk_pc s q"
  using lock_step_one [OF assms(1)] assms(2,3) by metis

subsection \<open>The drift record is apart\<close>

definition but_drift :: "uni_dir \<Rightarrow> uni_dir" where
  "but_drift u = u\<lparr>ud_stale := None\<rparr>"

lemma apply_write_drift: "apply_write x (u\<lparr>ud_stale := d\<rparr>) = (apply_write x u)\<lparr>ud_stale := d\<rparr>"
  by (cases x) simp_all

lemma apply_writes_drift: "apply_writes ws (u\<lparr>ud_stale := d\<rparr>) = (apply_writes ws u)\<lparr>ud_stale := d\<rparr>"
  by (induction ws arbitrary: u) (simp_all add: apply_write_drift)

lemma but_drift_upd [simp]: "but_drift (u\<lparr>ud_stale := d\<rparr>) = but_drift u"
  by (simp add: but_drift_def)

lemma but_drift_idem [simp]: "but_drift (but_drift u) = but_drift u"
  by (simp add: but_drift_def)

lemma but_drift_writes: "but_drift (apply_writes ws u) = apply_writes ws (but_drift u)"
  by (simp add: but_drift_def apply_writes_drift)

lemma run_plan_drift [simp]: "run_plan env r (but_drift u) = run_plan env r u"
  by (simp add: run_plan_def persist_writes_def data_writes_def but_drift_def)

lemma run_persist_plan: "run_persist env r u = apply_writes (run_plan env r u) u"
  by (simp add: run_persist_def run_plan_def persist_all)

lemma but_drift_persist: "but_drift (run_persist env r u) = run_persist env r (but_drift u)"
  by (simp add: run_persist_plan but_drift_writes)

subsection \<open>The invariant\<close>

text \<open>The directory after the runs of a list, one after the other.\<close>

definition in_turn :: "('w, 'k, 'd) verify_env \<Rightarrow> (nat \<Rightarrow> 'w prepared_run) \<Rightarrow> nat list \<Rightarrow> uni_dir \<Rightarrow> uni_dir" where
  "in_turn env runs order u = fold (\<lambda>p. run_persist env (runs p)) order u"

definition serial_inv :: "('w, 'k, 'd) verify_env \<Rightarrow> (nat \<Rightarrow> 'w prepared_run) \<Rightarrow> uni_dir \<Rightarrow> shared \<Rightarrow> bool" where
  "serial_inv env runs u s \<longleftrightarrow> lock_inv (sh_lock s) \<and>
     (\<forall>p. holds s p \<longrightarrow>
        apply_writes (sh_todo s p) (but_drift (sh_dir s)) = in_turn env runs (sh_order s) (but_drift u)) \<and>
     ((\<forall>p. \<not> holds s p) \<longrightarrow> but_drift (sh_dir s) = in_turn env runs (sh_order s) (but_drift u))"

lemma serial_start: "shared_start u s \<Longrightarrow> serial_inv env runs u s"
  by (auto simp: shared_start_def serial_inv_def in_turn_def lock_inv_start lock_start_def)

lemma serial_move:
  assumes inv: "serial_inv env runs u s" and move: "persist_step env runs s t"
  shows "serial_inv env runs u t"
  using move
proof (cases rule: persist_step.cases)
  case (contend l)
  then show ?thesis using inv lock_inv_move by (auto simp: serial_inv_def)
next
  case (enter l p)
  have l: "lock_inv l" using inv enter(2) lock_inv_move by (auto simp: serial_inv_def)
  have none: "\<not> holds s q" for q
  proof
    assume h: "holds s q"
    then have "q \<noteq> p" using enter(3) by auto
    then have "lk_pc l q = Holding" using lock_step_only [OF enter(2), of p q] enter(3,4) h by simp
    then show False using l enter(4) \<open>q \<noteq> p\<close> by (auto simp: lock_inv_def exclusive_def)
  qed
  then have "but_drift (sh_dir s) = in_turn env runs (sh_order s) (but_drift u)"
    using inv by (simp add: serial_inv_def)
  then have "in_turn env runs (sh_order s @ [p]) (but_drift u) = run_persist env (runs p) (but_drift (sh_dir s))"
    by (simp add: in_turn_def)
  also have "\<dots> = apply_writes (run_plan env (runs p) (sh_dir s)) (but_drift (sh_dir s))"
    by (simp add: run_persist_plan)
  finally have "apply_writes (run_plan env (runs p) (sh_dir s)) (but_drift (sh_dir s)) =
      in_turn env runs (sh_order s @ [p]) (but_drift u)" ..
  moreover have "q = p" if "lk_pc l q = Holding" for q
    using l enter(4) that by (auto simp: lock_inv_def exclusive_def)
  moreover have "sh_lock t = l" "sh_todo t p = run_plan env (runs p) (sh_dir s)" "sh_dir t = sh_dir s"
    "sh_order t = sh_order s @ [p]"
    using enter(1) by simp_all
  ultimately show ?thesis using l enter(4) unfolding serial_inv_def by metis
next
  case (save p x xs)
  have one: "q = p" if "holds s q" for q
    using inv save(2) that by (auto simp: serial_inv_def lock_inv_def exclusive_def)
  have "apply_writes xs (but_drift (sh_dir t)) = apply_writes (sh_todo s p) (but_drift (sh_dir s))"
    using save(1,3) but_drift_writes [of "[x]" "sh_dir s"] by simp
  moreover have "sh_lock t = sh_lock s" "sh_todo t p = xs" "sh_order t = sh_order s"
    using save(1) by simp_all
  ultimately show ?thesis using inv save(2) one unfolding serial_inv_def by metis
next
  case (leave l p)
  have l: "lock_inv l" using inv leave(2) lock_inv_move by (auto simp: serial_inv_def)
  have "\<not> lk_pc l q = Holding" for q
  proof (cases "q = p")
    case False
    have "lk_pc l q = lk_pc (sh_lock s) q"
      using lock_step_only [OF leave(2) _ False] leave(3,5) by simp
    then show ?thesis
      using inv leave(3) False by (auto simp: serial_inv_def lock_inv_def exclusive_def)
  qed (use leave in simp)
  then show ?thesis using inv l leave by (auto simp: serial_inv_def)
next
  case (drift d)
  then show ?thesis using inv by (simp add: serial_inv_def)
qed

interpretation serial: transition_system "shared_start u" "persist_step env runs" "serial_inv env runs u"
  for env runs u
  by unfold_locales (auto intro: serial_start serial_move)


text \<open>A run that has just taken the lock.\<close>

definition demo_prepared :: "nat prepared_run" where
  "demo_prepared =
     (let rc = make_ctx demo_env demo_args demo_uni demo_ir (declared ''ci'') (declared ''dev'') 0 in
      \<lparr>pr_ctx = rc, pr_fresh = [], pr_journal = [],
       pr_last = last_of rc [] (evaluate_intent demo_ir []) [], pr_world = 0\<rparr>)"

definition demo_shared :: shared where
  "demo_shared = \<lparr>sh_lock = idle 5, sh_todo = (\<lambda>_. []), sh_dir = demo_uni, sh_order = []\<rparr>"


subsection \<open>What is lost without the lock\<close>

text \<open>
  \<open>stale.json\<close> is loaded and saved outside the lock. When two runs load it before either saves
  it, the record of the one that saves first is gone, although each of them keeps the other's
  when they run one after the other.
\<close>

definition drift_of :: "scan \<Rightarrow> decision_result \<Rightarrow> uni_dir \<Rightarrow> uni_dir" where
  "drift_of sc r u = u\<lparr>ud_stale := Some (next_drift u sc r)\<rparr>"

definition stale_scan :: "string \<Rightarrow> scan" where
  "stale_scan c = \<lparr>sc_stored = [], sc_need = [], sc_stale_ids = [c], sc_reasons = [(c, [Expired ''t''])],
     sc_journal = []\<rparr>"

definition no_claims :: decision_result where
  "no_claims = \<lparr>dr_decision = EvidenceRequired, dr_claims = [], dr_reason = Unverified 0\<rparr>"

theorem drift_lost:
  "bt_get (the (ud_stale (drift_of (stale_scan ''b'') no_claims (drift_of (stale_scan ''a'') no_claims demo_uni)))) ''a''
     = Some [Expired ''t''] \<and>
   bt_get (the (ud_stale ((drift_of (stale_scan ''a'') no_claims demo_uni)
      \<lparr>ud_stale := ud_stale (drift_of (stale_scan ''b'') no_claims demo_uni)\<rparr>))) ''a'' = None"
  by (simp add: drift_of_def next_drift_def stale_scan_def no_claims_def valid_ids_def demo_uni_def bt_get_def)

end
