(* ===== verification/Report_Facts.thy ===== *)
theory Report_Facts
  imports Report
begin

section \<open>What a report says of the run\<close>

text \<open>
  The stored decision read back by the reporting commands: its state and counts, one group of
  annotations per claim that is not proven, and which files they name.
\<close>

declare json_value_simps [simp]

lemma state_name_inject: "state_name a = state_name b \<longleftrightarrow> a = b"
  by (cases a; cases b) (simp_all add: state_name_def)

lemma claim_value_simps [simp]:
  "is_valid_claim (claim_result_value c) \<longleftrightarrow> cr_state c = Valid"
  "json_index (claim_result_value c) ''claim_id'' = JString (cr_claim_id c)"
  "json_index (claim_result_value c) ''state'' = JString (state_name (cr_state c))"
  "json_index (claim_result_value c) ''critical'' = JBool (cr_critical c)"
  using state_name_inject [of "cr_state c" Valid]
  by (simp_all add: is_valid_claim_def claim_result_value_def bt_get_def state_name_def)

lemma decision_value_simps [simp]:
  "json_index (decision_value rt ld) ''claims'' = JArray (map claim_result_value (dr_claims (ld_result ld)))"
  "json_index (decision_value rt ld) ''decision'' = JString (decision_name (dr_decision (ld_result ld)))"
  "json_index (decision_value rt ld) ''stale'' = JObject (map stale_value (ld_stale ld))"
  by (simp_all add: decision_value_def bt_get_def)

lemma filter_valid_values:
  "filter is_valid_claim (map claim_result_value cs) = map claim_result_value (filter (\<lambda>c. cr_state c = Valid) cs)"
  "filter (\<lambda>c. \<not> is_valid_claim c) (map claim_result_value cs) =
     map claim_result_value (filter (\<lambda>c. cr_state c \<noteq> Valid) cs)"
  by (induction cs) simp_all

lemma decision_name_Accepted: "decision_name d = ''Accepted'' \<longleftrightarrow> d = Accepted"
  by (cases d) (simp_all add: decision_name_def)

lemma report_simps:
  "json_index (report_of v) ''decision'' = json_index v ''decision''"
  "json_index (json_index (report_of v) ''summary'') ''claims_total'' = JInt (int (length (items_of (json_index v ''claims''))))"
  "json_index (json_index (report_of v) ''summary'') ''claims_verified'' =
     JInt (int (length (filter is_valid_claim (items_of (json_index v ''claims'')))))"
  by (simp_all add: report_of_def Let_def bt_get_def)

subsection \<open>Annotations\<close>

lemma fold_push_new: "set (fold push_new xs fs) = set fs \<union> set xs"
  by (induction xs arbitrary: fs) (auto simp: push_new_def)

lemma annotation_title:
  "contains (annotation level wh claim r) (''title=claim '' @ claim @ ''::'')"
  unfolding annotation_def contains_iff
  by (rule exI [of _ "''::'' @ level @ '' '' @ wh"]) (simp only: append_assoc, blast)

definition titled :: "string \<Rightarrow> string list \<Rightarrow> bool" where
  "titled claim ls \<longleftrightarrow> ls \<noteq> [] \<and> list_all (\<lambda>l. contains l (''title=claim '' @ claim @ ''::'')) ls"

definition bare_annotation :: "string \<Rightarrow> string \<Rightarrow> string" where
  "bare_annotation level claim =
     ''::'' @ level @ '' title=claim '' @ claim @ ''::no valid evidence for this revision; run '' @
     [CHR 0x60] @ ''uni verify '' @ claim @ [CHR 0x60]"

lemma bare_title: "contains (bare_annotation level claim) (''title=claim '' @ claim @ ''::'')"
  unfolding bare_annotation_def contains_iff by (rule exI [of _ "''::'' @ level @ '' ''"]) simp

lemma claim_annotations_titled: "titled (json_str_or ''claim'' (json_index c ''claim_id'')) (claim_annotations v c)"
proof -
  define lv where "lv = (if bool_or_false (json_index c ''critical'') then ''error'' else ''warning'')"
  define cl where "cl = json_str_or ''claim'' (json_index c ''claim_id'')"
  define rs where "rs = items_of (json_index (json_index v ''stale'') cl)"
  define fs where "fs = fold push_new (concat (map reason_files rs)) []"
  have "claim_annotations v c =
      (if rs = [] then [bare_annotation lv cl]
       else if fs = [] then [annotation lv [] cl (hd rs)]
       else map (\<lambda>f. annotation lv (''file='' @ f @ '','') cl
              (case List.find (\<lambda>r. f \<in> set (reason_files r)) rs of Some r \<Rightarrow> r | None \<Rightarrow> JNull)) fs)"
    unfolding claim_annotations_def Let_def lv_def cl_def rs_def fs_def bare_annotation_def ..
  then show ?thesis
    unfolding cl_def [symmetric] titled_def list_all_iff
    by (cases "rs = []"; cases "fs = []") (auto simp del: append.simps append_Cons simp: bare_title annotation_title)
qed

text \<open>
  The annotations of a stored decision are those of its claims in order: every claim that is
  not proven has at least one, each titled with its claim, and a proven claim has none.
\<close>

theorem annotations_cover:
  "\<exists>ls. github_annotations (decision_value rt ld) = concat ls \<and>
     list_all2 (\<lambda>c l. titled (cr_claim_id c) l) (filter (\<lambda>c. cr_state c \<noteq> Valid) (dr_claims (ld_result ld))) ls"
proof -
  let ?bad = "filter (\<lambda>c. cr_state c \<noteq> Valid) (dr_claims (ld_result ld))"
  let ?ls = "map (\<lambda>c. claim_annotations (decision_value rt ld) (claim_result_value c)) ?bad"
  have "github_annotations (decision_value rt ld) = concat ?ls"
    by (simp add: github_annotations_def filter_valid_values comp_def)
  moreover have "titled (cr_claim_id c) (claim_annotations (decision_value rt ld) (claim_result_value c))" for c
    using claim_annotations_titled [of "claim_result_value c"] by (simp add: json_str_or_def)
  then have "list_all2 (\<lambda>c l. titled (cr_claim_id c) l) ?bad ?ls"
    by (simp add: list_all2_conv_all_nth)
  ultimately show ?thesis by blast
qed

subsection \<open>The files of a drift\<close>

text \<open>A file name the detail of a reason can carry: no separator of the list in it.\<close>

definition plain_name :: "string \<Rightarrow> bool" where
  "plain_name n \<longleftrightarrow> n \<noteq> [] \<and> trimmed n \<and> set n \<inter> set '',):'' = {}"

lemma split_single:
  assumes "a \<notin> set s"
  shows "split_str [a] (s @ a # r) = s # split_str [a] r" and "split_str [a] s = [s]"
proof -
  have "split_once [a] (s @ a # r) = Some (s, r)"
    using assms by (induction s) auto
  then show "split_str [a] (s @ a # r) = s # split_str [a] r" by (subst split_str.simps) simp
  have "split_once [a] s = None"
    using assms by (induction s) auto
  then show "split_str [a] s = [s]" by (subst split_str.simps) simp
qed

lemma split_commas:
  assumes "list_all plain_name (f # fs)"
  shows "split_str '','' (join '', '' (f # fs)) = f # map ((#) CHR '' '') fs"
proof -
  have "split_str '','' (pre @ join '', '' (f # fs)) = (pre @ f) # map ((#) CHR '' '') fs"
    if "CHR '','' \<notin> set pre" "list_all plain_name (f # fs)" for pre f fs
    using that
  proof (induction fs arbitrary: f pre)
    case Nil
    then show ?case using split_single(2) [of "CHR '',''" "pre @ f"] by (auto simp: plain_name_def)
  next
    case (Cons g gs)
    have f: "CHR '','' \<notin> set (pre @ f)" using Cons.prems by (auto simp: plain_name_def)
    have "pre @ join '', '' (f # g # gs) = (pre @ f) @ CHR '','' # ('' '' @ join '', '' (g # gs))" by simp
    then show ?case
      using split_single(1) [OF f] Cons.IH [of "'' ''" g] Cons.prems(2) by simp
  qed
  from this [of "[]" f fs] assms show ?thesis by simp
qed

lemma trim_space: "trimmed n \<Longrightarrow> trim (CHR '' '' # n) = n"
  using trim_ws_start [of "'' ''" n] trim_trimmed [of n] by (simp add: is_ws_def)

lemma parts_of_list:
  assumes "list_all plain_name fs"
  shows "filter (\<lambda>p. p \<noteq> []) (map trim (split_str '','' (join '', '' fs))) = fs"
proof (cases fs)
  case Nil
  then show ?thesis using split_single(2) [of "CHR '',''" "[]"] by simp
next
  case (Cons g gs)
  have "map trim (split_str '','' (join '', '' fs)) = fs"
    using assms split_commas [of g gs]
    by (auto simp: Cons plain_name_def trim_trimmed trim_space list_all_iff intro!: map_idI)
  moreover have "filter (\<lambda>p. p \<noteq> []) fs = fs" using assms by (auto simp: list_all_iff plain_name_def intro!: filter_True)
  ultimately show ?thesis by simp
qed

lemma unique_split: "x \<notin> set a \<Longrightarrow> x \<notin> set c \<Longrightarrow> a @ x # b = c @ x # d \<Longrightarrow> a = c \<and> b = d"
proof (induction a arbitrary: c)
  case Nil
  then show ?case by (cases c) auto
next
  case (Cons y ys)
  then show ?case by (cases c) auto
qed

lemma marker_ends:
  assumes "CHR '':'' \<notin> set a" and "CHR '':'' \<notin> set b" and "CHR '':'' \<notin> set m"
    and "contains (a @ CHR '':'' # b) (m @ CHR '':'' # n)"
  shows "\<exists>u. a = u @ m"
proof -
  obtain u v where e: "a @ CHR '':'' # b = u @ m @ CHR '':'' # n @ v" using assms(4) by (auto simp: contains_iff)
  have "CHR '':'' \<notin> set u"
  proof
    assume "CHR '':'' \<in> set u"
    then obtain u1 u2 where u: "u = u1 @ CHR '':'' # u2" "CHR '':'' \<notin> set u1" using split_list_first by metis
    have "b = u2 @ m @ CHR '':'' # n @ v" using unique_split [OF assms(1) u(2), of b] e by (simp add: u(1))
    then show False using assms(2) by simp
  qed
  then have "CHR '':'' \<notin> set (u @ m)" using assms(3) by simp
  from unique_split [OF assms(1) this, of b "n @ v"] e show ?thesis by simp
qed

text \<open>The detail of a drift in which only one kind of change occurred.\<close>

definition moved :: "string \<Rightarrow> string list \<Rightarrow> string" where
  "moved m fs = ''watched subject moved ('' @ m @ '': '' @ join '', '' fs @ '')''"

lemma set_join: "set (join sep xs) \<subseteq> set sep \<union> \<Union> (set ` set xs)"
  by (induction sep xs rule: join.induct) auto

lemma no_colon: "list_all plain_name fs \<Longrightarrow> CHR '':'' \<notin> set (join '', '' fs)"
  and no_paren: "list_all plain_name fs \<Longrightarrow> CHR '')'' \<notin> set (join '', '' fs)"
  using set_join [of "'', ''" fs] by (auto simp: list_all_iff plain_name_def)

lemma other_marker:
  assumes "list_all plain_name fs" and "CHR '':'' \<notin> set m" and "CHR '':'' \<notin> set m'"
    and "\<nexists>u. ''watched subject moved ('' @ m = u @ m'"
  shows "detail_part (moved m fs) (m' @ '': '') = []"
proof -
  have "\<not> contains (moved m fs) (m' @ '': '')"
  proof
    assume c: "contains (moved m fs) (m' @ '': '')"
    have "moved m fs = (''watched subject moved ('' @ m) @ CHR '':'' # ('' '' @ join '', '' fs @ '')'')"
      by (simp add: moved_def)
    moreover have "CHR '':'' \<notin> set (''watched subject moved ('' @ m)" using assms(2) by simp
    moreover have "CHR '':'' \<notin> set ('' '' @ join '', '' fs @ '')'')" using no_colon [OF assms(1)] by simp
    ultimately have "\<exists>u. ''watched subject moved ('' @ m = u @ m'"
      using marker_ends [of _ _ m' "'' ''"] assms(3) c by (metis append_Cons append_Nil)
    then show False using assms(4) by blast
  qed
  then show ?thesis by (auto simp: detail_part_def contains_def split: option.splits)
qed

lemma no_suffix: "\<not> starts_with (rev m) (rev s) \<Longrightarrow> \<nexists>u. s = u @ m"
  by (auto simp: starts_with_iff)

lemma own_marker:
  assumes "list_all plain_name fs" and "split_once (m @ '': '') (moved m fs) = Some (pre, join '', '' fs @ '')'')"
  shows "detail_part (moved m fs) (m @ '': '') = fs"
  using split_single(1) [OF no_paren [OF assms(1)], of "[]"] parts_of_list [OF assms(1)]
  by (simp add: detail_part_def assms(2))

lemma describe_one:
  "describe (SubjectChanged fs [] []) = (if fs = [] then ''watched subject moved ()'' else moved ''changed'' fs)"
  "describe (SubjectChanged [] fs []) = (if fs = [] then ''watched subject moved ()'' else moved ''added'' fs)"
  "describe (SubjectChanged [] [] fs) = (if fs = [] then ''watched subject moved ()'' else moved ''removed'' fs)"
  by (simp_all add: describe_def listed_part_def moved_def)

lemma moved_files:
  assumes "list_all plain_name fs"
  shows "files_from_detail (moved ''changed'' fs) = fs" "files_from_detail (moved ''added'' fs) = fs"
    "files_from_detail (moved ''removed'' fs) = fs"
proof -
  have o: "detail_part (moved ''changed'' fs) ''changed: '' = fs" "detail_part (moved ''added'' fs) ''added: '' = fs"
    "detail_part (moved ''removed'' fs) ''removed: '' = fs"
    using own_marker [OF assms, of "''changed''" "''watched subject moved (''"]
      own_marker [OF assms, of "''added''" "''watched subject moved (''"]
      own_marker [OF assms, of "''removed''" "''watched subject moved (''"]
    by (simp_all add: moved_def)
  have n: "\<nexists>u. ''watched subject moved (changed'' = u @ ''added''" "\<nexists>u. ''watched subject moved (changed'' = u @ ''removed''"
    "\<nexists>u. ''watched subject moved (added'' = u @ ''changed''" "\<nexists>u. ''watched subject moved (added'' = u @ ''removed''"
    "\<nexists>u. ''watched subject moved (removed'' = u @ ''changed''" "\<nexists>u. ''watched subject moved (removed'' = u @ ''added''"
    by (rule no_suffix, code_simp)+
  have x: "detail_part (moved ''changed'' fs) ''added: '' = []" "detail_part (moved ''changed'' fs) ''removed: '' = []"
    "detail_part (moved ''added'' fs) ''changed: '' = []" "detail_part (moved ''added'' fs) ''removed: '' = []"
    "detail_part (moved ''removed'' fs) ''changed: '' = []" "detail_part (moved ''removed'' fs) ''added: '' = []"
    using other_marker [OF assms, of "''changed''" "''added''"] other_marker [OF assms, of "''changed''" "''removed''"]
      other_marker [OF assms, of "''added''" "''changed''"] other_marker [OF assms, of "''added''" "''removed''"]
      other_marker [OF assms, of "''removed''" "''changed''"] other_marker [OF assms, of "''removed''" "''added''"] n
    by (simp_all del: append_eq_Cons_conv)
  show "files_from_detail (moved ''changed'' fs) = fs" "files_from_detail (moved ''added'' fs) = fs"
    "files_from_detail (moved ''removed'' fs) = fs"
    by (simp_all add: files_from_detail_def o x)
qed

text \<open>
  The annotations name the files that moved: when the drift of the watched subject is of one
  kind only, the paths taken from its printed detail are exactly the changed, added or removed
  files, in order. The names must not contain the separators of the printed list.
\<close>

theorem annotation_files_exact:
  assumes "list_all plain_name fs" and "fs \<noteq> []"
  shows "files_from_detail (describe (SubjectChanged fs [] [])) = fs \<and>
    files_from_detail (describe (SubjectChanged [] fs [])) = fs \<and>
    files_from_detail (describe (SubjectChanged [] [] fs)) = fs"
  using moved_files [OF assms(1)] assms(2) by (simp add: describe_one)

theorem annotation_files_exact_witness:
  "files_from_detail (describe (SubjectChanged [] [''src/a.rs'', ''b''] [])) = [''src/a.rs'', ''b'']"
proof -
  have "list_all plain_name [''src/a.rs'', ''b'']" by code_simp
  then show ?thesis using annotation_files_exact by blast
qed

text \<open>
  With two kinds of change in one drift, the first list runs into the second: the annotation
  names a file that does not exist.
\<close>

theorem annotation_files_mixed:
  "files_from_detail (describe (SubjectChanged [''a''] [''b''] [])) = [''a; added: b'', ''b'']"
  by code_simp

end
