(* ===== verification/Console.thy ===== *)
theory Console
  imports Report_Facts Workspace Authorize_Cmd Run_Cmd Lint Bundle_Facts
begin

section \<open>What the commands print (crates/uni-cli, cmd)\<close>

text \<open>
  The lines each command writes to standard output, and its JSON document where it has one.
  A line is a list of code points, because some marks and dashes are beyond those of \<open>char\<close>.
  \<open>println!\<close> of a text with line breaks gives as many lines. Printers of serde_json and the texts
  of errors are parameters.
\<close>

type_synonym uline = "nat list"

definition plain :: "string \<Rightarrow> uline" where
  "plain s = map of_char s"

lemma plain_inject [simp]: "plain s = plain t \<longleftrightarrow> s = t"
  by (simp add: plain_def inj_map_eq_map inj_def)

lemma plain_append: "plain (s @ t) = plain s @ plain t"
  by (simp add: plain_def)

abbreviation EM_DASH :: uline where
  "EM_DASH \<equiv> [8212]"

abbreviation RIGHT_ARROW :: uline where
  "RIGHT_ARROW \<equiv> [8594]"

subsection \<open>Explain and report\<close>

definition claim_mark :: "json \<Rightarrow> nat" where
  "claim_mark c =
     (case json_str (json_index c ''state'') of
        Some s \<Rightarrow> if s = ''Valid'' then 10003 else if s = ''Stale'' then 9203 else 10007
      | None \<Rightarrow> 10007)"

definition explain_claim :: "json \<Rightarrow> uline" where
  "explain_claim c =
     plain ''  '' @ [claim_mark c] @
     plain ('' '' @ pad 24 (json_str_or ''?'' (json_index c ''claim_id'')) @ '' '' @
            json_str_or ''?'' (json_index c ''state''))"

definition explain_summary :: "json \<Rightarrow> string" where
  "explain_summary v =
     (case json_array (json_index v ''claims'') of
        None \<Rightarrow> []
      | Some a \<Rightarrow> show_nat (length (filter is_valid_claim a)) @ ''/'' @ show_nat (length a) @ '' verified'')"

definition explain_assurance :: "json \<Rightarrow> string" where
  "explain_assurance v =
     (case json_str (json_index v ''assurance'') of
        Some s \<Rightarrow> s
      | None \<Rightarrow> ''A'' @ show_nat (assurance_of_json (json_str (json_index v ''decision''))))"

definition explain_head :: "json \<Rightarrow> uline list" where
  "explain_head v =
     map plain [''Decision'', json_str_or ''?'' (json_index v ''decision''), [], ''Required claims''] @
     map explain_claim (items_of (json_index v ''claims'')) @
     map plain
       [[], ''Summary'', ''  Claims     '' @ explain_summary v,
        ''  Assurance  '' @ explain_assurance v @ '' (independent actor: '' @
          yes_no (bool_or_false (json_index v ''independent_actor'')) @ '', identity: '' @
          json_str_or ''SELF-DECLARED'' (json_index v ''identity_assurance'') @ '')'',
        [], json_str_or [] (json_index v ''reason'')]"

definition explain_search :: "string \<Rightarrow> string option \<Rightarrow> uline list" where
  "explain_search text arg =
     (case arg of
        None \<Rightarrow> []
      | Some f \<Rightarrow>
          let needle = to_lower f in
          if needle \<noteq> [] \<and> \<not> contains (to_lower text) needle
          then map plain [[], ''No match for '' @ [CHR 0x27] @ f @ [CHR 0x27] @ '' in last decision.''] else [])"

definition cmd_explain ::
  "(string \<Rightarrow> json option) \<Rightarrow> (int \<Rightarrow> string) \<Rightarrow> evidence_dir \<Rightarrow> string option \<Rightarrow> string option \<Rightarrow>
   bool \<Rightarrow> bool \<Rightarrow> report_error + uline list" where
  "cmd_explain from_str rfc3339 d file arg as_json annotations =
     bind_r (ok_or file NoDecision) (\<lambda>text.
     bind_r (ok_or (from_str text) BadDecision) (\<lambda>v. Inr
       (if annotations then map plain (github_annotations v)
        else if as_json then [plain text]
        else explain_head v @
          concat (map (\<lambda>story. map plain ([] # story)) (explain_stories rfc3339 d v)) @
          explain_search text arg)))"

definition cmd_report ::
  "(json \<Rightarrow> string) \<Rightarrow> (string \<Rightarrow> json option) \<Rightarrow> string option \<Rightarrow> bool \<Rightarrow> report_error + string list" where
  "cmd_report pretty from_str file as_json =
     bind_r (stable_report from_str file) (\<lambda>r. Inr (if as_json then [pretty r] else report_lines r))"

subsection \<open>Verify\<close>

definition state_mark :: "evidence_state \<Rightarrow> string" where
  "state_mark st = (case st of Valid \<Rightarrow> ''PASS'' | Invalid \<Rightarrow> ''FAIL'' | Stale \<Rightarrow> ''STALE'')"

text \<open>What changed about the registry, printed before anything runs.\<close>

definition boundary_lines :: "uni_dir \<Rightarrow> run_ctx \<Rightarrow> registry_diff \<Rightarrow> string list" where
  "boundary_lines uni rc d =
     (if boundary_changed uni rc
      then [''REGISTRY_CHANGED'', ''Previous: sha256:'' @ take 12 (previous_hash uni),
            ''Current:  sha256:'' @ take 12 (rc_registry_hash rc), ''Existing evidence: STALE'',
            ''Authorization: REQUIRED ('' @ show_nat (length (rd_added d)) @ '' added, '' @
              show_nat (length (rd_removed d)) @ '' removed, '' @ show_nat (length (rd_changed d)) @ '' changed)''] @
           map (\<lambda>n. ''  - '' @ n) (take 10 (rd_added d @ rd_removed d @ rd_changed d))
      else [])"

definition first_reason :: "stale_reason list btree \<Rightarrow> string \<Rightarrow> string" where
  "first_reason reasons claim =
     (case bt_get reasons claim of Some (r # _) \<Rightarrow> describe r | _ \<Rightarrow> [])"

definition verify_line :: "stale_reason list btree \<Rightarrow> claim_result \<Rightarrow> string" where
  "verify_line reasons c =
     (let why = first_reason reasons (cr_claim_id c) in
      pad 24 (cr_claim_id c) @ '' '' @ state_mark (cr_state c) @ ''  '' @ (if why = [] then cr_detail c else why))"

definition closing_lines ::
  "(reason \<Rightarrow> string) \<Rightarrow> ir \<Rightarrow> stale_reason list btree \<Rightarrow> actor option \<Rightarrow> decision_result \<Rightarrow> uline list" where
  "closing_lines reason_text i reasons verified r =
     [[], plain ''UNI Verification '' @ EM_DASH @ plain ('' '' @ in_id (ir_intent i))] @
     map (\<lambda>c. plain (verify_line reasons c)) (dr_claims r) @
     map plain ([[], ''Decision: '' @ decision_name (dr_decision r), ''Reason: '' @ reason_text (dr_reason r)] @
       (case verified of Some a \<Rightarrow> [''Identity: '' @ ac_id a @ '' (verified)''] | None \<Rightarrow> []))"

definition hints :: "decision_result \<Rightarrow> string list" where
  "hints r = map (\<lambda>c. ''uni verify '' @ cr_claim_id c) (filter (\<lambda>c. cr_state c \<noteq> Valid) (dr_claims r))"

definition hint_lines :: "decision_result \<Rightarrow> string list" where
  "hint_lines r =
     (if dr_decision r \<noteq> Accepted \<and> dr_decision r \<noteq> Rejected
      then [[], ''Run:''] @ (if hints r = [] then [''  ''] else map (\<lambda>h. ''  '' @ h) (hints r)) else [])"

definition verify_json :: "(reason \<Rightarrow> string) \<Rightarrow> (evidence \<Rightarrow> json) \<Rightarrow> ir \<Rightarrow> verify_report \<Rightarrow> json" where
  "verify_json reason_text evidence_value i rep = JObject
     [(''claims'', JArray (map claim_result_value (dr_claims (vr_result rep)))),
      (''decision'', JString (decision_name (dr_decision (vr_result rep)))),
      (''evidence'', JArray (map evidence_value (vr_evidence rep))),
      (''intent'', JString (in_id (ir_intent i))),
      (''reason'', JString (reason_text (dr_reason (vr_result rep)))),
      (''trust_boundary_changed'', JBool (vr_boundary_changed rep))]"

subsection \<open>Run, bind and the bindings\<close>

definition run_lines :: "nat \<Rightarrow> proc_run \<Rightarrow> nat \<Rightarrow> string list" where
  "run_lines timeout_ms p elapsed =
     [executor_output timeout_ms p] @
     (if ends_with [nl] (executor_output timeout_ms p) then [] else [[]]) @
     [''[uni] executor exit '' @ show_int (executor_code p) @ '' in '' @ show_nat elapsed @
      ''ms; verifying the outcome'']"

definition quoted :: "string \<Rightarrow> string" where
  "quoted s = [CHR 0x27] @ s @ [CHR 0x27]"

definition authorized_lines :: "verifier_binding list \<Rightarrow> string list" where
  "authorized_lines bs =
     concat (map (\<lambda>b.
       [''authorized: claim '' @ quoted (vb_claim_id b) @ '' -> verifier '' @ quoted (vb_verifier_ref b)] @
       (if vb_requirement b = [] then [] else [''  requirement: '' @ vb_requirement b]) @
       (case vb_selector b of Some sel \<Rightarrow> [''  selector:    '' @ sel] | None \<Rightarrow> []) @
       [''  binding:     '' @ vb_binding_hash b]) bs)"

text \<open>One authorization is printed as an object, several as an array.\<close>

definition authorized_json :: "verifier_binding list \<Rightarrow> json" where
  "authorized_json bs = (case bs of [b] \<Rightarrow> binding_value b | _ \<Rightarrow> JArray (map binding_value bs))"

definition binding_line :: "verifier_binding \<Rightarrow> string" where
  "binding_line b =
     pad 24 (vb_claim_id b) @ '' -> '' @ pad 24 (vb_verifier_ref b) @ '' selector '' @
     pad 20 (case vb_selector b of Some sel \<Rightarrow> sel | None \<Rightarrow> ''-'') @ '' ['' @ vb_binding_hash b @ ''] by '' @
     vb_authorized_by b @ '' at '' @ vb_authorized_at b"

definition bindings_lines :: "(json \<Rightarrow> string) \<Rightarrow> bool \<Rightarrow> uni_dir \<Rightarrow> string list" where
  "bindings_lines pretty as_json uni =
     (let bs = cmd_bindings uni in
      if as_json then [pretty (JArray (map binding_value bs))]
      else if bs = [] then [''no authorized bindings (.uni/bindings/ is empty)'']
      else map binding_line bs)"

subsection \<open>Lint\<close>

definition kind_name :: "lint_kind \<Rightarrow> string" where
  "kind_name k =
     (case k of MissingVerify \<Rightarrow> ''missing-verify'' | UnknownRef \<Rightarrow> ''unknown-verifier''
      | DuplicateVerify \<Rightarrow> ''duplicate-verify'' | SelectorTemplate \<Rightarrow> ''selector-template''
      | PinnedTestSelector \<Rightarrow> ''pinned-test-selector'' | UnboundRequirement \<Rightarrow> ''unbound-requirement'')"

definition finding_message :: "finding \<Rightarrow> uline" where
  "finding_message f =
     (let c = lf_claim_id f; v = lf_verifier_ref f in
      case lf_kind f of
        MissingVerify \<Rightarrow> plain (''claim '' @ quoted c @ '' has no VERIFY'')
      | UnknownRef \<Rightarrow>
          plain (''VERIFY '' @ c @ '' uses '' @ quoted v @ '' not found in .uni/config.toml (may fail at verify time)'')
      | DuplicateVerify \<Rightarrow>
          plain (''VERIFY '' @ quoted c @ '' '') @ RIGHT_ARROW @ plain ('' '' @ quoted v @ '' declared twice'')
      | SelectorTemplate \<Rightarrow>
          plain (''claim '' @ quoted c @ '' uses selector template '' @ quoted v @
            '' without an authorized selector binding (run: uni bind --claim '' @ c @ '' --verifier '' @ v @
            '' --selector <test-name>)'')
      | PinnedTestSelector \<Rightarrow>
          plain (''claim '' @ quoted c @ '' pins a test name in verifier '' @ quoted v @
            ''; prefer a {{selector}} template with '' @ quoted ''uni bind --selector <test-name>'' @
            '' and hand the worker '' @ quoted ''uni brief'' @ '' (ADR-002)'')
      | UnboundRequirement \<Rightarrow>
          plain (''claim '' @ quoted c @ '' has a REQUIRE but no matching authorized binding (run: uni bind --claim '' @
            c @ '' --verifier '' @ v @ '' --requirement '' @ quoted ''...'' @ '')''))"

definition finding_line :: "finding \<Rightarrow> uline" where
  "finding_line f =
     plain (''  '' @ (if lf_severity f = 2 then ''ERROR'' else ''WARN '') @ '' '' @ pad 18 (kind_name (lf_kind f)) @ '' '') @
     finding_message f"

definition lint_lines :: "ir \<Rightarrow> finding list \<Rightarrow> uline list" where
  "lint_lines i fs =
     [plain ''uni lint '' @ EM_DASH @ plain ('' '' @ in_id (ir_intent i))] @ map finding_line fs @
     map plain ((if fs = [] then [''  clean: coverage complete, registry refs ok''] else []) @
       [[], ''errors='' @ show_nat (lint_errors fs) @ '' warnings='' @ show_nat (lint_warnings fs)])"

subsection \<open>Packs\<close>

definition template_line :: "toml \<Rightarrow> string" where
  "template_line t =
     ''  '' @ pad 24 (toml_str_or ''?'' (toml_get t ''name'')) @ '' '' @ toml_str_or [] (toml_get t ''description'')"

definition pack_lines :: "string \<times> toml \<Rightarrow> string list" where
  "pack_lines = (\<lambda>(dir, doc).
     let p = toml_get doc ''pack''; field = (\<lambda>k. Option.bind p (\<lambda>x. toml_get x k)) in
     [toml_str_or dir (field ''name'') @ '' '' @ toml_str_or ''?'' (field ''version'') @ '' - '' @
      toml_str_or [] (field ''description'')] @
     (case Option.bind (toml_get doc ''template'') as_array of Some ts \<Rightarrow> map template_line ts | None \<Rightarrow> []))"

definition pack_list_lines :: "pack_root \<Rightarrow> pack_root \<Rightarrow> string list" where
  "pack_list_lines local installed =
     (let packs = discover_packs local installed in
      if packs = [] then [''no packs found (looked in ./packs and .uni/packs)''] else concat (map pack_lines packs))"

definition template_written :: "(json \<Rightarrow> string) \<Rightarrow> bool \<Rightarrow> string \<Rightarrow> string \<Rightarrow> string list" where
  "template_written to_string as_json pack name =
     (let dst = ''uni/intents/'' @ name @ ''.uni'' in
      if as_json
      then [to_string (JObject [(''pack'', JString pack), (''template'', JString name), (''written'', JString dst)])]
      else [''wrote '' @ dst, ''edit claims + verifier refs, then: uni lint '' @ dst])"

subsection \<open>Work orders and bundles\<close>

text \<open>The files a command writes, by path: a written file is whole or not there.\<close>

definition write_atomic :: "string \<Rightarrow> string \<Rightarrow> (string \<Rightarrow> string option) \<Rightarrow> string \<Rightarrow> string option" where
  "write_atomic path body files = files(path \<mapsto> body)"

definition cmd_brief ::
  "(string \<Rightarrow> toml option) \<Rightarrow> (string \<Rightarrow> nat list) \<Rightarrow> (json \<Rightarrow> string) \<Rightarrow> string option \<Rightarrow> string option \<Rightarrow>
   bool \<Rightarrow> string option \<Rightarrow> (string \<Rightarrow> string option) \<Rightarrow>
   cmd_error + string list \<times> (string \<Rightarrow> string option)" where
  "cmd_brief parse_toml digest pretty file config as_json out files =
     bind_r (render_brief parse_toml digest pretty file config as_json) (\<lambda>body. Inr
       (case out of
          Some path \<Rightarrow> ([], write_atomic path (body @ [nl]) files)
        | None \<Rightarrow> ([body], files)))"

definition integrity_text :: "integrity_error \<Rightarrow> string" where
  "integrity_text e =
     (case e of
        HeaderHash \<Rightarrow> ''header sha256 mismatch''
      | RecordHash kind \<Rightarrow> ''record '' @ kind @ '': sha256 mismatch''
      | ContractText \<Rightarrow> ''contract text does not match header contract_hash''
      | RegistryText \<Rightarrow> ''registry snapshot does not match header registry_hash''
      | RecordCount n m \<Rightarrow>
          ''header declares '' @ show_nat n @ '' records, file has '' @ show_nat m)"

definition cross_text :: "cross_error \<Rightarrow> string" where
  "cross_text e =
     (case e of
        OtherRegistry c \<Rightarrow> ''evidence '' @ quoted c @ '' was gathered under a different registry''
      | OtherContract c \<Rightarrow> ''evidence '' @ quoted c @ '' was gathered under a different contract''
      | NoBundledBinding c req \<Rightarrow> ''claim '' @ quoted c @ '' requires '' @ quoted req @ '' but no binding is bundled''
      | NoBundledEvidence c \<Rightarrow> ''decision cites claim '' @ quoted c @ '' with no bundled evidence''
      | UnknownClaim c \<Rightarrow> ''bundled evidence for unknown claim '' @ quoted c)"

definition default_bundle_name :: "string \<Rightarrow> string" where
  "default_bundle_name dot_uni =
     ''uni-bundle-'' @ map (\<lambda>c. if c \<in> set ''/.'' then CHR ''-'' else c) dot_uni @ ''.jsonl''"

definition export_json :: "string \<Rightarrow> bundle_header \<Rightarrow> json" where
  "export_json out h = JObject
     [(''bundle'', JString out), (''contract_hash'', JString (bh_contract_hash h)),
      (''intent'', JString (bh_intent h)), (''records'', JInt (int (bh_records h))),
      (''registry_hash'', JString (bh_registry_hash h)), (''version'', JString (bh_version h))]"

definition export_lines :: "string \<Rightarrow> bundle_header \<Rightarrow> string list" where
  "export_lines out h =
     [''bundle written: '' @ out, ''intent:  '' @ bh_intent h, ''records: '' @ show_nat (bh_records h),
      ''tool:    '' @ bh_tool h]"

definition bundle_json :: "string \<Rightarrow> bundle_header \<Rightarrow> bundle_report \<Rightarrow> json" where
  "bundle_json file h r = JObject
     [(''bundle'', JString file), (''claims_covered'', JInt (int (br_covered r))),
      (''claims_total'', JInt (int (br_total r))),
      (''cross_check_errors'', JArray (map (\<lambda>e. JString (cross_text e)) (br_cross r))),
      (''integrity_errors'', JArray (map (\<lambda>e. JString (integrity_text e)) (br_integrity r))),
      (''intent'', JString (bh_intent h)), (''ok'', JBool (bundle_ok r)), (''records'', JInt (int (br_records r)))]"

definition bundle_lines :: "string \<Rightarrow> bundle_header \<Rightarrow> bundle_report \<Rightarrow> string list" where
  "bundle_lines file h r =
     [''bundle: '' @ file, ''intent: '' @ bh_intent h @ ''  records: '' @ show_nat (br_records r),
      ''claims covered by evidence: '' @ show_nat (br_covered r) @ ''/'' @ show_nat (br_total r)] @
     map (\<lambda>e. ''  INTEGRITY '' @ integrity_text e) (br_integrity r) @
     map (\<lambda>e. ''  CROSS-CHECK '' @ cross_text e) (br_cross r) @
     [[], ''OK: '' @ show_bool (bundle_ok r)]"

text \<open>\<open>uni bundle export\<close> writes the bundle and prints its header.\<close>

definition cmd_bundle_export ::
  "bundle_codec \<Rightarrow> string \<Rightarrow> string \<Rightarrow> string \<Rightarrow> bundle_src \<Rightarrow> string option \<Rightarrow> bool \<Rightarrow> (string \<Rightarrow> string option) \<Rightarrow>
   cmd_error + string list \<times> (string \<Rightarrow> string option)" where
  "cmd_bundle_export c now tool dot_uni s out as_json files =
     (let path = (case out of Some p \<Rightarrow> p | None \<Rightarrow> default_bundle_name dot_uni) in
      bind_r (bundle_export c now tool s) (\<lambda>(h, body). Inr
        (if as_json then [bc_to_string c (export_json path h)] else export_lines path h,
         write_atomic path body files)))"

datatype bundle_cmd_error = BundleFailed bundle_error | Inconsistent

definition cmd_bundle_verify ::
  "bundle_codec \<Rightarrow> string \<Rightarrow> string option \<Rightarrow> bool \<Rightarrow> string list \<times> (bundle_cmd_error option)" where
  "cmd_bundle_verify c file text as_json =
     (case bundle_verify c text of
        Inl e \<Rightarrow> ([], Some (BundleFailed e))
      | Inr (h, r) \<Rightarrow>
          (if as_json then [bc_to_string c (bundle_json file h r)] else bundle_lines file h r,
           if bundle_ok r then None else Some Inconsistent))"

subsection \<open>Health check and events\<close>

definition check_value :: "check \<Rightarrow> json" where
  "check_value k = JObject
     [(''check'', JString (ck_name k)), (''detail'', JString (ck_detail k)), (''ok'', JBool (ck_ok k))]"

definition doctor_json :: "check list \<Rightarrow> json" where
  "doctor_json cs = JObject
     [(''checks'', JArray (map check_value cs)), (''healthy'', JBool (failed_checks cs = 0))]"

definition doctor_lines :: "check list \<Rightarrow> string list" where
  "doctor_lines cs =
     [''uni doctor''] @
     map (\<lambda>k. ''  '' @ (if ck_ok k then ''OK  '' else ''FAIL'') @ '' '' @ pad 22 (ck_name k) @ '' '' @ ck_detail k) cs @
     [[], ''healthy: '' @ show_bool (failed_checks cs = 0)]"

definition cmd_events ::
  "otlp_env \<Rightarrow> (json \<Rightarrow> string) \<Rightarrow> (string \<Rightarrow> json option) \<Rightarrow> journal_dir \<Rightarrow> bool \<Rightarrow> nat \<Rightarrow> bool \<Rightarrow> bool \<Rightarrow>
   string list" where
  "cmd_events env pretty from_str d as_json most every otlp =
     (let evts = (if every then read_all_including_archives from_str d else read_all from_str d) in
      if otlp then [pretty (to_otlp env evts)]
      else if as_json then map (ot_event_text env) evts
      else event_lines (ot_to_string env) most evts)"

end
