(* ===== verification/Console_Facts.thy ===== *)
theory Console_Facts
  imports Console
begin

section \<open>What is printed is what was decided\<close>

text \<open>
  The displays of one decision agree with each other and with the run: \<open>uni report\<close>,
  \<open>uni explain\<close> and the closing lines of \<open>uni verify\<close>.
\<close>

definition mark_code :: "evidence_state \<Rightarrow> nat" where
  "mark_code st = (case st of Valid \<Rightarrow> 10003 | Invalid \<Rightarrow> 10007 | Stale \<Rightarrow> 9203)"

definition shown_claim :: "claim_result \<Rightarrow> uline" where
  "shown_claim c =
     plain ''  '' @ [mark_code (cr_state c)] @
     plain ('' '' @ pad 24 (cr_claim_id c) @ '' '' @ state_name (cr_state c))"

lemma explain_claim_value: "explain_claim (claim_result_value c) = shown_claim c"
  by (cases "cr_state c")
    (simp_all add: explain_claim_def shown_claim_def claim_mark_def mark_code_def state_name_def json_str_or_def)

lemma explain_summary_value:
  "explain_summary (decision_value rt ld) =
     show_nat (length (valid_ids (ld_result ld))) @ ''/'' @ show_nat (length (dr_claims (ld_result ld))) @ '' verified''"
  by (simp add: explain_summary_def filter_valid_values valid_ids_def)

lemma explain_head_value:
  "explain_head (decision_value rt ld) ! 1 = plain (decision_name (dr_decision (ld_result ld)))"
  "take (length (dr_claims (ld_result ld))) (drop 4 (explain_head (decision_value rt ld))) =
     map shown_claim (dr_claims (ld_result ld))"
  by (simp_all add: explain_head_def json_str_or_def explain_claim_value comp_def)

lemma explain_assurance_value: "explain_assurance (decision_value rt ld) = ld_assurance ld"
  by (simp add: explain_assurance_def decision_value_def bt_get_def)

text \<open>
  C28. The displays of a decision agree with the run: after a run that completed, \<open>uni report\<close>
  says \<open>Accepted\<close> if and only if the run succeeded, counts one claim per claim of the result and
  calls verified exactly those found valid; \<open>uni explain\<close> opens with the same decision and the
  same counts, shows every claim of the result in order with the mark of its state and the
  assurance of the records decided on; and it tells a story for each claim that is not valid
  and no other.
\<close>

theorem displays_agree:
  assumes "cmd_verify env args uni w = (res, uni')" and "completed res = Some rep"
  shows "\<exists>ld. ud_last uni' = Some ld \<and>
    (let v = decision_value rt ld; r = report_of v; cs = dr_claims (vr_result rep) in
      (json_index r ''decision'' = JString ''Accepted'' \<longleftrightarrow> is_ok res) \<and>
      json_index (json_index r ''summary'') ''claims_total'' = JInt (int (length cs)) \<and>
      json_index (json_index r ''summary'') ''claims_verified'' = JInt (int (length (valid_ids (vr_result rep)))) \<and>
      explain_head v ! 1 = plain (decision_name (dr_decision (vr_result rep))) \<and>
      take (length cs) (drop 4 (explain_head v)) = map shown_claim cs \<and>
      explain_summary v = show_nat (length (valid_ids (vr_result rep))) @ ''/'' @ show_nat (length cs) @ '' verified'' \<and>
      explain_assurance v = assurance_for (vr_evidence rep) \<and>
      map hd (explain_stories rfc (ud_evidence uni') v) =
        map (\<lambda>c. ''CLAIM '' @ cr_claim_id c) (filter (\<lambda>c. cr_state c \<noteq> Valid) cs))"
proof -
  obtain ro w' where g: "gather env args uni w = Inr (ro, w')" and rep: "rep = run_report uni ro"
    and uni': "uni' = save_run env ro w' uni"
    using verify_completed_run [OF assms] by blast
  obtain ld where ld: "ud_last uni' = Some ld" "ld_result ld = vr_result rep"
    "ld_assurance ld = assurance_for (vr_evidence rep)"
    by (simp add: uni' save_run_def last_of_def rep run_report_def)
  have ok: "is_ok res \<longleftrightarrow> dr_decision (vr_result rep) = Accepted"
    using assms by (auto simp: cmd_verify_def g rep run_report_def verdict_def completed_def split: if_splits)
  let ?v = "decision_value rt ld"
  have "map hd (explain_stories rfc (ud_evidence uni') ?v) =
      map (\<lambda>c. ''CLAIM '' @ cr_claim_id c) (filter (\<lambda>c. cr_state c \<noteq> Valid) (dr_claims (ld_result ld)))"
    by (simp add: explain_stories_def filter_valid_values claim_story_def Let_def json_str_or_def)
  then show ?thesis
    using explain_head_value [where rt = rt and ld = ld] explain_summary_value [of rt ld]
      explain_assurance_value [of rt ld]
    by (intro exI [of _ ld])
      (simp add: Let_def ld ok report_simps decision_name_Accepted filter_valid_values valid_ids_def)
qed

theorem displays_agree_witness:
  "\<exists>rep uni' ld. cmd_verify demo_env demo_args demo_uni 0 = (Inr rep, uni') \<and> ud_last uni' = Some ld \<and>
     json_index (report_of (decision_value (\<lambda>_. []) ld)) ''decision'' = JString ''Accepted'' \<and>
     explain_head (decision_value (\<lambda>_. []) ld) ! 1 = plain ''Accepted''"
proof -
  obtain rep uni' where v: "cmd_verify demo_env demo_args demo_uni 0 = (Inr rep, uni')"
    using demo_verify by blast
  have c: "completed (Inr rep) = Some rep" by (simp add: completed_def)
  from displays_agree [OF v c, of "\<lambda>_. []" "\<lambda>_. []"] obtain ld where
    "ud_last uni' = Some ld" "json_index (report_of (decision_value (\<lambda>_. []) ld)) ''decision'' = JString ''Accepted''"
    "explain_head (decision_value (\<lambda>_. []) ld) ! 1 = plain (decision_name (dr_decision (vr_result rep)))"
    by (auto simp: Let_def)
  moreover have "dr_decision (vr_result rep) = Accepted"
    using v by (auto simp: cmd_verify_def verdict_def split: sum.splits prod.splits if_splits)
  ultimately show ?thesis using v by (auto simp: decision_name_def)
qed

subsection \<open>The closing lines of \<open>uni verify\<close>\<close>

text \<open>A claim is marked PASS when it is valid and only then; the hints name the others.\<close>

lemma state_mark_pass: "state_mark st = ''PASS'' \<longleftrightarrow> st = Valid"
  by (cases st) (simp_all add: state_mark_def)

lemma hints_exact:
  "set (hints r) = (\<lambda>c. ''uni verify '' @ cr_claim_id c) ` {c \<in> set (dr_claims r). cr_state c \<noteq> Valid}"
  by (auto simp: hints_def)

text \<open>No hints after a decision that is final.\<close>

lemma hint_lines_final: "dr_decision r \<in> {Accepted, Rejected} \<Longrightarrow> hint_lines r = []"
  by (auto simp: hint_lines_def)

subsection \<open>Searching the decision\<close>

lemma contains_map: "contains s pat \<Longrightarrow> contains (map f s) (map f pat)"
  by (simp add: contains_iff) (metis map_append)

text \<open>What occurs in the stored text, in whatever case, is never reported as missing.\<close>

theorem search_never_misses:
  assumes "contains text f"
  shows "explain_search text (Some f) = []"
  using contains_map [OF assms, of lower_char] by (simp add: explain_search_def to_lower_def Let_def)

theorem search_never_misses_witness: "explain_search ''{Accepted}'' (Some ''Accepted'') = []"
proof -
  have "contains ''{Accepted}'' ''Accepted''" by code_simp
  from search_never_misses [OF this] show ?thesis .
qed


end
