(* ===== verification/Decision_Tests.thy ===== *)
theory Decision_Tests
  imports Policy
begin

section \<open>The tests of the decision engine (uni-decision, lib.rs)\<close>

text \<open>
  The unit tests and the property tests of the crate, as predicates over the model: a fixture
  is a definition, an assertion is a conjunct, a sampled input is an argument. Each holds of
  the model; the property tests hold for every input, not only in the sampled ranges. The
  clock and the local actor are parameters.
\<close>

subsection \<open>Fixtures\<close>

definition fixture_evidence :: "int \<Rightarrow> actor \<Rightarrow> string \<Rightarrow> string \<Rightarrow> evidence_state \<Rightarrow> int \<Rightarrow> evidence" where
  "fixture_evidence now who eid claim st code =
     \<lparr>ev_id = eid, ev_claim_id = claim, ev_producer = ''t'', ev_command = ''c'', ev_exit_code = code,
      ev_output_hash = ''h'', ev_output_excerpt = [], ev_commit_sha = ''s'', ev_workspace_dirty = False,
      ev_state = st, ev_created_at = now, ev_duration_ms = 1, ev_artifact_hash = [],
      ev_artifact_files = [], ev_fingerprint = [], ev_registry_hash = [], ev_policy_hash = [],
      ev_contract_hash = [], ev_platform = [], ev_actor = who, ev_executor = who, ev_binding_hash = [],
      ev_expires_at = None\<rparr>"

lemma fixture_simps [simp]:
  "ev_claim_id (fixture_evidence now who eid c st code) = c"
  "ev_state (fixture_evidence now who eid c st code) = st"
  "ev_exit_code (fixture_evidence now who eid c st code) = code"
  by (simp_all add: fixture_evidence_def)

definition fixture_claim :: "string \<Rightarrow> string \<Rightarrow> bool \<Rightarrow> bool \<Rightarrow> claim_ir" where
  "fixture_claim i kind required critical =
     \<lparr>ci_id = i, ci_kind = kind, ci_required = required, ci_critical = critical, ci_ensure = ''e''\<rparr>"

definition fixture_ir :: "string \<Rightarrow> string \<Rightarrow> claim_ir list \<Rightarrow> ir" where
  "fixture_ir i domain cs =
     \<lparr>ir_uni_version = ''0.1'', ir_intent = \<lparr>in_id = i, in_domain = domain, in_goal = ''g''\<rparr>,
      ir_claims = cs, ir_verification = [], ir_acceptance = \<lparr>ai_require_verified = True\<rparr>\<rparr>"

lemma fixture_claim_simps [simp]:
  "ci_id (fixture_claim i k r c) = i" "ci_required (fixture_claim i k r c) = r"
  "ci_critical (fixture_claim i k r c) = c"
  by (simp_all add: fixture_claim_def)

lemma fixture_ir_claims [simp]: "ir_claims (fixture_ir i d cs) = cs"
  by (simp add: fixture_ir_def)

abbreviation decision_on :: "ir \<Rightarrow> evidence list \<Rightarrow> decision" where
  "decision_on i evs \<equiv> dr_decision (evaluate i evs)"

lemmas decision_rules = evaluate_closed is_critical_failure_def is_missing_def proven_def disproved_def
  best_evidence_def result_of_def first_state_def

subsection \<open>The truth table\<close>

definition ir1 :: ir where
  "ir1 = fixture_ir ''x'' ''software'' [fixture_claim ''a'' ''claim'' True False]"

definition unit_ev :: "int \<Rightarrow> actor \<Rightarrow> evidence_state \<Rightarrow> int \<Rightarrow> evidence" where
  "unit_ev now who st code = fixture_evidence now who ''a-x'' ''a'' st code"

definition truth_table :: "int \<Rightarrow> actor \<Rightarrow> bool" where
  "truth_table now who \<longleftrightarrow>
     decision_on ir1 [unit_ev now who Valid 0] = Accepted \<and>
     decision_on ir1 [] = EvidenceRequired \<and>
     decision_on ir1 [unit_ev now who Stale 0] = EvidenceRequired \<and>
     decision_on (ir1\<lparr>ir_claims := map (\<lambda>c. c\<lparr>ci_critical := True\<rparr>) (ir_claims ir1)\<rparr>)
       [unit_ev now who Invalid 1] = Rejected"

lemma truth_table_holds: "truth_table now who"
  by (simp add: truth_table_def ir1_def unit_ev_def fixture_claim_def decision_rules)

subsection \<open>The decision matrix\<close>

definition matrix_ir :: ir where
  "matrix_ir = fixture_ir ''x'' ''s'' [fixture_claim ''a'' ''claim'' True False]"

definition matrix_ev :: "int \<Rightarrow> actor \<Rightarrow> evidence_state \<Rightarrow> int \<Rightarrow> evidence" where
  "matrix_ev now who st code = fixture_evidence now who ''a-e'' ''a'' st code"

definition required_claim_matrix :: "int \<Rightarrow> actor \<Rightarrow> bool" where
  "required_claim_matrix now who \<longleftrightarrow>
     (let mk = matrix_ev now who;
          irc = matrix_ir\<lparr>ir_claims := [fixture_claim ''a'' ''claim'' True True]\<rparr>;
          ir2 = matrix_ir\<lparr>ir_claims := ir_claims matrix_ir @ [fixture_claim ''b'' ''claim'' True False]\<rparr> in
      decision_on matrix_ir [mk Valid 0] = Accepted \<and>
      decision_on matrix_ir [mk Valid 1] = EvidenceRequired \<and>
      decision_on matrix_ir [] = EvidenceRequired \<and>
      decision_on matrix_ir [mk Stale 0] = EvidenceRequired \<and>
      decision_on matrix_ir [mk Invalid 1] = EvidenceRequired \<and>
      decision_on irc [mk Valid 0] = Accepted \<and>
      decision_on irc [mk Invalid 1] = Rejected \<and>
      decision_on ir2 [mk Valid 0] = EvidenceRequired)"

lemma required_claim_matrix_holds: "required_claim_matrix now who"
  by (simp add: required_claim_matrix_def Let_def matrix_ir_def matrix_ev_def decision_rules)

subsection \<open>The rows of the table\<close>

definition row_ir :: "bool \<Rightarrow> bool \<Rightarrow> ir" where
  "row_ir required critical =
     fixture_ir ''x'' ''s'' [fixture_claim ''a'' (if critical then ''invariant'' else ''claim'') required critical]"

definition row_ev :: "int \<Rightarrow> actor \<Rightarrow> evidence_state \<Rightarrow> int \<Rightarrow> evidence" where
  "row_ev now who st code = fixture_evidence now who ''a-e'' ''a'' st code"

definition optional_with_no_evidence_is_accepted :: bool where
  "optional_with_no_evidence_is_accepted \<longleftrightarrow> decision_on (row_ir False False) [] = Accepted"

definition optional_with_disproving_evidence_is_still_accepted :: "int \<Rightarrow> actor \<Rightarrow> bool" where
  "optional_with_disproving_evidence_is_still_accepted now who \<longleftrightarrow>
     (let r = evaluate (row_ir False False) [row_ev now who Invalid 1] in
      dr_decision r = Accepted \<and> cr_state (dr_claims r ! 0) = Invalid)"

definition critical_stale_needs_revalidation :: "int \<Rightarrow> actor \<Rightarrow> bool" where
  "critical_stale_needs_revalidation now who \<longleftrightarrow>
     decision_on (row_ir True True) [row_ev now who Stale 0] = EvidenceRequired"

definition critical_missing_needs_revalidation :: bool where
  "critical_missing_needs_revalidation \<longleftrightarrow> decision_on (row_ir True True) [] = EvidenceRequired"

definition disproved_critical_rejects_with_zero_exit :: "int \<Rightarrow> actor \<Rightarrow> bool" where
  "disproved_critical_rejects_with_zero_exit now who \<longleftrightarrow>
     decision_on (row_ir True True) [row_ev now who Invalid 0] = Rejected"

definition disproved_noncritical_asks_for_evidence :: "int \<Rightarrow> actor \<Rightarrow> bool" where
  "disproved_noncritical_asks_for_evidence now who \<longleftrightarrow>
     decision_on (row_ir True False) [row_ev now who Invalid 0] = EvidenceRequired"

definition valid_proof_wins_in_any_order :: "int \<Rightarrow> actor \<Rightarrow> bool" where
  "valid_proof_wins_in_any_order now who \<longleftrightarrow>
     (let good = row_ev now who Valid 0; bad = row_ev now who Invalid 1 in
      decision_on (row_ir True False) [good, bad] = Accepted \<and>
      decision_on (row_ir True False) [bad, good] = Accepted)"

lemmas row_defs = optional_with_no_evidence_is_accepted_def
  optional_with_disproving_evidence_is_still_accepted_def critical_stale_needs_revalidation_def
  critical_missing_needs_revalidation_def disproved_critical_rejects_with_zero_exit_def
  disproved_noncritical_asks_for_evidence_def valid_proof_wins_in_any_order_def

lemma rows_hold:
  "optional_with_no_evidence_is_accepted"
  "optional_with_disproving_evidence_is_still_accepted now who"
  "critical_stale_needs_revalidation now who"
  "critical_missing_needs_revalidation"
  "disproved_critical_rejects_with_zero_exit now who"
  "disproved_noncritical_asks_for_evidence now who"
  "valid_proof_wins_in_any_order now who"
  by (simp_all add: row_defs row_ir_def row_ev_def Let_def decision_rules)

subsection \<open>Sampled contracts\<close>

definition ir_n :: "nat \<Rightarrow> nat \<Rightarrow> ir" where
  "ir_n n m =
     fixture_ir ''x'' ''software''
       (map (\<lambda>i. fixture_claim (''r'' @ show_nat i) ''claim'' True False) [0..<n] @
        map (\<lambda>i. fixture_claim (''c'' @ show_nat i) ''invariant'' True True) [0..<m])"

definition ev_of :: "int \<Rightarrow> actor \<Rightarrow> evidence_state \<Rightarrow> int \<Rightarrow> string \<Rightarrow> evidence" where
  "ev_of now who st code claim = fixture_evidence now who (claim @ ''-ev'') claim st code"

lemma ev_of_simps [simp]:
  "ev_claim_id (ev_of now who st code c) = c" "ev_state (ev_of now who st code c) = st"
  "ev_exit_code (ev_of now who st code c) = code"
  by (simp_all add: ev_of_def)

definition determinism :: "int \<Rightarrow> actor \<Rightarrow> nat \<Rightarrow> nat \<Rightarrow> bool" where
  "determinism now who n m \<longleftrightarrow>
     (let i = ir_n n m; evs = map (\<lambda>c. ev_of now who Valid 0 (ci_id c)) (ir_claims i);
          d1 = evaluate i evs; d2 = evaluate i evs in
      (dr_decision d1, dr_claims d1) = (dr_decision d2, dr_claims d2))"

definition all_valid_required_is_accepted :: "int \<Rightarrow> actor \<Rightarrow> nat \<Rightarrow> bool" where
  "all_valid_required_is_accepted now who n \<longleftrightarrow>
     (let i = ir_n n 0; evs = map (\<lambda>c. ev_of now who Valid 0 (ci_id c)) (ir_claims i) in
      decision_on i evs = Accepted)"

text \<open>The loop that gives the first critical claim a failing record and every other a proof.\<close>

definition push_sample :: "int \<Rightarrow> actor \<Rightarrow> nat \<Rightarrow> nat \<times> claim_ir \<Rightarrow> evidence list \<Rightarrow> evidence list" where
  "push_sample now who n = (\<lambda>(i, c) evs.
     if ci_critical c \<and> list_all (\<lambda>e. ev_state e \<noteq> Invalid) evs \<and> n \<le> i
     then evs @ [ev_of now who Invalid 1 (ci_id c)] else evs @ [ev_of now who Valid 0 (ci_id c)])"

definition any_invalid_critical_rejected :: "int \<Rightarrow> actor \<Rightarrow> nat \<Rightarrow> nat \<Rightarrow> bool" where
  "any_invalid_critical_rejected now who n m \<longleftrightarrow>
     (let i = ir_n n m; evs = fold (push_sample now who n) (List.enumerate 0 (ir_claims i)) [] in
      decision_on i evs = Rejected)"

lemma determinism_holds: "determinism now who n m"
  by (simp add: determinism_def Let_def)

lemma all_proven:
  assumes "\<And>e. e \<in> set evs \<Longrightarrow> ev_state e = Valid \<and> ev_exit_code e = 0" and "c \<in> ev_claim_id ` set evs"
  shows "proven evs c"
proof -
  obtain e where e: "e \<in> set evs" "ev_claim_id e = c" using assms(2) by blast
  then have "best_evidence evs c \<noteq> None" using find_None_mem assms(1) by metis
  then obtain e' where b: "best_evidence evs c = Some e'" by blast
  then have "ev_exit_code e' = 0" using find_Some_mem assms(1) by blast
  then show ?thesis using b by (simp add: proven_def)
qed

lemma all_valid_required_holds: "all_valid_required_is_accepted now who n"
proof -
  let ?i = "ir_n n 0"
  let ?evs = "map (\<lambda>c. ev_of now who Valid 0 (ci_id c)) (ir_claims ?i)"
  have p: "proven ?evs (ci_id c)" if "c \<in> set (ir_claims ?i)" for c
    by (rule all_proven) (use that in \<open>auto simp: image_image\<close>)
  have "\<not> is_critical_failure ?evs c \<and> \<not> is_missing ?evs c" if "c \<in> set (ir_claims ?i)" for c
    using p [OF that] not_proven_disproved [of ?evs "ci_id c"] by (auto simp: is_critical_failure_def is_missing_def)
  then have "decision_on ?i ?evs = Accepted" using decision_cases(2) by blast
  then show ?thesis by (simp add: all_valid_required_is_accepted_def Let_def)
qed

lemma push_plain:
  assumes "\<forall>c\<in>set cs. \<not> ci_critical c"
  shows "fold (push_sample now who n) (List.enumerate k cs) evs = evs @ map (\<lambda>c. ev_of now who Valid 0 (ci_id c)) cs"
  using assms by (induction cs arbitrary: k evs) (simp_all add: push_sample_def)

lemma push_after:
  assumes "\<exists>e\<in>set evs. ev_state e = Invalid"
  shows "fold (push_sample now who n) (List.enumerate k cs) evs = evs @ map (\<lambda>c. ev_of now who Valid 0 (ci_id c)) cs"
  using assms
proof (induction cs arbitrary: k evs)
  case (Cons c cs)
  then have "push_sample now who n (k, c) evs = evs @ [ev_of now who Valid 0 (ci_id c)]"
    by (auto simp: push_sample_def list_all_iff)
  then show ?case using Cons.IH [of "evs @ [ev_of now who Valid 0 (ci_id c)]"] Cons.prems by auto
qed simp

text \<open>The records the loop makes: one failing record, for the first critical claim.\<close>

lemma push_all:
  "fold (push_sample now who n) (List.enumerate 0 (ir_claims (ir_n n (Suc m)))) [] =
     map (\<lambda>i. ev_of now who Valid 0 (''r'' @ show_nat i)) [0..<n] @
     ev_of now who Invalid 1 (''c'' @ show_nat 0) #
     map (\<lambda>i. ev_of now who Valid 0 (''c'' @ show_nat i)) [1..<Suc m]"
proof -
  let ?rs = "map (\<lambda>i. fixture_claim (''r'' @ show_nat i) ''claim'' True False) [0..<n]"
  let ?c = "\<lambda>i. fixture_claim (''c'' @ show_nat i) ''invariant'' True True"
  have cs: "ir_claims (ir_n n (Suc m)) = ?rs @ ?c 0 # map ?c [1..<Suc m]"
    by (simp add: ir_n_def upt_conv_Cons del: upt_Suc)
  have "fold (push_sample now who n) (List.enumerate 0 ?rs) [] = map (\<lambda>i. ev_of now who Valid 0 (''r'' @ show_nat i)) [0..<n]"
    by (subst push_plain) (simp_all add: comp_def)
  moreover have "push_sample now who n (n, ?c 0) evs = evs @ [ev_of now who Invalid 1 (''c'' @ show_nat 0)]"
    if "\<forall>e\<in>set evs. ev_state e = Valid" for evs
    using that by (auto simp: push_sample_def list_all_iff)
  ultimately show ?thesis
    by (simp add: cs enumerate_append_eq push_after comp_def del: upt_Suc show_nat.simps)
qed

lemma any_invalid_critical_holds: "any_invalid_critical_rejected now who n (Suc m)"
proof -
  let ?evs = "fold (push_sample now who n) (List.enumerate 0 (ir_claims (ir_n n (Suc m)))) []"
  have f: "filter (\<lambda>e. ev_claim_id e = ''c'' @ show_nat 0) ?evs = [ev_of now who Invalid 1 (''c'' @ show_nat 0)]"
    unfolding push_all using show_nat_inject by (fastforce simp: filter_empty_conv simp del: upt_Suc show_nat.simps)
  then have "ev_of now who Invalid 1 (''c'' @ show_nat 0) \<in> set ?evs"
    by (metis filter_is_subset list.set_intros(1) subsetD)
  then have "disproved ?evs (''c'' @ show_nat 0)"
    using f by (auto simp: disproved_def best_evidence_def simp del: show_nat.simps intro: bexI [rotated])
  moreover have "fixture_claim (''c'' @ show_nat 0) ''invariant'' True True \<in> set (ir_claims (ir_n n (Suc m)))"
    by (simp add: ir_n_def upt_conv_Cons del: upt_Suc show_nat.simps)
  ultimately have "decision_on (ir_n n (Suc m)) ?evs = Rejected"
    using decision_cases(1) [of "ir_n n (Suc m)" ?evs] by (force simp: is_critical_failure_def)
  then show ?thesis by (simp add: any_invalid_critical_rejected_def Let_def)
qed

subsection \<open>Policies\<close>

text \<open>The derived \<open>Default\<close> of \<open>Policy\<close>: every field has the default of its type.\<close>

definition derived_default :: policy where
  "derived_default =
     \<lparr>reject_on_invalid = False, escalate_on_stale = False, escalate_on_missing = False,
      min_verified_ratio = Fin 0\<rparr>"

definition ir_claims_n :: "nat \<Rightarrow> ir" where
  "ir_claims_n n =
     fixture_ir ''p'' ''s'' (map (\<lambda>i. fixture_claim (''c'' @ show_nat i) ''claim'' True False) [0..<n])"

definition policy_ev :: "int \<Rightarrow> actor \<Rightarrow> string \<Rightarrow> evidence_state \<Rightarrow> int \<Rightarrow> evidence" where
  "policy_ev now who claim st code = fixture_evidence now who (claim @ ''-e'') claim st code"

definition default_policy_matches_legacy_behavior :: bool where
  "default_policy_matches_legacy_behavior \<longleftrightarrow>
     dr_decision (apply_policy (evaluate (ir_claims_n 1) []) (derived_default\<lparr>reject_on_invalid := True\<rparr>))
       = EvidenceRequired"

definition escalate_on_stale_upgrades_required :: "int \<Rightarrow> actor \<Rightarrow> bool" where
  "escalate_on_stale_upgrades_required now who \<longleftrightarrow>
     (let base = evaluate (ir_claims_n 1) [policy_ev now who ''c0'' Stale 0];
          out = apply_policy base (derived_default\<lparr>escalate_on_stale := True\<rparr>) in
      dr_decision out = Escalated \<and> (case dr_reason out of EscalateOnStale _ \<Rightarrow> True | _ \<Rightarrow> False))"

definition min_verified_ratio_rejects :: "int \<Rightarrow> actor \<Rightarrow> bool" where
  "min_verified_ratio_rejects now who \<longleftrightarrow>
     (let evs = map (\<lambda>i. policy_ev now who (''c'' @ show_nat i) Valid 0) [0..<1];
          out = apply_policy (evaluate (ir_claims_n 4) evs) (derived_default\<lparr>min_verified_ratio := Fin (3 / 4)\<rparr>) in
      dr_decision out = Rejected \<and> (case dr_reason out of BelowRatio _ _ \<Rightarrow> True | _ \<Rightarrow> False))"

lemma quarter: "f64_quot (Suc 0) (Suc (Suc (Suc (Suc 0)))) = Fin (1 / 4)"
proof -
  have "norm_exp 1 4 52 = 54"
    by (simp add: norm_exp.simps [of "Suc 0" 4 52] norm_exp.simps [of "Suc 0" 4 53] norm_exp.simps [of "Suc 0" 4 54])
  moreover have "round_half_even (1 * 2 ^ 54) 4 = 2 ^ 52" by (simp add: round_half_even_def)
  ultimately have "f64_quot 1 4 = Fin (1 / 4)" by (simp add: f64_quot_def)
  then show ?thesis by (simp add: eval_nat_numeral)
qed

lemma ir_claims_values:
  "ir_claims (ir_claims_n 1) = [fixture_claim ''c0'' ''claim'' True False]"
  "ir_claims (ir_claims_n 4) = map (\<lambda>c. fixture_claim c ''claim'' True False) [''c0'', ''c1'', ''c2'', ''c3'']"
proof -
  have "show_nat 0 = ''0''" "show_nat 1 = ''1''" "show_nat 2 = ''2''" "show_nat 3 = ''3''" by code_simp+
  moreover have "[0..<4] = [0, 1, 2, 3 :: nat]" "[0..<1] = [0 :: nat]" by code_simp+
  ultimately show "ir_claims (ir_claims_n 1) = [fixture_claim ''c0'' ''claim'' True False]"
    "ir_claims (ir_claims_n 4) = map (\<lambda>c. fixture_claim c ''claim'' True False) [''c0'', ''c1'', ''c2'', ''c3'']"
    by (simp_all only: ir_claims_n_def fixture_ir_claims list.map append.simps)
qed

lemmas ir_claims_simps = ir_claims_values [unfolded One_nat_def]

lemma policy_tests_hold:
  "default_policy_matches_legacy_behavior"
  "escalate_on_stale_upgrades_required now who"
  "min_verified_ratio_rejects now who"
proof -
  have z: "show_nat 0 = ''0''" "[0..<1] = [0 :: nat]" by code_simp+
  show "default_policy_matches_legacy_behavior"
    by (simp add: default_policy_matches_legacy_behavior_def derived_default_def apply_policy_def below_ratio_def
        f64_less_def evaluate_closed Let_def ir_claims_simps has_state_def decision_rules decide_def)
  show "escalate_on_stale_upgrades_required now who"
    by (simp add: escalate_on_stale_upgrades_required_def derived_default_def apply_policy_def below_ratio_def
        f64_less_def evaluate_closed Let_def ir_claims_simps has_state_def decision_rules decide_def policy_ev_def)
  show "min_verified_ratio_rejects now who"
    by (simp add: min_verified_ratio_rejects_def derived_default_def apply_policy_def below_ratio_def
        f64_less_def evaluate_closed Let_def ir_claims_simps has_state_def decision_rules decide_def policy_ev_def
        count_verified_def z quarter del: show_nat.simps)
qed

text \<open>The two files of the stack; the TOML parser is a parameter, given what it makes of them.\<close>

definition base_policy_text :: string where
  "base_policy_text = ''[policy]'' @ [nl] @ ''escalate_on_stale = true'' @ [nl] @ ''min_verified_ratio = 0.5'' @ [nl]"

definition override_policy_text :: string where
  "override_policy_text = ''[policy]'' @ [nl] @ ''reject_on_invalid = false'' @ [nl]"

definition policies_load_from_toml_stack :: "(string \<Rightarrow> toml option) \<Rightarrow> bool" where
  "policies_load_from_toml_stack parse_toml \<longleftrightarrow>
     (let p = load_policies parse_toml
        (Some [(''01-base.toml'', Some base_policy_text), (''02-override.toml'', Some override_policy_text)]) in
      \<not> reject_on_invalid p \<and> escalate_on_stale p \<and>
      (case min_verified_ratio p of Fin q \<Rightarrow> \<bar>q - 1 / 2\<bar> < 1 / 2 ^ 52 | _ \<Rightarrow> False))"

lemma policies_load_holds:
  assumes "parse_toml base_policy_text =
      Some (TTable [(''policy'', TTable [(''escalate_on_stale'', TBoolean True), (''min_verified_ratio'', TFloat (Fin (1 / 2)))])])"
    and "parse_toml override_policy_text = Some (TTable [(''policy'', TTable [(''reject_on_invalid'', TBoolean False)])])"
  shows "policies_load_from_toml_stack parse_toml"
proof -
  have f: "policy_files [(''01-base.toml'', Some base_policy_text), (''02-override.toml'', Some override_policy_text)] =
      [(''01-base.toml'', Some base_policy_text), (''02-override.toml'', Some override_policy_text)]"
    by code_simp
  show ?thesis
    by (simp add: policies_load_from_toml_stack_def load_policies_def f policy_table_def assms toml_get_def as_table_def
        bt_get_def read_policy_def as_bool_def as_float_def default_policy_def Let_def f64_max_def f64_less_def)
qed

subsection \<open>Determinism under a policy\<close>

definition state_of :: "nat \<Rightarrow> evidence_state \<times> int" where
  "state_of sel = (if sel = 1 then (Invalid, 1) else if sel = 2 then (Stale, 0) else (Valid, 0))"

definition sampled_evidence :: "int \<Rightarrow> actor \<Rightarrow> nat \<Rightarrow> nat \<Rightarrow> nat \<Rightarrow> evidence list" where
  "sampled_evidence now who n s0 s1 =
     map (\<lambda>i. let (st, code) = state_of (if i = 0 then s0 else if i = 1 then s1 else 0) in
           policy_ev now who (''c'' @ show_nat i) st code) [0..<n]"

definition policy_determinism :: "int \<Rightarrow> actor \<Rightarrow> nat \<Rightarrow> nat \<Rightarrow> nat \<Rightarrow> f64 \<Rightarrow> bool" where
  "policy_determinism now who n s0 s1 ratio \<longleftrightarrow>
     (let evs = sampled_evidence now who n s0 s1;
          pol = \<lparr>reject_on_invalid = True, escalate_on_stale = (n mod 2 = 0), escalate_on_missing = False,
                 min_verified_ratio = ratio\<rparr>;
          d1 = apply_policy (evaluate (ir_claims_n n) evs) pol; d2 = apply_policy (evaluate (ir_claims_n n) evs) pol in
      (dr_decision d1, dr_reason d1, dr_claims d1) = (dr_decision d2, dr_reason d2, dr_claims d2))"

lemma policy_determinism_holds: "policy_determinism now who n s0 s1 ratio"
  by (simp add: policy_determinism_def Let_def)

subsection \<open>The assurance scale\<close>

definition assurance_mapping_is_total :: bool where
  "assurance_mapping_is_total \<longleftrightarrow>
     assurance_of Accepted = 2 \<and> assurance_of Rejected = 1 \<and> assurance_of EvidenceRequired = 0 \<and>
     assurance_of Escalated = 0 \<and> assurance_label 2 = ''VERIFIED'' \<and> assurance_label 99 = ''?''"

definition assurance_of_json_never_upgrades_garbage :: bool where
  "assurance_of_json_never_upgrades_garbage \<longleftrightarrow>
     assurance_of_json (Some ''Accepted'') = 2 \<and> assurance_of_json (Some ''nonsense'') = 0 \<and>
     assurance_of_json None = 0"

lemma assurance_tests_hold: "assurance_mapping_is_total" "assurance_of_json_never_upgrades_garbage"
  by (simp_all add: assurance_mapping_is_total_def assurance_of_def assurance_label_def
      assurance_of_json_never_upgrades_garbage_def assurance_of_json_def decision_of_name_def)

subsection \<open>Independence\<close>

definition indep_ev :: "int \<Rightarrow> string \<Rightarrow> string \<Rightarrow> string \<Rightarrow> evidence" where
  "indep_ev now actor_id executor_id assurance =
     (fixture_evidence now default_actor ''e'' ''c'' Valid 0)
       \<lparr>ev_fingerprint := ''f'',
        ev_actor := \<lparr>ac_id = actor_id, ac_source = ''cli'', ac_assurance = assurance\<rparr>,
        ev_executor := \<lparr>ac_id = executor_id, ac_source = ''local'', ac_assurance = ''self-declared''\<rparr>\<rparr>"

definition empty_or_anonymous_is_never_independent :: "int \<Rightarrow> bool" where
  "empty_or_anonymous_is_never_independent now \<longleftrightarrow>
     independence [] = Anonymous \<and>
     independence [indep_ev now [] ''local:alice'' ''self-declared''] = Anonymous"

definition same_actor_is_not_independent :: "int \<Rightarrow> bool" where
  "same_actor_is_not_independent now \<longleftrightarrow>
     independence [indep_ev now ''local:alice'' ''local:alice'' ''self-declared''] = SameActor"

definition distinct_actors_are_independent :: "int \<Rightarrow> bool" where
  "distinct_actors_are_independent now \<longleftrightarrow>
     independence [indep_ev now ''ci:build-12'' ''local:alice'' ''self-declared''] = Independent"

definition assurance_splits_independence_from_identity :: "int \<Rightarrow> bool" where
  "assurance_splits_independence_from_identity now \<longleftrightarrow>
     (let declared_evs = [indep_ev now ''ci:build-12'' ''local:alice'' ''self-declared''];
          verified_evs = [indep_ev now ''spiffe://acme/v'' ''local:alice'' ''verified''];
          same = [indep_ev now ''local:alice'' ''local:alice'' ''self-declared''] in
      assurance_for declared_evs = ''A3-D'' \<and> identity_assurance declared_evs = ''SELF-DECLARED'' \<and>
      assurance_for verified_evs = ''A3'' \<and> identity_assurance verified_evs = ''VERIFIED'' \<and>
      assurance_for same = ''A2'')"

definition decision_does_not_enter_the_scale :: "int \<Rightarrow> bool" where
  "decision_does_not_enter_the_scale now \<longleftrightarrow>
     (let verified_evs = [indep_ev now ''spiffe://acme/v'' ''local:alice'' ''verified''] in
      list_all (\<lambda>d. assurance_for verified_evs = ''A3'') [Accepted, Rejected, EvidenceRequired, Escalated] \<and>
      assurance_for [] = ''A0'')"

definition actor_parsing_never_confuses_prefix_with_proof :: "string option \<Rightarrow> string option \<Rightarrow> bool" where
  "actor_parsing_never_confuses_prefix_with_proof USER USERNAME \<longleftrightarrow>
     (let a = declared ''ci:build-12''; s = declared ''spiffe://acme/verifier/b12'' in
      ac_source a = ''cli'' \<and> ac_assurance a = ''self-declared'' \<and>
      ac_source s = ''spiffe'' \<and> ac_assurance s = ''self-declared'' \<and>
      is_anonymous \<lparr>ac_id = [], ac_source = ''cli'', ac_assurance = ''self-declared''\<rparr> \<and>
      \<not> is_anonymous (local_actor USER USERNAME))"

lemma named_actors:
  "\<not> is_anonymous \<lparr>ac_id = ''local:alice'', ac_source = src, ac_assurance = a\<rparr>"
  "\<not> is_anonymous \<lparr>ac_id = ''ci:build-12'', ac_source = src, ac_assurance = a\<rparr>"
  "\<not> is_anonymous \<lparr>ac_id = ''spiffe://acme/v'', ac_source = src, ac_assurance = a\<rparr>"
  "is_anonymous \<lparr>ac_id = [], ac_source = src, ac_assurance = a\<rparr>"
proof -
  have "trim ''local:alice'' \<noteq> []" "trim ''ci:build-12'' \<noteq> []" "trim ''spiffe://acme/v'' \<noteq> []" "trim [] = []"
    by code_simp+
  then show "\<not> is_anonymous \<lparr>ac_id = ''local:alice'', ac_source = src, ac_assurance = a\<rparr>"
    "\<not> is_anonymous \<lparr>ac_id = ''ci:build-12'', ac_source = src, ac_assurance = a\<rparr>"
    "\<not> is_anonymous \<lparr>ac_id = ''spiffe://acme/v'', ac_source = src, ac_assurance = a\<rparr>"
    "is_anonymous \<lparr>ac_id = [], ac_source = src, ac_assurance = a\<rparr>"
    by (simp_all add: is_anonymous_def)
qed

lemma indep_ev_simps [simp]:
  "ev_actor (indep_ev now a e k) = \<lparr>ac_id = a, ac_source = ''cli'', ac_assurance = k\<rparr>"
  "ev_executor (indep_ev now a e k) = \<lparr>ac_id = e, ac_source = ''local'', ac_assurance = ''self-declared''\<rparr>"
  by (simp_all add: indep_ev_def)

lemma independence_tests_hold:
  "empty_or_anonymous_is_never_independent now" "same_actor_is_not_independent now"
  "distinct_actors_are_independent now" "assurance_splits_independence_from_identity now"
  "decision_does_not_enter_the_scale now"
  by (simp_all add: empty_or_anonymous_is_never_independent_def same_actor_is_not_independent_def
      distinct_actors_are_independent_def assurance_splits_independence_from_identity_def
      decision_does_not_enter_the_scale_def independence_def named_actors assurance_for_def
      identity_assurance_def is_verified_def Let_def)

lemma local_actor_named: "\<not> is_anonymous (local_actor USER USERNAME)"
proof -
  have "\<not> is_ws (CHR ''l'')" by code_simp
  then show ?thesis by (auto simp: local_actor_def is_anonymous_def Let_def trim_eq_Nil_iff)
qed

lemma actor_parsing_holds: "actor_parsing_never_confuses_prefix_with_proof USER USERNAME"
proof -
  have "ac_source (declared ''ci:build-12'') = ''cli''" "ac_source (declared ''spiffe://acme/verifier/b12'') = ''spiffe''"
    by code_simp+
  then show ?thesis
    using local_actor_named
    by (simp add: actor_parsing_never_confuses_prefix_with_proof_def Let_def named_actors declared_def)
qed

text \<open>
  The test suite of the decision engine holds of the model: every unit test for any clock
  and actor, and the property tests without their bounds, for contracts of any size, where the
  suite samples up to four claims.
\<close>

theorem decision_suite:
  "truth_table now who \<and> required_claim_matrix now who \<and>
   optional_with_no_evidence_is_accepted \<and> optional_with_disproving_evidence_is_still_accepted now who \<and>
   critical_stale_needs_revalidation now who \<and> critical_missing_needs_revalidation \<and>
   disproved_critical_rejects_with_zero_exit now who \<and> disproved_noncritical_asks_for_evidence now who \<and>
   valid_proof_wins_in_any_order now who \<and> default_policy_matches_legacy_behavior \<and>
   escalate_on_stale_upgrades_required now who \<and> min_verified_ratio_rejects now who \<and>
   assurance_mapping_is_total \<and> assurance_of_json_never_upgrades_garbage \<and>
   empty_or_anonymous_is_never_independent now \<and> same_actor_is_not_independent now \<and>
   distinct_actors_are_independent now \<and> assurance_splits_independence_from_identity now \<and>
   decision_does_not_enter_the_scale now \<and> actor_parsing_never_confuses_prefix_with_proof u un \<and>
   all_valid_required_is_accepted now who n \<and> any_invalid_critical_rejected now who n (Suc m)"
  by (simp add: truth_table_holds required_claim_matrix_holds rows_hold policy_tests_hold assurance_tests_hold
      independence_tests_hold actor_parsing_holds all_valid_required_holds any_invalid_critical_holds)

end
