(* ===== verification/Verify_Tests.thy ===== *)
theory Verify_Tests
  imports Verifiers Trust_Boundary
begin

section \<open>The tests of the verifiers and of the registry (uni-verify, lib.rs)\<close>

text \<open>
  The unit tests of the crate, as predicates over the model. The TOML parser is a parameter; a
  lemma says what it makes of the text of the fixture. The shell of the tests answers the
  handful of commands they run, the digest is a parameter that does not collide on the texts of
  a fixture, and a directory is a tree.
\<close>

subsection \<open>Fixtures\<close>

definition spec :: "string \<Rightarrow> verifier_spec" where
  "spec run = (shell_spec run)\<lparr>vs_timeout := 30\<rparr>"

definition file_hash_spec :: "string \<Rightarrow> string \<Rightarrow> verifier_spec" where
  "file_hash_spec path hash =
     (shell_spec [])\<lparr>vs_kind := ''file-hash'', vs_files := [path], vs_expect_sha256 := bt_insert path hash []\<rparr>"

definition quoted_key :: "string \<Rightarrow> string" where
  "quoted_key s = [dquote] @ s @ [dquote]"

definition text_lines :: "string list \<Rightarrow> string" where
  "text_lines ls = concat (map (\<lambda>l. l @ [nl]) ls)"

definition entry_is :: "registry \<Rightarrow> string \<Rightarrow> (verifier_spec \<Rightarrow> bool) \<Rightarrow> bool" where
  "entry_is r k P \<longleftrightarrow> (case bt_get r k of Some s \<Rightarrow> P s | None \<Rightarrow> False)"

definition toml_verifiers :: "(string \<times> toml) list \<Rightarrow> toml" where
  "toml_verifiers es = TTable [(''verifiers'', TTable es)]"

lemma load_toml_verifiers:
  "parse_toml t = Some (toml_verifiers es) \<Longrightarrow> load_registry parse_toml (Some t) = fold load_entry es []"
  by (simp add: load_registry_def toml_verifiers_def toml_get_def bt_get_def as_table_def)

lemmas entry_simps = load_entry_def as_str_def as_table_def as_integer_def as_array_def table_spec_def spec_files_def
  spec_hashes_def str_or_def int_or_def u64_of_def usable_def shell_spec_def entry_is_def bt_get_def Let_def
  map_filter_Cons

subsection \<open>Loading the registry\<close>

definition forms_text :: string where
  "forms_text = text_lines
     [''[verifiers]'', quoted_key ''a'' @ '' = '' @ quoted_key ''cargo test'', [],
      ''[verifiers.'' @ quoted_key ''b'' @ '']'', ''run = '' @ quoted_key ''npm test'',
      ''expect = '' @ quoted_key ''1 passed'', ''files = ['' @ quoted_key ''src/**'' @ '']'', ''timeout = 12'']"

definition forms_toml :: toml where
  "forms_toml = toml_verifiers
     [(''a'', TString ''cargo test''),
      (''b'', TTable [(''expect'', TString ''1 passed''), (''files'', TArray [TString ''src/**'']),
                      (''run'', TString ''npm test''), (''timeout'', TInteger 12)])]"

definition registry_parses_simple_and_table_forms :: "(string \<Rightarrow> toml option) \<Rightarrow> bool" where
  "registry_parses_simple_and_table_forms parse_toml \<longleftrightarrow>
     (let r = load_registry parse_toml (Some forms_text) in
      entry_is r ''a'' (\<lambda>s. vs_run s = ''cargo test'' \<and> vs_timeout s = 300) \<and>
      entry_is r ''b'' (\<lambda>s. vs_expect s = ''1 passed'' \<and> vs_files s = [''src/**''] \<and> vs_timeout s = 12))"

lemma registry_parses_forms_holds:
  "parse_toml forms_text = Some forms_toml \<Longrightarrow> registry_parses_simple_and_table_forms parse_toml"
  by (simp add: registry_parses_simple_and_table_forms_def forms_toml_def load_toml_verifiers entry_simps)

definition max_age_text :: string where
  "max_age_text = text_lines
     [''[verifiers.'' @ quoted_key ''scan'' @ '']'', ''run = '' @ quoted_key ''true'', ''max_age_hours = 24'', [],
      ''[verifiers]'', quoted_key ''plain'' @ '' = '' @ quoted_key ''true'']"

definition max_age_toml :: toml where
  "max_age_toml = toml_verifiers
     [(''plain'', TString ''true''),
      (''scan'', TTable [(''max_age_hours'', TInteger 24), (''run'', TString ''true'')])]"

definition registry_parses_max_age_hours :: "(string \<Rightarrow> toml option) \<Rightarrow> bool" where
  "registry_parses_max_age_hours parse_toml \<longleftrightarrow>
     (let r = load_registry parse_toml (Some max_age_text) in
      entry_is r ''scan'' (\<lambda>s. vs_max_age_hours s = 24) \<and> entry_is r ''plain'' (\<lambda>s. vs_max_age_hours s = 0))"

lemma registry_parses_max_age_holds:
  "parse_toml max_age_text = Some max_age_toml \<Longrightarrow> registry_parses_max_age_hours parse_toml"
  by (simp add: registry_parses_max_age_hours_def max_age_toml_def load_toml_verifiers entry_simps)

definition file_hash_text :: string where
  "file_hash_text = text_lines
     [''[verifiers.'' @ quoted_key ''wasm'' @ '']'', ''type = '' @ quoted_key ''file-hash'',
      ''files = ['' @ quoted_key ''dist/app.wasm'' @ '']'', ''expect_sha256 = '' @ quoted_key ''deadbeef'']"

definition file_hash_toml :: "string \<Rightarrow> string \<Rightarrow> toml" where
  "file_hash_toml path hash = toml_verifiers
     [(''wasm'', TTable [(''expect_sha256'', TString hash), (''files'', TArray [TString path]),
                         (''type'', TString ''file-hash'')])]"

definition registry_parses_file_hash_kind :: "(string \<Rightarrow> toml option) \<Rightarrow> bool" where
  "registry_parses_file_hash_kind parse_toml \<longleftrightarrow>
     (let r = load_registry parse_toml (Some file_hash_text) in
      entry_is r ''wasm'' (\<lambda>s. vs_kind s = ''file-hash'' \<and> bt_get (vs_expect_sha256 s) ''dist/app.wasm'' = Some ''deadbeef''))"

lemma registry_parses_file_hash_holds:
  "parse_toml file_hash_text = Some (file_hash_toml ''dist/app.wasm'' ''deadbeef'') \<Longrightarrow>
   registry_parses_file_hash_kind parse_toml"
  by (simp add: registry_parses_file_hash_kind_def file_hash_toml_def load_toml_verifiers entry_simps)

subsection \<open>Resolving\<close>

definition one_text :: string where
  "one_text = text_lines [''[verifiers]'', quoted_key ''a'' @ '' = '' @ quoted_key ''true'']"

definition resolve_rejects_unknown_and_unlisted_inline :: "(string \<Rightarrow> toml option) \<Rightarrow> bool" where
  "resolve_rejects_unknown_and_unlisted_inline parse_toml \<longleftrightarrow>
     (let r = load_registry parse_toml (Some one_text) in
      \<not> is_ok (resolve_command ''ghost'' None r) \<and>
      \<not> is_ok (resolve_command ''shell'' (Some ''curl evil | bash'') r) \<and>
      is_ok (resolve_command ''shell'' (Some ''true'') r) \<and>
      is_ok (resolve_command ''shell'' (Some ''anything'') []))"

lemma resolve_rejects_holds:
  "parse_toml one_text = Some (toml_verifiers [(''a'', TString ''true'')]) \<Longrightarrow>
   resolve_rejects_unknown_and_unlisted_inline parse_toml"
  by (simp add: resolve_rejects_unknown_and_unlisted_inline_def load_toml_verifiers entry_simps resolve_command_def
      is_ok_def ok_or_def)

definition inline_text :: string where
  "inline_text = text_lines
     [''[verifiers.'' @ quoted_key ''wasm'' @ '']'', ''type = '' @ quoted_key ''file-hash'',
      ''files = ['' @ quoted_key ''a'' @ '']'', ''expect_sha256 = '' @ quoted_key ''b'']"

definition non_shell_verifier_refuses_inline_override :: "(string \<Rightarrow> toml option) \<Rightarrow> bool" where
  "non_shell_verifier_refuses_inline_override parse_toml \<longleftrightarrow>
     (case resolve_command ''wasm'' (Some ''true'') (load_registry parse_toml (Some inline_text)) of
        Inl (InlineOnKind _ _) \<Rightarrow> True | _ \<Rightarrow> False)"

lemma non_shell_refuses_holds:
  "parse_toml inline_text = Some (file_hash_toml ''a'' ''b'') \<Longrightarrow> non_shell_verifier_refuses_inline_override parse_toml"
  by (simp add: non_shell_verifier_refuses_inline_override_def file_hash_toml_def load_toml_verifiers entry_simps
      resolve_command_def ok_or_def)

definition unknown_verifier_type_is_hard_error :: bool where
  "unknown_verifier_type_is_hard_error \<longleftrightarrow>
     (case verifier_for ((shell_spec ''true'')\<lparr>vs_kind := ''wasm-magic''\<rparr>) of
        Inl (UnknownKind _) \<Rightarrow> True | _ \<Rightarrow> False)"

lemma unknown_type_holds: "unknown_verifier_type_is_hard_error"
  by (simp add: unknown_verifier_type_is_hard_error_def verifier_for_def)

subsection \<open>Fingerprints and watched files\<close>

definition fingerprint_stable_and_discriminating :: "(string \<Rightarrow> nat list) \<Rightarrow> bool" where
  "fingerprint_stable_and_discriminating digest \<longleftrightarrow>
     (let a = spec ''cargo test''; b = spec ''cargo test''; c = (spec ''cargo test'')\<lparr>vs_expect := ''x''\<rparr>;
          fp = spec_fingerprint digest in
      fp ''k'' a ''alice'' = fp ''k'' b ''alice'' \<and> fp ''k1'' a ''alice'' \<noteq> fp ''k2'' a ''alice'' \<and>
      fp ''k'' a ''alice'' \<noteq> fp ''k'' c ''alice'' \<and> fp ''k'' a ''alice'' \<noteq> fp ''k'' a ''bob'')"

text \<open>The digest does not collide on what the test hashes, in the 12 digits that are kept.\<close>

definition no_collision :: "(string \<Rightarrow> nat list) \<Rightarrow> nat \<Rightarrow> string list \<Rightarrow> bool" where
  "no_collision digest n xs \<longleftrightarrow> distinct (map (\<lambda>s. take n (sha256_hex digest s)) xs)"

definition fingerprint_seeds :: "string list" where
  "fingerprint_seeds =
     [''k|cargo test||||actor:alice'', ''k1|cargo test||||actor:alice'', ''k2|cargo test||||actor:alice'',
      ''k|cargo test|x|||actor:alice'', ''k|cargo test||||actor:bob'']"

lemma fingerprint_holds:
  "no_collision digest 12 fingerprint_seeds \<Longrightarrow> fingerprint_stable_and_discriminating digest"
  by (simp add: fingerprint_stable_and_discriminating_def spec_fingerprint_def fingerprint_seed_def spec_def
      shell_spec_def no_collision_def fingerprint_seeds_def Let_def)

definition watched_tree :: "string \<Rightarrow> tree" where
  "watched_tree content = [(''.uni'', Dir []), (''src'', Dir [(''a.rs'', File (Some content))])]"

definition artifact_hash_tracks_watched_content :: "(string \<Rightarrow> nat list) \<Rightarrow> bool" where
  "artifact_hash_tracks_watched_content digest \<longleftrightarrow>
     (let s0 = spec ''true''; s = s0\<lparr>vs_files := [''src/**'']\<rparr>;
          h1 = artifact_hash digest s (watched_tree ''one''); h2 = artifact_hash digest s (watched_tree ''two'');
          h3 = artifact_hash digest s (watched_tree ''two'' @ [(''target'', Dir [(''x'', File (Some ''zzz''))])]) in
      artifact_hash digest s0 (watched_tree ''one'') = None \<and> h1 \<noteq> None \<and> h2 \<noteq> None \<and> h1 \<noteq> h2 \<and> h3 = h2)"

lemma watched_walk:
  "walk [''target'', ''.git'', ''.uni''] [''src/**''] [([], watched_tree c)] = [(''src/a.rs'', Some c)]"
  "walk [''target'', ''.git'', ''.uni''] [''src/**''] [([], watched_tree c @ [(''target'', Dir [(''x'', File (Some z))])])] =
     [(''src/a.rs'', Some c)]"
proof -
  have m: "matches_glob ''src/a.rs'' ''src/**''" by code_simp
  have r: "rel_path ''src'' ''a.rs'' = ''src/a.rs''" by code_simp
  show "walk [''target'', ''.git'', ''.uni''] [''src/**''] [([], watched_tree c)] = [(''src/a.rs'', Some c)]"
    "walk [''target'', ''.git'', ''.uni''] [''src/**''] [([], watched_tree c @ [(''target'', Dir [(''x'', File (Some z))])])] =
     [(''src/a.rs'', Some c)]"
    by (simp_all add: walk.simps watched_tree_def watched_def subdirs_def map_filter_Cons m r)
qed

lemma artifact_hash_tracks_holds:
  assumes "no_collision digest 64 (map (\<lambda>c. hash_line digest (''src/a.rs'', Some c)) [''one'', ''two''])"
    and "\<And>t. length (sha256_hex digest t) = 64"
  shows "artifact_hash_tracks_watched_content digest"
  using assms
  by (simp add: artifact_hash_tracks_watched_content_def artifact_hash_def watched_walk spec_def shell_spec_def
      no_collision_def Let_def)

subsection \<open>Running\<close>

text \<open>What the shell does with the commands of the tests, within a limit in seconds.\<close>

definition mark_command :: string where
  "mark_command = ''printf '' @ [CHR 0x27] @ ''aaaa'' @ [CHR 0x27] @ '' && echo MARK''"

definition test_shell :: "string \<Rightarrow> nat \<Rightarrow> proc_run" where
  "test_shell cmd limit =
     (if cmd = mark_command then Exited (Some 0) (''aaaaMARK'' @ [nl])
      else if cmd = ''true'' then Exited (Some 0) []
      else if cmd = ''false'' then Exited (Some 1) []
      else if cmd = ''sleep 30'' then (if limit < 30 then TimedOut [] else Exited (Some 0) [])
      else Exited (Some 127) [])"

definition test_os :: "(string \<Rightarrow> nat list) \<Rightarrow> tree \<Rightarrow> (string \<Rightarrow> string + string) \<Rightarrow> nat os" where
  "test_os digest tree files =
     \<lparr>os_digest = digest, os_git_head = (\<lambda>_. Some []), os_git_status = (\<lambda>_. Some []), os_now = int,
      os_tree = (\<lambda>_. tree), os_read = (\<lambda>_. files), os_sh = (\<lambda>cmd limit w. (test_shell cmd limit, Suc w)),
      os_elapsed_ms = (\<lambda>_ _. 1), os_add_hours = (\<lambda>t h. Some (t + 3600 * int h))\<rparr>"

definition empty_dir :: "string \<Rightarrow> string + string" where
  "empty_dir path = Inl ''No such file or directory (os error 2)''"

text \<open>An assertion on the evidence of a run; a run that fails fails the test.\<close>

definition run_is :: "nat os \<Rightarrow> actor \<Rightarrow> verifier_spec \<Rightarrow> (evidence \<Rightarrow> bool) \<Rightarrow> bool" where
  "run_is os who s P \<longleftrightarrow>
     (case run_spec os ''c'' ''k'' s who who 0 of Inr (ev, w) \<Rightarrow> P ev | Inl e \<Rightarrow> False)"

definition run_spec_applies_expect_matchers_on_full_output :: "(string \<Rightarrow> nat list) \<Rightarrow> actor \<Rightarrow> bool" where
  "run_spec_applies_expect_matchers_on_full_output digest who \<longleftrightarrow>
     (let os = test_os digest [(''.uni'', Dir [])] empty_dir;
          s = (spec mark_command)\<lparr>vs_expect := ''MARK''\<rparr>;
          s2 = s\<lparr>vs_expect_not := ''MARK''\<rparr>; s3 = (spec ''false'')\<lparr>vs_expect := []\<rparr> in
      run_is os who s (\<lambda>ev. ev_state ev = Valid) \<and> run_is os who s2 (\<lambda>ev. ev_state ev = Invalid) \<and>
      run_is os who s3 (\<lambda>ev. ev_state ev = Invalid \<and> ev_fingerprint ev \<noteq> []))"

lemma run_shell_test:
  assumes "test_shell (vs_run s) (max (vs_timeout s) 1) = Exited (Some code) out"
    and "vs_kind s = ''shell''" and "vs_files s = []" and "vs_max_age_hours s = 0"
    and "\<And>ev. ev_state ev = (if code = 0 \<and> conditions_met s out then Valid else Invalid) \<Longrightarrow>
      ev_fingerprint ev = spec_fingerprint digest ''k'' s (ac_id who) \<Longrightarrow> ev_expires_at ev = None \<Longrightarrow> P ev"
  shows "run_is (test_os digest tree files) who s P"
proof -
  obtain ev where r: "run_spec (test_os digest tree files) ''c'' ''k'' s who who 0 = Inr (ev, 1)"
    using assms(1-4)
    by (simp add: run_spec_def verifier_for_def verifier_run_def run_shell_verifier_def run_shell_def test_os_def
        Let_def expiry_def)
  obtain v oc where o: "verifier_for s = Inr v" "verifier_run (test_os digest tree files) v s 0 = Inr (oc, 1)"
    and f: "ev_fingerprint ev = spec_fingerprint digest ''k'' s (ac_id who)"
      "ev_state ev = (if conditions_met s (oc_output oc) then oc_state oc else Invalid)"
    using run_spec_Inr [OF r] assms(3) by (auto simp: test_os_def)
  have "oc_output oc = out \<and> oc_state oc = (if code = 0 then Valid else Invalid)"
    using o assms(1,2) by (auto simp: verifier_for_def verifier_run_def run_shell_verifier_def run_shell_def test_os_def)
  then have "P ev" using f run_spec_no_expiry [OF r assms(4)] by (intro assms(5)) auto
  then show ?thesis using r by (simp add: run_is_def)
qed

lemma spec_simps [simp]:
  "vs_kind (spec c) = ''shell''" "vs_run (spec c) = c" "vs_files (spec c) = []" "vs_max_age_hours (spec c) = 0"
  "vs_expect (spec c) = []" "vs_expect_not (spec c) = []" "vs_timeout (spec c) = 30"
  by (simp_all add: spec_def shell_spec_def)

lemma test_shell_simps:
  "test_shell mark_command n = Exited (Some 0) (''aaaaMARK'' @ [nl])" "test_shell ''false'' n = Exited (Some 1) []"
  "test_shell ''true'' n = Exited (Some 0) []" "test_shell ''sleep 30'' 1 = TimedOut []"
  by (simp_all add: test_shell_def mark_command_def)

lemma run_spec_matchers_hold:
  assumes "\<And>t. length (sha256_hex digest t) = 64"
  shows "run_spec_applies_expect_matchers_on_full_output digest who"
proof -
  let ?s = "(spec mark_command)\<lparr>vs_expect := ''MARK''\<rparr>"
  have c: "contains (''aaaaMARK'' @ [nl]) ''MARK''" by code_simp
  have fp: "spec_fingerprint digest ''k'' s a \<noteq> []" for s a
    using assms by (metis length_greater_0_conv list.size(3) spec_fingerprint_def take_eq_Nil zero_neq_numeral)
  have 1: "run_is (test_os digest tree files) who ?s (\<lambda>ev. ev_state ev = Valid)" for tree files
    by (rule run_shell_test [where code = 0 and out = "''aaaaMARK'' @ [nl]"])
      (use c in \<open>simp_all add: test_shell_simps conditions_met_def del: append.simps\<close>)
  have 2: "run_is (test_os digest tree files) who (?s\<lparr>vs_expect_not := ''MARK''\<rparr>) (\<lambda>ev. ev_state ev = Invalid)" for tree files
    by (rule run_shell_test [where code = 0 and out = "''aaaaMARK'' @ [nl]"])
      (use c in \<open>simp_all add: test_shell_simps conditions_met_def del: append.simps\<close>)
  have 3: "run_is (test_os digest tree files) who ((spec ''false'')\<lparr>vs_expect := []\<rparr>)
      (\<lambda>ev. ev_state ev = Invalid \<and> ev_fingerprint ev \<noteq> [])" for tree files
    by (rule run_shell_test [where code = 1 and out = "[]"]) (simp_all add: test_shell_simps fp)
  from 1 2 3 show ?thesis by (simp add: run_spec_applies_expect_matchers_on_full_output_def Let_def)
qed

definition hanging_verifier_is_killed_and_invalid :: "(string \<Rightarrow> nat list) \<Rightarrow> bool" where
  "hanging_verifier_is_killed_and_invalid digest \<longleftrightarrow>
     (case run_shell (test_os digest [(''.uni'', Dir [])] empty_dir) ''sleep 30'' 1 0 of
        Inr ((code, full), w) \<Rightarrow> code = -1 \<and> contains full ''killed after 1s timeout''
      | Inl e \<Rightarrow> False)"

lemma hanging_verifier_holds: "hanging_verifier_is_killed_and_invalid digest"
proof -
  have "contains ([] @ [nl] @ ''[uni] verifier killed after '' @ show_nat 1 @ ''s timeout'') ''killed after 1s timeout''"
    by code_simp
  then show ?thesis
    using test_shell_simps(4)
    by (simp add: hanging_verifier_is_killed_and_invalid_def run_shell_def test_os_def del: append.simps show_nat.simps)
qed

definition fast_verifier_passes_with_exit_zero :: "(string \<Rightarrow> nat list) \<Rightarrow> bool" where
  "fast_verifier_passes_with_exit_zero digest \<longleftrightarrow>
     (case run_shell (test_os digest [(''.uni'', Dir [])] empty_dir) ''true'' 30 0 of
        Inr ((code, full), w) \<Rightarrow> code = 0 | Inl e \<Rightarrow> False)"

lemma fast_verifier_holds: "fast_verifier_passes_with_exit_zero digest"
  by (simp add: fast_verifier_passes_with_exit_zero_def run_shell_def test_os_def test_shell_simps)

definition run_spec_stamps_the_expiry_from_the_spec :: "(string \<Rightarrow> nat list) \<Rightarrow> actor \<Rightarrow> bool" where
  "run_spec_stamps_the_expiry_from_the_spec digest who \<longleftrightarrow>
     (let os = test_os digest [(''.uni'', Dir [])] empty_dir; s = (shell_spec ''true'')\<lparr>vs_max_age_hours := 2\<rparr> in
      run_is os who s (\<lambda>ev. case ev_expires_at ev of
          Some t \<Rightarrow> (t - ev_created_at ev) div 3600 = 2 | None \<Rightarrow> False) \<and>
      run_is os who (shell_spec ''true'') (\<lambda>ev. ev_expires_at ev = None))"

lemma run_spec_expiry_holds: "run_spec_stamps_the_expiry_from_the_spec digest who"
proof -
  have "run_is (test_os digest tree files) who (shell_spec ''true'') (\<lambda>ev. ev_expires_at ev = None)" for tree files
    by (rule run_shell_test [where code = 0 and out = "[]"]) (simp_all add: shell_spec_def test_shell_simps)
  moreover have "run_is (test_os digest tree files) who ((shell_spec ''true'')\<lparr>vs_max_age_hours := 2\<rparr>)
      (\<lambda>ev. case ev_expires_at ev of Some t \<Rightarrow> (t - ev_created_at ev) div 3600 = 2 | None \<Rightarrow> False)" for tree files
    by (simp add: run_is_def run_spec_def verifier_for_def verifier_run_def run_shell_verifier_def run_shell_def
        shell_spec_def test_os_def test_shell_simps expiry_def ok_or_def Let_def bind_r_def)
  ultimately show ?thesis by (simp add: run_spec_stamps_the_expiry_from_the_spec_def Let_def)
qed

subsection \<open>Expected hashes\<close>

definition artifact_dir :: "string \<Rightarrow> string + string" where
  "artifact_dir path = (if path = ''artifact.bin'' then Inr ''contents'' else empty_dir path)"

definition file_hash_adapter_matches_and_mismatches :: "(string \<Rightarrow> nat list) \<Rightarrow> actor \<Rightarrow> bool" where
  "file_hash_adapter_matches_and_mismatches digest who \<longleftrightarrow>
     (let os = test_os digest [(''.uni'', Dir []), (''artifact.bin'', File (Some ''contents''))] artifact_dir;
          good = sha256_hex digest ''contents'' in
      run_is os who (file_hash_spec ''artifact.bin'' good)
        (\<lambda>ev. ev_state ev = Valid \<and> ev_producer ev = ''file-hash-verifier'' \<and> starts_with ''file-hash:'' (ev_command ev)) \<and>
      run_is os who (file_hash_spec ''artifact.bin'' (sha256_hex digest ''tampered''))
        (\<lambda>ev. ev_state ev = Invalid \<and> contains (ev_output_excerpt ev) ''MISMATCH'') \<and>
      run_is os who (file_hash_spec ''absent.bin'' good)
        (\<lambda>ev. ev_state ev = Invalid \<and> contains (ev_output_excerpt ev) ''MISSING''))"

lemma run_file_hash_test:
  assumes "check_hash (test_os digest tree files) 0 (path, hash) (True, []) = Inr (ok, [out])"
    and "\<And>ev. ev_state ev = (if ok \<and> watched_hash (test_os digest tree files) (file_hash_spec path hash) 0 \<noteq> [] then Valid else Invalid) \<Longrightarrow>
      ev_producer ev = ''file-hash-verifier'' \<Longrightarrow> ev_command ev = ''file-hash: '' @ path \<Longrightarrow>
      ev_output_excerpt ev = take 2000 out \<Longrightarrow> P ev"
  shows "run_is (test_os digest tree files) who (file_hash_spec path hash) P"
proof -
  let ?os = "test_os digest tree files" and ?s = "file_hash_spec path hash"
  have v: "verifier_for ?s = Inr FileHashVerifier" by (simp add: file_hash_spec_def verifier_for_def)
  have o: "verifier_run ?os FileHashVerifier ?s 0 = Inr
      (\<lparr>oc_state = (if ok then Valid else Invalid), oc_exit_code = (if ok then 0 else 1),
        oc_command = ''file-hash: '' @ path, oc_output = out\<rparr>, 0)"
    using assms(1) by (simp add: verifier_run_def run_file_hash_verifier_def file_hash_spec_def bt_keys_def)
  have n: "vs_expect ?s = []" "vs_expect_not ?s = []" "vs_max_age_hours ?s = 0" "vs_files ?s = [path]"
    by (simp_all add: file_hash_spec_def shell_spec_def)
  obtain ev where r: "run_spec ?os ''c'' ''k'' ?s who who 0 = Inr (ev, 0)"
    and e: "ev_producer ev = ''file-hash-verifier''" "ev_command ev = ''file-hash: '' @ path"
    by (simp add: run_spec_def v o n expiry_def Let_def build_evidence_def verifier_name_def invalidate_if_def
        split: prod.split)
  have "ev_state ev = (if ok \<and> watched_hash ?os ?s 0 \<noteq> [] then Valid else Invalid)" "ev_output_excerpt ev = take 2000 out"
    using run_spec_Inr [OF r] v o n by (auto simp: conditions_met_def)
  from assms(2) [OF this(1) e this(2)] r show ?thesis by (simp add: run_is_def)
qed

lemma byte_drop_ascii:
  "\<forall>c\<in>set s. (of_char c :: nat) < 128 \<Longrightarrow> k \<le> length s \<Longrightarrow> byte_drop k s = Some (drop k s)"
proof (induction s arbitrary: k)
  case (Cons c s)
  then show ?case by (cases k) simp_all
qed simp

lemma byte_take_ascii:
  assumes "\<forall>c\<in>set s. (of_char c :: nat) < 128"
  shows "byte_take (min 12 (utf8_len s)) s = Some (take 12 s)"
proof -
  have "utf8_len s = length s" using assms by (induction s) (simp_all add: utf8_len_def)
  then show ?thesis
    using byte_drop_ascii [OF assms, of "min 12 (length s)"] by (simp add: byte_take_def min_def)
qed

lemma hex_ascii:
  assumes "byte_digest digest" and "c \<in> set (sha256_hex digest s)"
  shows "(of_char c :: nat) < 128"
proof -
  have "c \<in> set ''0123456789abcdef''" using sha256_hex_range [OF assms(1)] assms(2) by blast
  moreover have "\<forall>c\<in>set ''0123456789abcdef''. (of_char c :: nat) < 128" by code_simp
  ultimately show ?thesis by blast
qed

lemma check_hash_read:
  assumes "byte_digest digest" and "files path = Inr text"
  shows "check_hash (test_os digest tree files) 0 (path, sha256_hex digest t) (True, []) =
    Inr (sha256_hex digest text = sha256_hex digest t,
      [path @ '': '' @ (if sha256_hex digest text = sha256_hex digest t then ''MATCH'' else ''MISMATCH'') @
       '' (expected '' @ take 12 (sha256_hex digest t) @ '')''])"
proof -
  have "\<forall>c\<in>set (sha256_hex digest t). (of_char c :: nat) < 128" using hex_ascii [OF assms(1)] by blast
  from byte_take_ascii [OF this] show ?thesis by (simp add: check_hash_def test_os_def assms(2) ok_or_def Let_def)
qed

lemma file_hash_adapter_holds:
  assumes "byte_digest digest" and "\<And>t. length (sha256_hex digest t) = 64"
    and "no_collision digest 64 [''contents'', ''tampered'']"
  shows "file_hash_adapter_matches_and_mismatches digest who"
proof -
  let ?tree = "[(''.uni'', Dir []), (''artifact.bin'', File (Some ''contents''))]"
  let ?os = "test_os digest ?tree artifact_dir" and ?good = "sha256_hex digest ''contents''"
  have d: "?good \<noteq> sha256_hex digest ''tampered''" using assms(2,3) by (simp add: no_collision_def)
  have m: "matches_glob ''artifact.bin'' ''artifact.bin''" "rel_path [] ''artifact.bin'' = ''artifact.bin''"
    by code_simp+
  have w: "watched_hash ?os (file_hash_spec ''artifact.bin'' h) 0 \<noteq> []" for h
  proof -
    have "walk [''target'', ''.git'', ''.uni''] [''artifact.bin''] [([], ?tree)] = [(''artifact.bin'', Some ''contents'')]"
      by (simp add: walk.simps watched_def subdirs_def map_filter_Cons m)
    moreover have "sha256_hex digest t \<noteq> []" for t using assms(2) [of t] by auto
    ultimately show ?thesis
      by (simp add: watched_hash_def artifact_hash_def file_hash_spec_def test_os_def)
  qed
  have p: "starts_with ''file-hash:'' (''file-hash: '' @ p)" for p
    by (simp add: starts_with_def)
  have 1: "run_is ?os who (file_hash_spec ''artifact.bin'' ?good)
        (\<lambda>ev. ev_state ev = Valid \<and> ev_producer ev = ''file-hash-verifier'' \<and> starts_with ''file-hash:'' (ev_command ev))"
    by (rule run_file_hash_test, rule check_hash_read [OF assms(1), of _ _ "''contents''"])
      (simp_all only: artifact_dir_def refl if_True w p simp_thms)
  have c: "contains (take 2000 (''artifact.bin'' @ '': '' @ ''MISMATCH'' @ '' (expected '' @ take 12 x @ '')'')) ''MISMATCH''" for x
  proof -
    have "take 2000 (''artifact.bin'' @ '': '' @ ''MISMATCH'' @ '' (expected '' @ take 12 x @ '')'') =
        (''artifact.bin'' @ '': '') @ ''MISMATCH'' @ '' (expected '' @ take 12 x @ '')''" by simp
    then show ?thesis unfolding contains_iff by blast
  qed
  have 2: "run_is ?os who (file_hash_spec ''artifact.bin'' (sha256_hex digest ''tampered''))
        (\<lambda>ev. ev_state ev = Invalid \<and> contains (ev_output_excerpt ev) ''MISMATCH'')"
    by (rule run_file_hash_test, rule check_hash_read [OF assms(1), of _ _ "''contents''"])
      (simp_all only: artifact_dir_def refl if_True if_False d c simp_thms)
  have a: "artifact_dir ''absent.bin'' = Inl ''No such file or directory (os error 2)''"
    by (simp add: artifact_dir_def empty_dir_def)
  have "contains (take 2000 (''absent.bin'' @ '': MISSING ('' @ ''No such file or directory (os error 2)'' @ '')'')) ''MISSING''"
    by code_simp
  then have 3: "run_is ?os who (file_hash_spec ''absent.bin'' ?good)
        (\<lambda>ev. ev_state ev = Invalid \<and> contains (ev_output_excerpt ev) ''MISSING'')"
    by (intro run_file_hash_test [where ok = False and
          out = "''absent.bin'' @ '': MISSING ('' @ ''No such file or directory (os error 2)'' @ '')''"])
      (simp_all only: check_hash_def test_os_def os.simps a prod.case sum.case append_Nil if_False simp_thms refl)
  from 1 2 3 show ?thesis by (simp only: file_hash_adapter_matches_and_mismatches_def Let_def simp_thms)
qed

subsection \<open>Naming what changed\<close>

definition true_entries :: "(string \<times> string) list \<Rightarrow> string" where
  "true_entries es = text_lines (''[verifiers]'' # map (\<lambda>(k, v). quoted_key k @ '' = '' @ quoted_key v) es)"

definition diff_names_added_removed_changed :: "(string \<Rightarrow> toml option) \<Rightarrow> bool" where
  "diff_names_added_removed_changed parse_toml \<longleftrightarrow>
     (let old = true_entries [(''a'', ''true''), (''b'', ''false''), (''c'', ''true'')];
          new = true_entries [(''a'', ''true''), (''b'', ''true''), (''d'', ''true'')];
          d = registry_diff_of parse_toml old new in
      rd_added d = [''d''] \<and> rd_removed d = [''c''] \<and> rd_changed d = [''b''])"

text \<open>What the parser makes of such a text: the entries, all of them strings.\<close>

definition parses_entries :: "(string \<Rightarrow> toml option) \<Rightarrow> (string \<times> string) list \<Rightarrow> bool" where
  "parses_entries parse_toml es \<longleftrightarrow>
     parse_toml (true_entries es) = Some (toml_verifiers (map (\<lambda>(k, v). (k, TString v)) es))"

lemmas diff_simps = registry_diff_of_def named_table_def toml_verifiers_def toml_get_def as_table_def bt_get_def
  bt_keys_def diff_table_def Let_def no_diff_def

lemma diff_names_holds:
  "parses_entries parse_toml [(''a'', ''true''), (''b'', ''false''), (''c'', ''true'')] \<Longrightarrow>
   parses_entries parse_toml [(''a'', ''true''), (''b'', ''true''), (''d'', ''true'')] \<Longrightarrow>
   diff_names_added_removed_changed parse_toml"
  by (simp add: diff_names_added_removed_changed_def parses_entries_def diff_simps)

definition diff_empty_on_identical :: "(string \<Rightarrow> toml option) \<Rightarrow> bool" where
  "diff_empty_on_identical parse_toml \<longleftrightarrow>
     (let t = true_entries [(''a'', ''true'')] in registry_diff_of parse_toml t t = no_diff)"

lemma diff_self: "registry_diff_of parse_toml t t = no_diff"
proof -
  have "diff_table m m pre = \<lparr>rd_added = [], rd_removed = [], rd_changed = []\<rparr>" for m pre
    by (simp add: diff_table_def filter_empty_conv bt_get_None_keys del: not_None_eq)
  then show ?thesis by (simp add: registry_diff_of_def no_diff_def Let_def)
qed

lemma diff_empty_holds: "diff_empty_on_identical parse_toml"
  by (simp add: diff_empty_on_identical_def diff_self)

definition x_text :: "string \<Rightarrow> string" where
  "x_text expect = text_lines [''[verifiers.'' @ quoted_key ''x'' @ '']'', ''run = '' @ quoted_key ''a'',
     ''expect = '' @ quoted_key expect]"

definition x_toml :: "string \<Rightarrow> toml" where
  "x_toml expect = toml_verifiers [(''x'', TTable [(''expect'', TString expect), (''run'', TString ''a'')])]"

definition diff_table_form_compares_fields :: "(string \<Rightarrow> toml option) \<Rightarrow> bool" where
  "diff_table_form_compares_fields parse_toml \<longleftrightarrow>
     rd_changed (registry_diff_of parse_toml (x_text ''1'') (x_text ''1'')) = [] \<and>
     rd_changed (registry_diff_of parse_toml (x_text ''1'') (x_text ''2'')) = [''x'']"

lemma diff_table_form_holds:
  "parse_toml (x_text ''1'') = Some (x_toml ''1'') \<Longrightarrow> parse_toml (x_text ''2'') = Some (x_toml ''2'') \<Longrightarrow>
   diff_table_form_compares_fields parse_toml"
  by (simp add: diff_table_form_compares_fields_def diff_self x_toml_def diff_simps)

definition identities_text :: "(string \<times> string) list \<Rightarrow> string" where
  "identities_text ids = true_entries [(''a'', ''true'')] @
     concat (map (\<lambda>(i, f). text_lines [[], ''[identities.'' @ quoted_key i @ '']'', ''jwks_file = '' @ quoted_key f]) ids)"

definition identities_toml :: "(string \<times> string) list \<Rightarrow> toml" where
  "identities_toml ids = TTable
     [(''identities'', TTable (map (\<lambda>(i, f). (i, TTable [(''jwks_file'', TString f)])) ids)),
      (''verifiers'', TTable [(''a'', TString ''true'')])]"

definition one_issuer :: "(string \<times> string) list" where
  "one_issuer = [(''https://one'', ''one.jwks.json'')]"

definition two_issuers :: "(string \<times> string) list" where
  "two_issuers = [(''https://one'', ''rotated.jwks.json''), (''https://two'', ''two.jwks.json'')]"

definition diff_names_identity_changes :: "(string \<Rightarrow> toml option) \<Rightarrow> bool" where
  "diff_names_identity_changes parse_toml \<longleftrightarrow>
     (let old = identities_text one_issuer; new = identities_text two_issuers;
          d = registry_diff_of parse_toml old new in
      rd_added d = [''identity:https://two''] \<and> rd_changed d = [''identity:https://one''] \<and> rd_removed d = [] \<and>
      rd_removed (registry_diff_of parse_toml new old) = [''identity:https://two''] \<and>
      registry_diff_of parse_toml new new = no_diff)"

lemma diff_identities_holds:
  "parse_toml (identities_text one_issuer) = Some (identities_toml one_issuer) \<Longrightarrow>
   parse_toml (identities_text two_issuers) = Some (identities_toml two_issuers) \<Longrightarrow>
   diff_names_identity_changes parse_toml"
  by (simp add: diff_names_identity_changes_def diff_self) (simp add: identities_toml_def one_issuer_def two_issuers_def diff_simps)

subsection \<open>Selectors\<close>

definition tpl :: verifier_spec where
  "tpl = (shell_spec ''cargo test {{selector}} -- --exact'')\<lparr>vs_expect := ''test result: ok. 1 passed''\<rparr>"

definition template_detection_and_substitution :: bool where
  "template_detection_and_substitution \<longleftrightarrow>
     is_selector_template tpl \<and> \<not> is_selector_template (shell_spec ''cargo test'') \<and>
     (case with_selector tpl (Some ''cancel_ok'') of
        Inr r \<Rightarrow> vs_run r = ''cargo test cancel_ok -- --exact'' \<and> \<not> is_selector_template r
      | Inl e \<Rightarrow> False)"

lemma template_detection_holds: "template_detection_and_substitution"
  by code_simp

definition pinned_names_detected_suites_not :: bool where
  "pinned_names_detected_suites_not \<longleftrightarrow>
     pinned_test_selector (shell_spec ''cargo test add_works -- --exact'') \<and>
     pinned_test_selector (shell_spec (''node --test --test-name-pattern '' @ [dquote] @ ''spaces become dashes'' @ [dquote] @ '' x.test.mjs'')) \<and>
     pinned_test_selector (shell_spec ''python3 -m unittest test_pricing.Pricing.test_floor'') \<and>
     \<not> pinned_test_selector (shell_spec ''cargo test'') \<and>
     \<not> pinned_test_selector (shell_spec ''cargo test --test invariants'') \<and>
     \<not> pinned_test_selector (shell_spec (''python3 -m unittest discover -p '' @ [CHR 0x27] @ ''test_*.py'' @ [CHR 0x27])) \<and>
     \<not> pinned_test_selector tpl \<and> \<not> pinned_test_selector (shell_spec ''true'')"

lemma pinned_names_holds: "pinned_names_detected_suites_not"
  by code_simp

definition template_without_selector_is_a_hard_error :: bool where
  "template_without_selector_is_a_hard_error \<longleftrightarrow>
     (case with_selector tpl None of Inl (NoSelector _) \<Rightarrow> True | _ \<Rightarrow> False) \<and>
     \<not> is_ok (with_selector tpl (Some ''  '')) \<and> is_ok (with_selector (shell_spec ''true'') None)"

lemma template_without_selector_holds: "template_without_selector_is_a_hard_error"
  by code_simp

definition selector_changes_the_cache_fingerprint :: "(string \<Rightarrow> nat list) \<Rightarrow> bool" where
  "selector_changes_the_cache_fingerprint digest \<longleftrightarrow>
     (case (with_selector tpl (Some ''test_a''), with_selector tpl (Some ''test_b'')) of
        (Inr a, Inr b) \<Rightarrow> spec_fingerprint digest ''k'' a ''alice'' \<noteq> spec_fingerprint digest ''k'' b ''alice''
      | _ \<Rightarrow> False)"

definition selector_seed :: "string \<Rightarrow> string" where
  "selector_seed sel =
     ''k|cargo test '' @ sel @ '' -- --exact|test result: ok. 1 passed|||actor:alice''"

lemma selector_fingerprint_holds:
  assumes "no_collision digest 12 [selector_seed ''test_a'', selector_seed ''test_b'']"
  shows "selector_changes_the_cache_fingerprint digest"
proof -
  have t: "is_selector_template tpl" "trim ''test_a'' \<noteq> []" "trim ''test_b'' \<noteq> []" by code_simp+
  have r: "fingerprint_seed ''k'' (tpl\<lparr>vs_run := replace_str (vs_run tpl) SELECTOR_TOKEN ''test_a''\<rparr>) ''alice'' = selector_seed ''test_a''"
    "fingerprint_seed ''k'' (tpl\<lparr>vs_run := replace_str (vs_run tpl) SELECTOR_TOKEN ''test_b''\<rparr>) ''alice'' = selector_seed ''test_b''"
    by code_simp+
  show ?thesis
    using assms
    by (simp only: selector_changes_the_cache_fingerprint_def with_selector_def t if_False option.case prod.case sum.case
        spec_fingerprint_def r no_collision_def not_True_eq_False) simp
qed

end
