(* ===== verification/Store_Tests.thy ===== *)
theory Store_Tests
  imports Verify_Tests Bindings
begin

section \<open>The tests of the evidence cache and of the bindings (uni-evidence)\<close>

text \<open>
  The unit tests of \<open>lib.rs\<close> and \<open>binding.rs\<close>, as predicates over the model. The clock, the
  local actor and the printer of an instant are parameters, and so is SHA-256: a test that
  compares two hashes holds for a digest that does not collide on the seeds it compares.
\<close>

subsection \<open>The cache\<close>

definition cache_ev :: "int \<Rightarrow> actor \<Rightarrow> evidence" where
  "cache_ev now who =
     \<lparr>ev_id = ''c-abc'', ev_claim_id = ''c'', ev_producer = ''shell-verifier'', ev_command = ''true'',
      ev_exit_code = 0, ev_output_hash = ''h'', ev_output_excerpt = [], ev_commit_sha = ''sha1'',
      ev_workspace_dirty = False, ev_state = Valid, ev_created_at = now, ev_duration_ms = 1,
      ev_artifact_hash = [], ev_artifact_files = [], ev_fingerprint = ''fp1'', ev_registry_hash = ''reg1'',
      ev_policy_hash = ''pol1'', ev_contract_hash = ''con1'', ev_platform = ''linux-x86_64'',
      ev_actor = who, ev_executor = who, ev_binding_hash = [], ev_expires_at = None\<rparr>"

definition cache_ctx :: evidence_context where
  "cache_ctx =
     \<lparr>cx_fingerprint = ''fp1'', cx_commit_sha = ''sha1'', cx_workspace_dirty = False,
      cx_artifact_hash = None, cx_artifact_files = [], cx_registry_hash = ''reg1'',
      cx_contract_hash = ''con1'', cx_platform = ''linux-x86_64'', cx_binding_hash = None\<rparr>"

definition is_hit :: "cache_outcome \<Rightarrow> bool" where
  "is_hit r \<longleftrightarrow> (case r of Hit _ \<Rightarrow> True | _ \<Rightarrow> False)"

definition is_stale_outcome :: "cache_outcome \<Rightarrow> bool" where
  "is_stale_outcome r \<longleftrightarrow> (case r of StaleProof _ \<Rightarrow> True | _ \<Rightarrow> False)"

text \<open>What the cache answers after one record has been saved for the claim and the fingerprint.\<close>

definition after_save :: "(int \<Rightarrow> string) \<Rightarrow> int \<Rightarrow> evidence \<Rightarrow> evidence_context \<Rightarrow> cache_outcome" where
  "after_save rfc3339 now e ctx =
     load_valid_for_claim rfc3339 now (save_file (evidence_path ''c'' ''fp1'') e []) ''c'' ctx"

definition evidence_path_isolates_fingerprint :: bool where
  "evidence_path_isolates_fingerprint \<longleftrightarrow>
     evidence_path ''x'' ''fp1'' \<noteq> evidence_path ''x'' ''fp2'' \<and>
     contains (evidence_path ''x'' ''fp1'') ''x__fp1''"

definition is_stale_matrix :: "int \<Rightarrow> actor \<Rightarrow> bool" where
  "is_stale_matrix now who \<longleftrightarrow>
     (let e = cache_ev now who in
      \<not> is_stale e ''sha1'' False \<and> is_stale e ''sha2'' False \<and> is_stale e ''sha1'' True)"

definition load_valid_for_claim_checks_everything :: "(int \<Rightarrow> string) \<Rightarrow> int \<Rightarrow> actor \<Rightarrow> bool" where
  "load_valid_for_claim_checks_everything rfc3339 now who \<longleftrightarrow>
     (let e = cache_ev now who; load = after_save rfc3339 now in
      is_hit (load e cache_ctx) \<and>
      load e (cache_ctx\<lparr>cx_fingerprint := ''WRONG''\<rparr>) = Miss \<and>
      is_stale_outcome (load e (cache_ctx\<lparr>cx_commit_sha := ''other''\<rparr>)) \<and>
      load (e\<lparr>ev_state := Invalid\<rparr>) cache_ctx = Miss)"

definition load_valid_for_claim_enforces_artifact_hash :: "(int \<Rightarrow> string) \<Rightarrow> int \<Rightarrow> actor \<Rightarrow> bool" where
  "load_valid_for_claim_enforces_artifact_hash rfc3339 now who \<longleftrightarrow>
     (let e = (cache_ev now who)\<lparr>ev_artifact_hash := ''aaa''\<rparr>; load = after_save rfc3339 now in
      is_hit (load e (cache_ctx\<lparr>cx_artifact_hash := Some ''aaa''\<rparr>)) \<and>
      is_stale_outcome (load e (cache_ctx\<lparr>cx_artifact_hash := Some ''bbb''\<rparr>)) \<and>
      is_stale_outcome (load e cache_ctx))"

definition verification_context_drift_invalidates :: "(int \<Rightarrow> string) \<Rightarrow> int \<Rightarrow> actor \<Rightarrow> bool" where
  "verification_context_drift_invalidates rfc3339 now who \<longleftrightarrow>
     (let load = after_save rfc3339 now (cache_ev now who) in
      is_stale_outcome (load (cache_ctx\<lparr>cx_contract_hash := ''con2''\<rparr>)) \<and>
      is_stale_outcome (load (cache_ctx\<lparr>cx_registry_hash := ''reg2''\<rparr>)) \<and>
      is_stale_outcome (load (cache_ctx\<lparr>cx_platform := ''darwin-arm64''\<rparr>)))"

text \<open>The test reads the clock again at each load: \<open>later\<close> is the time between, below the hour.\<close>

definition expired_evidence_is_stale_not_missing :: "(int \<Rightarrow> string) \<Rightarrow> int \<Rightarrow> int \<Rightarrow> int \<Rightarrow> actor \<Rightarrow> bool" where
  "expired_evidence_is_stale_not_missing rfc3339 hour now later who \<longleftrightarrow>
     (let e = cache_ev now who; load = after_save rfc3339 (now + later) in
      is_stale_outcome (load (e\<lparr>ev_expires_at := Some (now - hour)\<rparr>) cache_ctx) \<and>
      is_hit (load (e\<lparr>ev_expires_at := Some (now + hour)\<rparr>) cache_ctx) \<and>
      is_hit (load (e\<lparr>ev_expires_at := None\<rparr>) cache_ctx))"

definition legacy_evidence_without_context_still_loads :: "(int \<Rightarrow> string) \<Rightarrow> int \<Rightarrow> actor \<Rightarrow> bool" where
  "legacy_evidence_without_context_still_loads rfc3339 now who \<longleftrightarrow>
     is_hit (after_save rfc3339 now
       ((cache_ev now who)\<lparr>ev_registry_hash := [], ev_contract_hash := [], ev_platform := []\<rparr>) cache_ctx)"

definition save_json_round_trip :: "int \<Rightarrow> actor \<Rightarrow> bool" where
  "save_json_round_trip now who \<longleftrightarrow>
     (case load_file (save_file ''c__fp1.json'' (cache_ev now who) []) ''c__fp1.json'' of
        Some back \<Rightarrow> ev_claim_id back = ''c''
      | None \<Rightarrow> False)"

lemmas cache_test_simps = after_save_def load_valid_for_claim_def load_file_def save_file_def evidence_path_def
  cache_ev_def cache_ctx_def is_hit_def is_stale_outcome_def stale_reasons_def drift_commit_def drift_dirty_def
  drift_subject_def drift_contract_def drift_registry_def drift_platform_def drift_binding_def drift_expiry_def

lemma cache_tests_hold:
  "is_stale_matrix now who" "load_valid_for_claim_checks_everything rfc3339 now who"
  "load_valid_for_claim_enforces_artifact_hash rfc3339 now who"
  "verification_context_drift_invalidates rfc3339 now who"
  "legacy_evidence_without_context_still_loads rfc3339 now who" "save_json_round_trip now who"
  by (simp_all add: is_stale_matrix_def load_valid_for_claim_checks_everything_def
      load_valid_for_claim_enforces_artifact_hash_def verification_context_drift_invalidates_def
      legacy_evidence_without_context_still_loads_def save_json_round_trip_def is_stale_def Let_def cache_test_simps)

lemma evidence_path_test_holds: "evidence_path_isolates_fingerprint"
  by code_simp

lemma expiry_test_holds:
  "0 \<le> later \<Longrightarrow> later < hour \<Longrightarrow> expired_evidence_is_stale_not_missing rfc3339 hour now later who"
  by (simp add: expired_evidence_is_stale_not_missing_def Let_def cache_test_simps)

subsection \<open>The bindings\<close>

definition binding_hash_stable_and_discriminating :: "(string \<Rightarrow> nat list) \<Rightarrow> bool" where
  "binding_hash_stable_and_discriminating digest \<longleftrightarrow>
     (let a = binding_hash digest ''c'' ''v'' ''r'' None in
      a = binding_hash digest ''c'' ''v'' ''r'' None \<and> length a = 12 \<and>
      a \<noteq> binding_hash digest ''c'' ''v'' ''other'' None \<and> a \<noteq> binding_hash digest ''c'' ''w'' ''r'' None \<and>
      a \<noteq> binding_hash digest ''c'' ''v'' ''r'' (Some ''test_a'') \<and>
      binding_hash digest ''c'' ''v'' ''r'' (Some ''test_a'') \<noteq> binding_hash digest ''c'' ''v'' ''r'' (Some ''test_b''))"

text \<open>The reviewed file of the test, decoded.\<close>

definition reviewed_entry :: "string \<Rightarrow> string \<Rightarrow> binding_entry" where
  "reviewed_entry sel req =
     \<lparr>be_verifier = ''suite'', be_requirement = req, be_selector = Some sel, be_authorized_by = [],
      be_authorized_at = [], be_binding_hash = []\<rparr>"

definition reviewed_file :: binding_file where
  "reviewed_file = [(''a'', reviewed_entry ''test_a'' ''behaves''), (''b'', reviewed_entry ''test_b'' [])]"

definition legacy_file :: "(string \<Rightarrow> nat list) \<Rightarrow> string \<times> verifier_binding option" where
  "legacy_file digest = (''c.json'', Some (stamp digest ''c'' ''old'' [] None ''local:legacy'' ''2026-01-01T00:00:00Z''))"

definition no_bindings :: bindings_state where
  "no_bindings = \<lparr>bs_file = None, bs_legacy = []\<rparr>"

definition ref_of :: "bindings_state \<Rightarrow> string \<Rightarrow> string option" where
  "ref_of s c = map_option vb_verifier_ref (bt_get (load_all s) c)"

definition bulk_file_round_trip_and_legacy_precedence :: "(string \<Rightarrow> nat list) \<Rightarrow> string \<Rightarrow> bool" where
  "bulk_file_round_trip_and_legacy_precedence digest now \<longleftrightarrow>
     (case authorize_from_file digest now (Some reviewed_file) ''local:memo'' no_bindings of
        Inl _ \<Rightarrow> False
      | Inr (batch, s) \<Rightarrow>
          length batch = 2 \<and> length (load_all s) = 2 \<and>
          (case bt_get (load_all s) ''a'' of None \<Rightarrow> False
           | Some b \<Rightarrow> vb_selector b = Some ''test_a'' \<and> vb_requirement b = ''behaves'' \<and>
               vb_authorized_by b = ''local:memo'' \<and> vb_binding_hash b \<noteq> []) \<and>
          (let s1 = s\<lparr>bs_legacy := [legacy_file digest]\<rparr>;
               s2 = snd (authorize digest now ''c'' ''new'' [] None ''local:memo'' s1) in
           ref_of s1 ''c'' = Some ''old'' \<and> ref_of s2 ''c'' = Some ''new''))"

definition empty_reviewed_file_is_refused :: "(string \<Rightarrow> nat list) \<Rightarrow> string \<Rightarrow> bool" where
  "empty_reviewed_file_is_refused digest now \<longleftrightarrow>
     \<not> is_ok (authorize_from_file digest now (Some []) ''local:memo'' no_bindings)"

definition authorize_round_trip :: "(string \<Rightarrow> nat list) \<Rightarrow> string \<Rightarrow> bool" where
  "authorize_round_trip digest now \<longleftrightarrow>
     (let (b, s1) = authorize digest now ''c'' ''v'' ''behaves'' (Some ''test_a'') ''local:memo'' no_bindings;
          (b2, s2) = authorize digest now ''c'' ''v2'' ''behaves'' None ''local:memo'' s1 in
      vb_binding_hash b = binding_hash digest ''c'' ''v'' ''behaves'' (Some ''test_a'') \<and>
      load_binding s1 ''c'' = Some b \<and>
      vb_binding_hash b2 \<noteq> vb_binding_hash b \<and>
      map_option vb_verifier_ref (load_binding s2 ''c'') = Some ''v2'')"

text \<open>The seeds whose hashes the tests compare; a digest has at least six bytes.\<close>

definition binding_seeds :: "string list" where
  "binding_seeds =
     [''c|v|r|selector:'', ''c|v|other|selector:'', ''c|w|r|selector:'', ''c|v|r|selector:test_a'',
      ''c|v|r|selector:test_b'', ''c|v2|behaves|selector:'', ''c|v|behaves|selector:test_a'']"

lemma binding_hash_holds:
  assumes "no_collision digest 12 binding_seeds" and "6 \<le> length (digest ''c|v|r|selector:'')"
  shows "binding_hash_stable_and_discriminating digest"
proof -
  have "length (binding_hash digest ''c'' ''v'' ''r'' None) = 12"
    using assms(2) by (simp add: binding_hash_def binding_seed_def sha256_hex_def length_hex_encode)
  then show ?thesis
    using assms(1)
    by (simp add: binding_hash_stable_and_discriminating_def no_collision_def binding_seeds_def Let_def
        binding_hash_def binding_seed_def)
qed

lemma authorize_round_trip_holds:
  "no_collision digest 12 binding_seeds \<Longrightarrow> authorize_round_trip digest now"
  by (simp add: authorize_round_trip_def authorize_def no_collision_def binding_seeds_def Let_def stamp_def
      binding_hash_def binding_seed_def load_binding_def load_all_def write_binding_def no_bindings_def
      read_bindings_def bt_get_def to_binding_def to_entry_def)

lemma empty_reviewed_holds: "empty_reviewed_file_is_refused digest now"
  by (simp add: empty_reviewed_file_is_refused_def authorize_from_file_def read_bindings_def)

lemma bulk_file_holds:
  assumes "digest ''a|suite|behaves|selector:test_a'' \<noteq> []"
  shows "bulk_file_round_trip_and_legacy_precedence digest now"
proof -
  have "binding_hash digest ''a'' ''suite'' ''behaves'' (Some ''test_a'') \<noteq> []"
    using assms by (simp add: binding_hash_def binding_seed_def sha256_hex_def hex_encode_def)
  moreover have "path_extension ''c.json'' = Some ''json''" "path_stem ''c.json'' = ''c''" by code_simp+
  moreover have ord: "''a'' < (''b'' :: string)" "''b'' < (''c'' :: string)" "''a'' < (''c'' :: string)" by code_simp+
  ultimately show ?thesis
    by (simp add: bulk_file_round_trip_and_legacy_precedence_def authorize_from_file_def authorize_def stamp_entry_def
        stamp_def reviewed_file_def reviewed_entry_def no_bindings_def read_bindings_def load_all_def load_legacy_def
        legacy_file_def ref_of_def write_binding_def or_insert_def bt_get_def to_binding_def to_entry_def Let_def)
qed

end
