(* ===== verification/Contract_Tests.thy ===== *)
theory Contract_Tests
  imports IR Brief Identity Workspace
begin

section \<open>The tests of the parser, the representation, the selectors, the identities and the journal\<close>

text \<open>
  The unit tests of uni-parser, uni-ir, \<open>brief.rs\<close>, \<open>identity.rs\<close> and \<open>events.rs\<close>, as predicates
  over the model. The tokens of the identity tests are signed by jsonwebtoken: they are tokens
  of an instance of the crate's interface whose \<open>decode\<close> compares what the crate documents.
\<close>

definition source_text :: "string list \<Rightarrow> string" where
  "source_text ls = concat (map (\<lambda>l. l @ [nl]) ls)"

subsection \<open>Parsing and compiling\<close>

definition hello_source :: string where
  "hello_source = source_text
     [''VERSION 0.1'', ''DOMAIN software'', ''INTENT hello'', ''GOAL'', ''  Binary builds.'',
      ''CLAIM binary-builds REQUIRED'', ''  ENSURE binary builds'', ''VERIFY binary-builds'',
      ''  USING shell '' @ [CHR 0x22] @ ''cargo check'' @ [CHR 0x22], ''ACCEPT WHEN'',
      ''  required_claims == VERIFIED'', ''  AND critical_failures == 0'']"

definition parses_hello :: bool where
  "parses_hello \<longleftrightarrow>
     (case parse hello_source of Inr c \<Rightarrow> ct_intent c = ''hello'' \<and> length (ct_claims c) = 1 | Inl _ \<Rightarrow> False)"

lemma parses_hello_holds: "parses_hello"
  by code_simp

definition compiled :: "string \<Rightarrow> ir option" where
  "compiled src =
     (case parse src of Inl _ \<Rightarrow> None | Inr c \<Rightarrow> (case compile c of Inl _ \<Rightarrow> None | Inr i \<Rightarrow> Some i))"

definition compile_refusal :: "string \<Rightarrow> compile_error option" where
  "compile_refusal src =
     (case parse src of Inl _ \<Rightarrow> None | Inr c \<Rightarrow> (case compile c of Inl e \<Rightarrow> Some e | Inr _ \<Rightarrow> None))"

definition sample_source :: string where
  "sample_source = source_text
     [''VERSION 0.1'', ''DOMAIN software'', ''INTENT demo'', ''GOAL'', '' ship it'', ''CLAIM a REQUIRED'',
      ''  ENSURE x'', ''INVARIANT b CRITICAL'', ''  ENSURE y'', ''VERIFY a'', ''  USING project.tests'',
      ''VERIFY b'', ''  USING project.tests'', ''ACCEPT WHEN'', ''  required_claims == VERIFIED'',
      ''  AND critical_failures == 0'']"

definition compile_maps_everything :: bool where
  "compile_maps_everything \<longleftrightarrow>
     (case compiled sample_source of None \<Rightarrow> False
      | Some i \<Rightarrow>
          ir_uni_version i = ''0.1'' \<and> in_id (ir_intent i) = ''demo'' \<and> length (ir_claims i) = 2 \<and>
          ci_kind (ir_claims i ! 0) = ''claim'' \<and> \<not> ci_critical (ir_claims i ! 0) \<and>
          ci_kind (ir_claims i ! 1) = ''invariant'' \<and> ci_critical (ir_claims i ! 1) \<and>
          length (ir_verification i) = 2 \<and> ai_require_verified (ir_acceptance i))"

definition distinct_ids_still_compile :: bool where
  "distinct_ids_still_compile \<longleftrightarrow>
     (case compiled sample_source of None \<Rightarrow> False | Some i \<Rightarrow> length (ir_claims i) = 2)"

definition duplicate_source :: "string \<Rightarrow> string" where
  "duplicate_source second = source_text
     [''VERSION 0.1'', ''DOMAIN software'', ''INTENT dup'', ''GOAL'', ''  n'', ''CLAIM a REQUIRED'',
      ''  ENSURE one'', second, ''  ENSURE two'', ''VERIFY a'', ''  USING k'', ''ACCEPT WHEN'',
      ''  required_claims == VERIFIED'']"

definition duplicate_claim_ids_are_refused_with_both_lines :: bool where
  "duplicate_claim_ids_are_refused_with_both_lines \<longleftrightarrow>
     compile_refusal (duplicate_source ''CLAIM a REQUIRED'') = Some (DuplicateClaim 8 ''a'' 6)"

definition an_invariant_and_a_claim_may_not_share_an_id :: bool where
  "an_invariant_and_a_claim_may_not_share_an_id \<longleftrightarrow>
     compile_refusal (duplicate_source ''INVARIANT a CRITICAL'') \<noteq> None"

lemma compile_tests_hold:
  "compile_maps_everything" "distinct_ids_still_compile" "duplicate_claim_ids_are_refused_with_both_lines"
  "an_invariant_and_a_claim_may_not_share_an_id"
  by code_simp+

subsection \<open>The selector of a test command\<close>

definition dq :: "string \<Rightarrow> string" where
  "dq s = [CHR 0x22] @ s @ [CHR 0x22]"

definition sq :: "string \<Rightarrow> string" where
  "sq s = [CHR 0x27] @ s @ [CHR 0x27]"

definition selector_extraction_is_conservative :: bool where
  "selector_extraction_is_conservative \<longleftrightarrow>
     test_selector ''cargo test clamp_upper_works -- --exact'' = Some ''clamp_upper_works'' \<and>
     test_selector ''cargo test'' = None \<and> test_selector ''cargo check'' = None \<and> test_selector ''true'' = None \<and>
     test_selector (''node --test --test-name-pattern '' @ dq ''spaces become dashes'' @ '' x.mjs'') =
       Some ''spaces become dashes'' \<and>
     test_selector ''pytest -k bump_floor'' = Some ''bump_floor'' \<and>
     test_selector ''python3 -m unittest test_pricing.Pricing.test_floor'' = Some ''test_floor'' \<and>
     test_selector (''python3 -m unittest discover -p '' @ sq ''test_*.py'') = None"

lemma selector_extraction_holds: "selector_extraction_is_conservative"
  by code_simp

subsection \<open>Identities\<close>

text \<open>
  A signed token of the tests: its subject, its issuer, its audience, its life in seconds from
  now, and whether the signature still is the one of its text. \<open>signed\<close> is the crate for that
  one token, whose key set has the one key: what the crate documents of \<open>decode\<close> under the
  validation the code builds, which has a leeway of 60 seconds.
\<close>

definition signed :: "string \<Rightarrow> string \<Rightarrow> string option \<Rightarrow> int \<Rightarrow> bool \<Rightarrow> (unit, unit) jwt" where
  "signed sub iss aud exp_secs genuine =
     \<lparr>jw_header = (\<lambda>_. Some \<lparr>jh_alg = ''RS256'', jh_kid = Some ''uni-test-key''\<rparr>),
      jw_keys = (\<lambda>_. Some [(Some ''uni-test-key'', ())]), jw_decoding_key = Some,
      jw_decode = (\<lambda>_ _ alg issuer auds.
        if genuine \<and> alg = ''RS256'' \<and> iss = issuer \<and> - 60 \<le> exp_secs \<and>
           (case auds of None \<Rightarrow> True | Some xs \<Rightarrow> (case aud of None \<Rightarrow> False | Some a \<Rightarrow> a \<in> set xs))
        then Some sub else None)\<rparr>"

definition registry_with :: "string \<Rightarrow> string \<Rightarrow> string list \<Rightarrow> identity_registry" where
  "registry_with issuer source auds =
     [(issuer, \<lparr>ip_issuer = issuer, ip_source = source, ip_jwks_file = ''issuer.jwks.json'',
        ip_audiences = auds, ip_algorithms = default_algorithms\<rparr>)]"

definition present :: "(unit, unit) jwt \<Rightarrow> identity_registry \<Rightarrow> identity_error + actor" where
  "present jw reg = verify_token jw (\<lambda>p. if p = ''issuer.jwks.json'' then Some [] else None) ''token'' reg"

abbreviation issuer_example :: string where
  "issuer_example \<equiv> ''https://issuer.example''"

definition verified_token_yields_a_verified_actor :: bool where
  "verified_token_yields_a_verified_actor \<longleftrightarrow>
     (case present (signed ''alice'' issuer_example None 300 True) (registry_with issuer_example ''oidc'' []) of
        Inl _ \<Rightarrow> False
      | Inr a \<Rightarrow> ac_assurance a = ''verified'' \<and> ac_source a = ''oidc'' \<and>
          ac_id a = ''oidc:https://issuer.example#alice'' \<and> is_verified a)"

definition wrong_issuer_is_rejected :: bool where
  "wrong_issuer_is_rejected \<longleftrightarrow>
     \<not> is_ok (present (signed ''alice'' ''https://evil.example'' None 300 True) (registry_with issuer_example ''oidc'' []))"

definition expired_token_is_rejected :: bool where
  "expired_token_is_rejected \<longleftrightarrow>
     present (signed ''alice'' issuer_example None (- 3600) True) (registry_with issuer_example ''oidc'' []) =
       Inl (RejectedByAll [issuer_example])"

definition tampered_token_is_rejected :: bool where
  "tampered_token_is_rejected \<longleftrightarrow>
     \<not> is_ok (present (signed ''alice'' issuer_example None 300 False) (registry_with issuer_example ''oidc'' []))"

definition empty_registry_refuses_a_presented_token :: bool where
  "empty_registry_refuses_a_presented_token \<longleftrightarrow>
     present (signed ''alice'' issuer_example None 300 True) [] = Inl NoIssuers"

definition audience_is_enforced_when_pinned :: bool where
  "audience_is_enforced_when_pinned \<longleftrightarrow>
     (let reg = registry_with issuer_example ''oidc'' [''uni-cli''] in
      is_ok (present (signed ''alice'' issuer_example (Some ''uni-cli'') 300 True) reg) \<and>
      \<not> is_ok (present (signed ''alice'' issuer_example (Some ''other'') 300 True) reg))"

definition spiffe_subject_must_be_a_spiffe_id :: bool where
  "spiffe_subject_must_be_a_spiffe_id \<longleftrightarrow>
     (let reg = registry_with ''acme.example'' ''spiffe'' [] in
      (case present (signed ''spiffe://acme.example/verifier/build-12'' ''acme.example'' None 300 True) reg of
         Inl _ \<Rightarrow> False
       | Inr a \<Rightarrow> ac_source a = ''spiffe'' \<and> ac_id a = ''spiffe://acme.example/verifier/build-12'') \<and>
      \<not> is_ok (present (signed ''alice'' ''acme.example'' None 300 True) reg))"

text \<open>The three configurations of the loading test, parsed.\<close>

definition issuer_config :: "string \<Rightarrow> toml btree \<Rightarrow> toml" where
  "issuer_config issuer t = TTable [(''identities'', TTable [(issuer, TTable t)])]"

definition load_identities_refuses_half_wired_entries :: bool where
  "load_identities_refuses_half_wired_entries \<longleftrightarrow>
     (let load = (\<lambda>issuer t. load_identities (\<lambda>_. Some (issuer_config issuer t)) ''/d'' (Some [])) in
      (case load issuer_example
              [(''algorithms'', TArray [TString ''RS256'']), (''audiences'', TArray [TString ''uni-cli'']),
               (''jwks_file'', TString ''issuer.jwks.json'')] of
         Inl _ \<Rightarrow> False
       | Inr reg \<Rightarrow>
           (case bt_get reg issuer_example of None \<Rightarrow> False
            | Some p \<Rightarrow> ip_source p = ''oidc'' \<and> ip_audiences p = [''uni-cli''] \<and>
                ip_jwks_file p = ''/d/issuer.jwks.json'')) \<and>
      \<not> is_ok (load issuer_example [(''audiences'', TArray [TString ''x''])]) \<and>
      \<not> is_ok (load ''x'' [(''jwks_file'', TString ''j.json''), (''source'', TString ''ldap'')]))"

lemma identity_tests_hold:
  "verified_token_yields_a_verified_actor" "wrong_issuer_is_rejected" "expired_token_is_rejected"
  "tampered_token_is_rejected" "empty_registry_refuses_a_presented_token" "audience_is_enforced_when_pinned"
  "spiffe_subject_must_be_a_spiffe_id" "load_identities_refuses_half_wired_entries"
  by code_simp+

subsection \<open>The journal\<close>

definition write_live :: "string \<Rightarrow> journal_dir \<Rightarrow> journal_dir" where
  "write_live t d = (live_name, t) # remove_file live_name d"

definition drive_rotations :: "string list \<Rightarrow> journal_dir" where
  "drive_rotations stamps =
     fold (\<lambda>s d. rotate_if_needed 1024 s (write_live (replicate 2048 (CHR ''x'')) d)) stamps []"

text \<open>The stamps are those of the rotations, which the test keeps a second apart.\<close>

definition rotates_past_the_cap :: "string list \<Rightarrow> bool" where
  "rotates_past_the_cap stamps \<longleftrightarrow>
     (let first = drive_rotations (take 1 stamps); kept = archives (drive_rotations stamps) in
      archives first \<noteq> [] \<and> map_of first live_name = None \<and>
      length kept = KEEP_ARCHIVES \<and> sorted kept)"

definition under_the_cap_nothing_happens :: "string \<Rightarrow> bool" where
  "under_the_cap_nothing_happens s \<longleftrightarrow>
     (let d = [(live_name, replicate 10 (CHR ''x''))] in
      rotate_if_needed 1024 s d = d \<and> archives d = [])"

lemma utf8_len_replicate: "utf8_len (replicate n (CHR ''x'')) = n"
  by (induction n) (simp_all add: utf8_len_def)

lemma archives_write_live: "archives (write_live t d) = archives d"
  using live_not_archive
  by (auto simp: archives_def write_live_def remove_file_def filter_map o_def
      intro!: arg_cong [where f = sort] arg_cong [where f = "map fst"] filter_cong)

lemma distinct_write_live: "distinct (map fst d) \<Longrightarrow> distinct (map fst (write_live t d))"
  by (auto simp: write_live_def remove_file_def distinct_map_filter)

lemma distinct_rename: "distinct (map fst d) \<Longrightarrow> distinct (map fst (rename_file a b d))"
  by (auto simp: rename_file_def remove_file_def distinct_map_filter split: option.splits)

lemma distinct_prune: "distinct (map fst d) \<Longrightarrow> distinct (map fst (prune_archives k d))"
  by (simp add: prune_archives_def prune_loop_eq distinct_map_filter)

definition newest :: "string list \<Rightarrow> string list" where
  "newest as = drop (length as - KEEP_ARCHIVES) as"

lemma rotate_once:
  assumes d: "distinct (map fst d)" and a: "\<forall>x\<in>set (archives d). x < archive_name s"
  defines "e \<equiv> rotate_if_needed 1024 s (write_live (replicate 2048 (CHR ''x'')) d)"
  shows "distinct (map fst e) \<and> archives e = newest (archives d @ [archive_name s])"
proof -
  let ?w = "write_live (replicate 2048 (CHR ''x'')) d"
  have m: "map_of ?w live_name = Some (replicate 2048 (CHR ''x''))" by (simp add: write_live_def)
  have e: "e = prune_archives KEEP_ARCHIVES (rename_file live_name (archive_name s) ?w)"
    by (simp add: e_def rotate_if_needed_def m utf8_len_replicate)
  have w: "distinct (map fst ?w)" using distinct_write_live [OF d] .
  have r: "archives (rename_file live_name (archive_name s) ?w) = archives d @ [archive_name s]"
    using archives_rename [OF m] a archive_name_is_archive by (simp add: archives_write_live)
  show ?thesis
    unfolding e newest_def using archives_prune [OF distinct_rename [OF w]] distinct_prune [OF distinct_rename [OF w]] r
    by metis
qed

text \<open>Every stamp is later than the ones before it, in the order of the archive names.\<close>

definition later_stamps :: "string list \<Rightarrow> bool" where
  "later_stamps stamps \<longleftrightarrow> sorted_wrt (<) (map archive_name stamps)"

lemma drive_rotations_archives:
  "later_stamps stamps \<Longrightarrow>
     distinct (map fst (drive_rotations stamps)) \<and> archives (drive_rotations stamps) = newest (map archive_name stamps)"
proof (induction stamps rule: rev_induct)
  case Nil
  then show ?case by (simp add: drive_rotations_def newest_def archives_def)
next
  case (snoc s stamps)
  let ?d = "drive_rotations stamps" and ?as = "map archive_name stamps"
  have IH: "distinct (map fst ?d)" "archives ?d = newest ?as"
    using snoc by (simp_all add: later_stamps_def sorted_wrt_append)
  have "\<forall>x\<in>set ?as. x < archive_name s" using snoc.prems by (simp add: later_stamps_def sorted_wrt_append)
  then have "\<forall>x\<in>set (archives ?d). x < archive_name s"
    unfolding IH(2) newest_def using in_set_dropD by fast
  from rotate_once [OF IH(1) this] have
    "distinct (map fst (drive_rotations (stamps @ [s])))"
    "archives (drive_rotations (stamps @ [s])) = newest (newest ?as @ [archive_name s])"
    by (simp_all add: drive_rotations_def IH(2) [unfolded drive_rotations_def])
  moreover have "newest (newest ?as @ [archive_name s]) = newest (map archive_name (stamps @ [s]))"
  proof (cases "length stamps < KEEP_ARCHIVES")
    case False
    then have "length stamps - 2 = Suc (length stamps - KEEP_ARCHIVES)" by arith
    then show ?thesis by (simp add: newest_def Suc_diff_le)
  qed (auto simp: newest_def)
  ultimately show ?case by simp
qed

lemma rotates_past_the_cap_holds:
  assumes "later_stamps stamps" and "KEEP_ARCHIVES \<le> length stamps"
  shows "rotates_past_the_cap stamps"
proof -
  obtain s rest where st: "stamps = s # rest" using assms(2) by (cases stamps) auto
  have "drive_rotations [s] = prune_archives KEEP_ARCHIVES
      (rename_file live_name (archive_name s) (write_live (replicate 2048 (CHR ''x'')) []))"
    by (simp add: drive_rotations_def rotate_if_needed_def write_live_def utf8_len_replicate)
  moreover have "later_stamps [s]" by (simp add: later_stamps_def)
  moreover have "map_of (drive_rotations [s]) live_name = None"
  proof -
    let ?w = "write_live (replicate 2048 (CHR ''x'')) []"
    have "map_of ?w live_name = Some (replicate 2048 (CHR ''x''))" by (simp add: write_live_def)
    moreover have "archives ?w = []" by (simp only: archives_write_live) (simp add: archives_def)
    ultimately show ?thesis
      using rotate_map_of(1) [of ?w "replicate 2048 (CHR ''x'')" 1024 s]
      by (simp add: drive_rotations_def utf8_len_replicate)
  qed
  moreover have "sorted (newest (map archive_name stamps))"
    using assms(1) by (simp add: newest_def later_stamps_def strict_sorted_imp_sorted sorted_wrt_drop)
  ultimately show ?thesis
    using drive_rotations_archives [OF assms(1)] drive_rotations_archives [of "[s]"] assms(2)
    by (simp add: rotates_past_the_cap_def Let_def st newest_def)
qed

lemma under_the_cap_holds: "under_the_cap_nothing_happens s"
  using utf8_len_replicate [of 10] live_not_archive
  by (simp add: under_the_cap_nothing_happens_def rotate_if_needed_def archives_def Let_def)

subsection \<open>The OTLP projection\<close>

definition booking_event :: journal_event where
  "booking_event =
     \<lparr>je_event = ''DecisionIssued'', je_timestamp = ''2026-09-14T10:00:00Z'',
      je_attributes = [(''uni.assurance.level'', JString ''A2''), (''uni.intent.id'', JString ''booking.cancel'')]\<rparr>"

definition json_nth :: "nat \<Rightarrow> json \<Rightarrow> json" where
  "json_nth i v = (case v of JArray xs \<Rightarrow> (if i < length xs then xs ! i else JNull) | _ \<Rightarrow> JNull)"

definition str_len :: "json \<Rightarrow> nat option" where
  "str_len v = (case v of JString s \<Rightarrow> Some (length s) | _ \<Rightarrow> None)"

definition digits_only :: "json \<Rightarrow> bool" where
  "digits_only v = (case v of JString s \<Rightarrow> s \<noteq> [] \<and> list_all (\<lambda>c. c \<in> set ''0123456789'') s | _ \<Rightarrow> False)"

definition otlp_projection_carries_the_attributes :: "otlp_env \<Rightarrow> bool" where
  "otlp_projection_carries_the_attributes env \<longleftrightarrow>
     (let doc = json_nth 0 (json_index (to_otlp env [booking_event]) ''resourceSpans'');
          span = json_nth 0 (json_index (json_nth 0 (json_index doc ''scopeSpans'')) ''spans'');
          attrs = (case json_index span ''attributes'' of JArray xs \<Rightarrow> map (\<lambda>a. json_index a ''key'') xs | _ \<Rightarrow> []) in
      json_index span ''name'' = JString ''DecisionIssued'' \<and>
      str_len (json_index span ''traceId'') = Some 32 \<and> str_len (json_index span ''spanId'') = Some 16 \<and>
      digits_only (json_index span ''startTimeUnixNano'') \<and>
      JString ''uni.intent.id'' \<in> set attrs \<and> JString ''uni.assurance.level'' \<in> set attrs \<and>
      json_index (json_index (json_nth 0 (json_index (json_index doc ''resource'') ''attributes'')) ''value'') ''stringValue'' =
        JString ''uni'')"

lemma show_nat_digits: "list_all (\<lambda>c. c \<in> set ''0123456789'') (show_nat n)"
proof (induction n rule: show_nat.induct)
  case (1 n)
  have "\<forall>d\<in>set [0..<10]. char_of (48 + d) \<in> set ''0123456789''" by code_simp
  then have d: "d < 10 \<Longrightarrow> char_of (48 + d :: nat) \<in> set ''0123456789''" for d by simp
  show ?case
  proof (cases "n < 10")
    case True
    then show ?thesis using d [of n] by (subst show_nat.simps) (simp del: list.set)
  next
    case False
    then show ?thesis using "1" [OF False] d [of "n mod 10"]
      by (subst show_nat.simps) (simp del: list.set)
  qed
qed

text \<open>The digest has at least 16 bytes, and the instant is one chrono reads, after 1970.\<close>

lemma otlp_test_holds:
  assumes "16 \<le> length (ot_digest env ''booking.cancel'')" and "16 \<le> length (ot_digest env (ot_event_text env booking_event))"
    and "ot_nanos env ''2026-09-14T10:00:00Z'' = Some (Some n)" and "0 \<le> n"
  shows "otlp_projection_carries_the_attributes env"
  using assms show_nat_digits [of "nat n"]
  by (simp add: otlp_projection_carries_the_attributes_def to_otlp_def otlp_span_def json_nth_def str_len_def
      digits_only_def trace_id_def span_id_def event_intent_def booking_event_def nanos_text_def show_int_def
      sha256_hex_def length_hex_encode string_value_def json_value_simps json_str_def bt_get_def Let_def)

end
