(* ===== verification/Study_Ledgers.thy ===== *)
theory Study_Ledgers
  imports Prelude Ordered_Map "HOL-Library.Word"
begin

section \<open>The ledgers of the study tasks (experiments/study-50, t11 and t12)\<close>

text \<open>
  The crates the study's agents start from. \<open>t12\<close> is a ledger with a derived index: accounts,
  their owners, and a running total per owner kept by every mutation; its frozen invariant
  tests recompute the index from the accounts. \<open>t11\<close> is a ledger with holds and their
  settlement. Amounts are 64-bit words with the wrap-around of a release build; where nothing
  wraps, and so a debug build does not panic either, is proved.
\<close>

type_synonym i64 = "64 word"
type_synonym u64 = "64 word"

datatype ledger_error =
    NegativeOpening
  | AccountExists string
  | AmountNotPositive
  | UnknownAccount
  | InsufficientBalance string
  | UnknownHold u64
  | AlreadySettled u64
  | NotImplemented string

subsection \<open>Sums over a map of amounts\<close>

definition amount_of :: "i64 btree \<Rightarrow> string \<Rightarrow> i64" where
  "amount_of m k = (case bt_get m k of Some v \<Rightarrow> v | None \<Rightarrow> 0)"

text \<open>\<open>*m.entry(k).or_insert(0) += d\<close>\<close>

definition add_to :: "string \<Rightarrow> i64 \<Rightarrow> i64 btree \<Rightarrow> i64 btree" where
  "add_to k d m = bt_insert k (amount_of m k + d) m"

definition sum_where :: "(string \<Rightarrow> bool) \<Rightarrow> ('v \<Rightarrow> 'a :: ab_group_add) \<Rightarrow> 'v btree \<Rightarrow> 'a" where
  "sum_where P f m = sum_list (map (\<lambda>e. if P (fst e) then f (snd e) else 0) m)"

lemma sum_where_Cons: "sum_where P f (e # m) = (if P (fst e) then f (snd e) else 0) + sum_where P f m"
  by (simp add: sum_where_def)

lemma sum_where_insert:
  "bt_ok m \<Longrightarrow> sum_where P f (bt_insert k v m) =
     sum_where P f m + (if P k then f v - (case bt_get m k of Some x \<Rightarrow> f x | None \<Rightarrow> 0) else 0)"
proof (induction m)
  case Nil
  then show ?case by (simp add: sum_where_def)
next
  case (Cons e m)
  have ok: "bt_ok m" and lt: "\<forall>x\<in>set (bt_keys m). fst e < x"
    using Cons.prems by (simp_all add: bt_ok_def bt_keys_def)
  consider "k = fst e" | "fst e < k" | "k < fst e" by (rule linorder_cases) auto
  then show ?case
  proof cases
    case 1
    then show ?thesis by (simp add: sum_where_Cons bt_get_def)
  next
    case 2
    then have "bt_get (e # m) k = bt_get m k" by (cases e) (auto simp: bt_get_def)
    with 2 show ?thesis using Cons.IH [OF ok] by (auto simp: sum_where_Cons)
  next
    case 3
    then have "k \<notin> set (bt_keys (e # m))" using lt by (auto simp: bt_keys_def dest: less_trans)
    then have "bt_get (e # m) k = None" by (simp add: bt_get_None_keys)
    with 3 show ?thesis by (auto simp: sum_where_Cons)
  qed
qed

lemma sum_where_cong:
  "(\<And>k. k \<in> set (bt_keys m) \<Longrightarrow> P k = Q k) \<Longrightarrow> sum_where P f m = sum_where Q f m"
  by (auto simp: sum_where_def bt_keys_def intro!: arg_cong [where f = sum_list])

lemma sum_where_add_to [simp]:
  "bt_ok m \<Longrightarrow> sum_where P (\<lambda>v. v) (add_to k d m) = sum_where P (\<lambda>v. v) m + (if P k then d else 0)"
  by (simp add: add_to_def sum_where_insert amount_of_def split: option.splits)

lemma amount_of_add_to [simp]:
  "bt_ok m \<Longrightarrow> amount_of (add_to k d m) j = amount_of m j + (if j = k then d else 0)"
  by (simp add: add_to_def amount_of_def bt.get_ins)

lemma bt_ok_add_to [simp]: "bt_ok m \<Longrightarrow> bt_ok (add_to k d m)"
  by (simp add: add_to_def bt.ok_ins)

lemma keys_add_to [simp]: "set (bt_keys (add_to k d m)) = insert k (set (bt_keys m))"
  by (simp add: add_to_def keys_bt_insert)

lemma amount_of_Nil [simp]: "amount_of [] k = 0"
  by (simp add: amount_of_def)

subsection \<open>The ledger with a derived index (t12)\<close>

record movement =
  mv_from :: string
  mv_to :: string
  mv_amount :: i64

record ledger =
  ld_accounts :: "i64 btree"
  ld_owner_of :: "string btree"
  ld_by_owner :: "i64 btree"

definition ledger_new :: ledger where
  "ledger_new = \<lparr>ld_accounts = [], ld_owner_of = [], ld_by_owner = []\<rparr>"

definition ledger_open :: "string \<Rightarrow> string \<Rightarrow> i64 \<Rightarrow> ledger \<Rightarrow> ledger_error + ledger" where
  "ledger_open account owner amount l =
     (if sint amount < 0 then Inl NegativeOpening
      else if bt_get (ld_accounts l) account \<noteq> None then Inl (AccountExists account)
      else Inr
        (l\<lparr>ld_accounts := bt_insert account amount (ld_accounts l),
           ld_owner_of := bt_insert account owner (ld_owner_of l),
           ld_by_owner := add_to owner amount (ld_by_owner l)\<rparr>))"

definition balance :: "ledger \<Rightarrow> string \<Rightarrow> i64" where
  "balance l account = amount_of (ld_accounts l) account"

definition owner_total :: "ledger \<Rightarrow> string \<Rightarrow> i64" where
  "owner_total l owner = amount_of (ld_by_owner l) owner"

definition owner_name :: "ledger \<Rightarrow> string \<Rightarrow> string" where
  "owner_name l account = (case bt_get (ld_owner_of l) account of Some x \<Rightarrow> x | None \<Rightarrow> [])"

definition ledger_snapshot :: "ledger \<Rightarrow> (string \<times> string \<times> i64) list" where
  "ledger_snapshot l = map (\<lambda>(account, b). (account, owner_name l account, b)) (ld_accounts l)"

definition ledger_total :: "ledger \<Rightarrow> i64" where
  "ledger_total l = sum_list (map snd (ld_accounts l))"

definition check_movement :: "ledger \<Rightarrow> movement \<Rightarrow> ledger_error + unit" where
  "check_movement l e =
     (if sint (mv_amount e) \<le> 0 then Inl AmountNotPositive
      else if bt_get (ld_accounts l) (mv_from e) = None \<or> bt_get (ld_accounts l) (mv_to e) = None
      then Inl UnknownAccount
      else if sint (balance l (mv_from e)) < sint (mv_amount e) then Inl (InsufficientBalance (mv_from e))
      else Inr ())"

definition ledger_apply :: "movement \<Rightarrow> ledger \<Rightarrow> ledger_error + ledger" where
  "ledger_apply e l =
     (case check_movement l e of Inl x \<Rightarrow> Inl x
      | Inr _ \<Rightarrow>
          let from_owner = owner_name l (mv_from e); to_owner = owner_name l (mv_to e);
              l1 = l\<lparr>ld_accounts := add_to (mv_to e) (mv_amount e) (add_to (mv_from e) (- mv_amount e) (ld_accounts l))\<rparr> in
          Inr (if from_owner \<noteq> to_owner
               then l1\<lparr>ld_by_owner := add_to to_owner (mv_amount e) (add_to from_owner (- mv_amount e) (ld_by_owner l1))\<rparr>
               else l1))"

definition apply_atomic :: "movement list \<Rightarrow> ledger \<Rightarrow> ledger_error + nat \<times> ledger" where
  "apply_atomic es l = Inl (NotImplemented ''apply_atomic is not implemented'')"

subsection \<open>What the frozen tests recompute\<close>

definition recomputed_by_owner :: "ledger \<Rightarrow> i64 btree" where
  "recomputed_by_owner l = fold (\<lambda>(_, owner, b). add_to owner b) (ledger_snapshot l) []"

definition index_matches :: "ledger \<Rightarrow> bool" where
  "index_matches l \<longleftrightarrow>
     (let expected = recomputed_by_owner l in
      list_all (\<lambda>(owner, want). owner_total l owner = want) expected \<and>
      list_all (\<lambda>owner. owner_total l owner = amount_of expected owner) [''alice'', ''bob'', ''carol''])"

subsection \<open>The invariant\<close>

text \<open>The owner's balance by the accounts, read as words and as integers.\<close>

definition owned :: "ledger \<Rightarrow> string \<Rightarrow> i64" where
  "owned l owner = sum_where (\<lambda>a. owner_name l a = owner) (\<lambda>v. v) (ld_accounts l)"

definition coherent :: "ledger \<Rightarrow> bool" where
  "coherent l \<longleftrightarrow> bt_ok (ld_accounts l) \<and> bt_ok (ld_owner_of l) \<and> bt_ok (ld_by_owner l) \<and>
     (\<forall>owner. owner_total l owner = owned l owner)"

lemma ledger_new_coherent: "coherent ledger_new"
  by (simp add: coherent_def ledger_new_def owned_def owner_total_def sum_where_def)

lemma ledger_open_fields:
  assumes "ledger_open account owner amount l = Inr l'"
  shows "0 \<le> sint amount" and "bt_get (ld_accounts l) account = None"
    and "ld_accounts l' = bt_insert account amount (ld_accounts l)"
    and "ld_owner_of l' = bt_insert account owner (ld_owner_of l)" and "ld_by_owner l' = add_to owner amount (ld_by_owner l)"
proof -
  have "0 \<le> sint amount \<and> bt_get (ld_accounts l) account = None \<and>
      l' = l\<lparr>ld_accounts := bt_insert account amount (ld_accounts l),
           ld_owner_of := bt_insert account owner (ld_owner_of l), ld_by_owner := add_to owner amount (ld_by_owner l)\<rparr>"
    using assms unfolding ledger_open_def
    by (cases "sint amount < 0"; cases "bt_get (ld_accounts l) account = None") simp_all
  then show "0 \<le> sint amount" "bt_get (ld_accounts l) account = None"
    "ld_accounts l' = bt_insert account amount (ld_accounts l)"
    "ld_owner_of l' = bt_insert account owner (ld_owner_of l)" "ld_by_owner l' = add_to owner amount (ld_by_owner l)"
    by simp_all
qed

lemma ledger_open_coherent:
  assumes c: "coherent l" and o: "ledger_open account owner amount l = Inr l'"
  shows "coherent l'"
proof -
  have ok: "bt_ok (ld_accounts l)" "bt_ok (ld_owner_of l)" "bt_ok (ld_by_owner l)" using c by (simp_all add: coherent_def)
  note new = ledger_open_fields(2) [OF o] and l' = ledger_open_fields(3-5) [OF o]
  have n: "owner_name l' a = (if a = account then owner else owner_name l a)" for a
    by (simp add: owner_name_def l' bt.get_ins ok)
  have "owned l' x = owned l x + (if owner = x then amount else 0)" for x
  proof -
    have "sum_where (\<lambda>a. owner_name l' a = x) (\<lambda>v. v) (ld_accounts l) = owned l x"
      unfolding owned_def using new by (intro sum_where_cong) (auto simp: n bt_get_None_keys)
    then show ?thesis by (simp add: owned_def l' sum_where_insert ok new n)
  qed
  then show ?thesis using c ok by (auto simp: coherent_def l' bt.ok_ins owner_total_def)
qed

lemma ledger_apply_fields:
  assumes "ledger_apply e l = Inr l'"
  shows "check_movement l e = Inr ()"
    and "ld_accounts l' = add_to (mv_to e) (mv_amount e) (add_to (mv_from e) (- mv_amount e) (ld_accounts l))"
    and "ld_owner_of l' = ld_owner_of l"
    and "ld_by_owner l' = (if owner_name l (mv_from e) \<noteq> owner_name l (mv_to e)
      then add_to (owner_name l (mv_to e)) (mv_amount e) (add_to (owner_name l (mv_from e)) (- mv_amount e) (ld_by_owner l))
      else ld_by_owner l)"
proof -
  let ?fo = "owner_name l (mv_from e)" and ?to = "owner_name l (mv_to e)"
  let ?l1 = "l\<lparr>ld_accounts := add_to (mv_to e) (mv_amount e) (add_to (mv_from e) (- mv_amount e) (ld_accounts l))\<rparr>"
  have c: "check_movement l e = Inr () \<and>
      (if ?fo \<noteq> ?to then ?l1\<lparr>ld_by_owner := add_to ?to (mv_amount e) (add_to ?fo (- mv_amount e) (ld_by_owner ?l1))\<rparr>
       else ?l1) = l'"
    using assms unfolding ledger_apply_def Let_def by (cases "check_movement l e") (simp_all only: sum.case sum.inject sum.distinct simp_thms, rule unit.exhaust)
  then have l': "l' = (if ?fo \<noteq> ?to then ?l1\<lparr>ld_by_owner := add_to ?to (mv_amount e) (add_to ?fo (- mv_amount e) (ld_by_owner ?l1))\<rparr>
       else ?l1)" by (rule conjunct2 [THEN sym])
  from c show "check_movement l e = Inr ()"
    "ld_accounts l' = add_to (mv_to e) (mv_amount e) (add_to (mv_from e) (- mv_amount e) (ld_accounts l))"
    "ld_owner_of l' = ld_owner_of l"
    "ld_by_owner l' = (if ?fo \<noteq> ?to then add_to ?to (mv_amount e) (add_to ?fo (- mv_amount e) (ld_by_owner l))
       else ld_by_owner l)"
    unfolding l' by (rule conjunct1) simp_all
qed

lemma ledger_apply_coherent:
  assumes c: "coherent l" and a: "ledger_apply e l = Inr l'"
  shows "coherent l'"
proof -
  note f = ledger_apply_fields(2-4) [OF a]
  have ok: "bt_ok (ld_accounts l)" "bt_ok (ld_owner_of l)" "bt_ok (ld_by_owner l)" using c by (simp_all add: coherent_def)
  have n: "owner_name l' x = owner_name l x" for x by (simp add: owner_name_def f)
  have "owned l' x = owned l x + (if owner_name l (mv_from e) = x then - mv_amount e else 0) +
      (if owner_name l (mv_to e) = x then mv_amount e else 0)" for x
    by (simp add: owned_def n f ok)
  then show ?thesis using c ok by (auto simp: coherent_def f owner_total_def)
qed

text \<open>Money only moves: the total is that of the openings.\<close>

lemma ledger_total_sum: "ledger_total l = sum_where (\<lambda>_. True) (\<lambda>v. v) (ld_accounts l)"
  by (simp add: ledger_total_def sum_where_def)

lemma ledger_apply_total: "coherent l \<Longrightarrow> ledger_apply e l = Inr l' \<Longrightarrow> ledger_total l' = ledger_total l"
  by (simp add: ledger_total_sum ledger_apply_fields(2) coherent_def)

lemma ledger_open_total:
  "coherent l \<Longrightarrow> ledger_open account owner amount l = Inr l' \<Longrightarrow> ledger_total l' = ledger_total l + amount"
  by (simp add: ledger_total_sum ledger_open_fields(2,3) coherent_def sum_where_insert)

subsection \<open>The index agrees with the accounts\<close>

lemma fold_recomputed:
  "bt_ok m \<Longrightarrow> bt_ok (fold (\<lambda>(_, owner, b). add_to owner b) (map (\<lambda>(a, b). (a, f a, b)) as) m) \<and>
     amount_of (fold (\<lambda>(_, owner, b). add_to owner b) (map (\<lambda>(a, b). (a, f a, b)) as) m) x =
       amount_of m x + sum_where (\<lambda>a. f a = x) (\<lambda>v. v) as"
proof (induction as arbitrary: m)
  case Nil
  then show ?case by (simp add: sum_where_def)
next
  case (Cons e as)
  obtain a b where e: "e = (a, b)" by (cases e)
  show ?case
    using Cons.IH [of "add_to (f a) b m"] Cons.prems by (auto simp: e sum_where_Cons)
qed

lemma recomputed_amount: "bt_ok (recomputed_by_owner l) \<and> amount_of (recomputed_by_owner l) x = owned l x"
  using fold_recomputed [of "[]" "owner_name l" "ld_accounts l" x]
  by (simp add: recomputed_by_owner_def ledger_snapshot_def owned_def)

lemma coherent_index_matches: "coherent l \<Longrightarrow> index_matches l"
proof -
  assume c: "coherent l"
  have t: "owner_total l x = amount_of (recomputed_by_owner l) x" for x
    using c recomputed_amount by (simp add: coherent_def)
  have "amount_of (recomputed_by_owner l) k = v" if "(k, v) \<in> set (recomputed_by_owner l)" for k v
    using that recomputed_amount [of l] bt_get_entry [of "recomputed_by_owner l" k v] by (simp add: amount_of_def)
  then have "list_all (\<lambda>(owner, want). owner_total l owner = want) (recomputed_by_owner l)"
    using t by (auto simp: list_all_iff)
  then show "index_matches l" unfolding index_matches_def Let_def by (simp add: t)
qed

inductive ledger_step :: "ledger \<Rightarrow> ledger \<Rightarrow> bool" where
  opened: "ledger_open account owner amount l = Inr l' \<Longrightarrow> ledger_step l l'"
| applied: "ledger_apply e l = Inr l' \<Longrightarrow> ledger_step l l'"

lemma ledger_step_coherent: "ledger_step l l' \<Longrightarrow> coherent l \<Longrightarrow> coherent l'"
  by (induction rule: ledger_step.induct) (auto intro: ledger_open_coherent ledger_apply_coherent)

interpretation index_ledger: transition_system "\<lambda>l. l = ledger_new" ledger_step coherent
  by unfold_locales (auto simp: ledger_new_coherent intro: ledger_step_coherent)

text \<open>
  After any openings and movements, the check of the frozen tests succeeds on the ledger, and
  every owner's total is the sum of the owner's accounts. This is so whether or not an
  addition wraps around.
\<close>

theorem index_coherent_reachable:
  assumes "ledger_step\<^sup>*\<^sup>* ledger_new l"
  shows "index_matches l \<and> (\<forall>owner. owner_total l owner = owned l owner)"
  using index_ledger.inv_reachable [OF refl assms] coherent_index_matches by (simp add: coherent_def)

subsection \<open>Nothing wraps\<close>

text \<open>
  Nobody overdraws and what was opened is below \<open>2 ^ 63\<close>. Then a movement does in words what it
  does in integers, the balances stay non-negative, and the funds are the same.
\<close>

definition funds :: "ledger \<Rightarrow> int" where
  "funds l = sum_where (\<lambda>_. True) sint (ld_accounts l)"

definition solvent :: "ledger \<Rightarrow> bool" where
  "solvent l \<longleftrightarrow> bt_ok (ld_accounts l) \<and> list_all (\<lambda>e. 0 \<le> sint (snd e)) (ld_accounts l) \<and> funds l < 2 ^ 63"

lemma sint_add_exact:
  fixes a b :: i64
  assumes "- (2 ^ 63) \<le> sint a + sint b" and "sint a + sint b < 2 ^ 63"
  shows "sint (a + b) = sint a + sint b"
  using assms by (simp add: sint_word_ariths signed_take_bit_int_eq_self)

lemma sint_minus_exact:
  fixes a :: i64
  assumes "0 < sint a"
  shows "sint (- a) = - sint a"
  using assms sint_lt [of a] by (simp add: sint_word_ariths signed_take_bit_int_eq_self)

lemma sum_where_nonneg: "list_all (\<lambda>e. 0 \<le> sint (snd e)) m \<Longrightarrow> 0 \<le> sum_where P sint m"
  by (induction m) (auto simp: sum_where_def)

lemma sum_where_one:
  "list_all (\<lambda>e. 0 \<le> sint (snd e)) m \<Longrightarrow> sint (amount_of m x) \<le> sum_where (\<lambda>_. True) sint m"
  by (induction m) (auto simp: amount_of_def bt_get_def sum_where_Cons sum_where_nonneg add_increasing add_increasing2)

lemma add_to_exact:
  assumes "bt_ok m" and "list_all (\<lambda>e. 0 \<le> sint (snd e)) m" and "0 \<le> sint (amount_of m k) + sint d"
    and "sum_where (\<lambda>_. True) sint m + sint d < 2 ^ 63"
  shows "sint (amount_of m k + d) = sint (amount_of m k) + sint d \<and>
    list_all (\<lambda>e. 0 \<le> sint (snd e)) (add_to k d m) \<and>
    sum_where (\<lambda>_. True) sint (add_to k d m) = sum_where (\<lambda>_. True) sint m + sint d"
proof -
  have e: "sint (amount_of m k + d) = sint (amount_of m k) + sint d"
    using assms(3,4) sum_where_one [OF assms(2), of k] by (intro sint_add_exact) simp_all
  have "0 \<le> sint (snd x)" if x: "x \<in> set (add_to k d m)" for x
    using set_bt_insert [OF x [unfolded add_to_def]] assms(2,3) e by (auto simp: list_all_iff)
  then have "list_all (\<lambda>e. 0 \<le> sint (snd e)) (add_to k d m)" by (simp add: list_all_iff)
  moreover have "(case bt_get m k of Some x \<Rightarrow> sint x | None \<Rightarrow> 0) = sint (amount_of m k)"
    by (simp add: amount_of_def split: option.splits)
  then have "sum_where (\<lambda>_. True) sint (add_to k d m) = sum_where (\<lambda>_. True) sint m + sint d"
    using sum_where_insert [OF assms(1), of "\<lambda>_. True" sint k "amount_of m k + d"] e by (simp add: add_to_def)
  ultimately show ?thesis using e by blast
qed

lemma check_movement_ok:
  "check_movement l e = Inr () \<Longrightarrow> 0 < sint (mv_amount e) \<and> sint (mv_amount e) \<le> sint (balance l (mv_from e))"
  by (simp add: check_movement_def split: if_splits)

theorem ledger_apply_exact:
  assumes s: "solvent l" and a: "ledger_apply e l = Inr l'"
  shows "solvent l' \<and> funds l' = funds l \<and>
    (\<forall>x. sint (balance l' x) = sint (balance l x) -
       (if x = mv_from e then sint (mv_amount e) else 0) + (if x = mv_to e then sint (mv_amount e) else 0))"
proof -
  let ?m = "ld_accounts l" and ?d = "mv_amount e"
  let ?m1 = "add_to (mv_from e) (- ?d) ?m"
  note f = ledger_apply_fields [OF a]
  have d: "0 < sint ?d" "sint ?d \<le> sint (amount_of ?m (mv_from e))"
    using check_movement_ok [OF f(1)] by (simp_all add: balance_def)
  have ok: "bt_ok ?m" "list_all (\<lambda>e. 0 \<le> sint (snd e)) ?m" "sum_where (\<lambda>_. True) sint ?m < 2 ^ 63"
    using s by (simp_all add: solvent_def funds_def)
  have n: "sint (- ?d) = - sint ?d" using sint_minus_exact [OF d(1)] .
  have "0 \<le> sint (amount_of ?m (mv_from e)) + sint (- ?d)" "sum_where (\<lambda>_. True) sint ?m + sint (- ?d) < 2 ^ 63"
    using d ok(3) by (simp_all add: n)
  note m1 = add_to_exact [OF ok(1,2) this]
  have ok1: "bt_ok ?m1" using ok(1) by simp
  have nn1: "list_all (\<lambda>e. 0 \<le> sint (snd e)) ?m1" using m1 by blast
  have s1: "sum_where (\<lambda>_. True) sint ?m1 = sum_where (\<lambda>_. True) sint ?m - sint ?d" using m1 n by simp
  have "0 \<le> sint (amount_of ?m1 (mv_to e))"
    using nn1 by (induction ?m1) (auto simp: amount_of_def list_all_iff bt_get_def dest!: map_of_SomeD split: option.splits)
  then have "0 \<le> sint (amount_of ?m1 (mv_to e)) + sint ?d" "sum_where (\<lambda>_. True) sint ?m1 + sint ?d < 2 ^ 63"
    using d(1) ok(3) s1 by simp_all
  note m2 = add_to_exact [OF ok1 nn1 this]
  have sums: "sum_where (\<lambda>_. True) sint (ld_accounts l') = sum_where (\<lambda>_. True) sint ?m"
    using m2 s1 by (simp add: f(2))
  have b: "sint (balance l' x) = sint (balance l x) -
       (if x = mv_from e then sint ?d else 0) + (if x = mv_to e then sint ?d else 0)" for x
    using conjunct1 [OF m1] conjunct1 [OF m2] ok(1) ok1 n by (auto simp: balance_def f(2))
  have "solvent l'" "funds l' = funds l"
    using m2 ok ok1 sums by (auto simp: solvent_def funds_def f(2))
  then show ?thesis using b by blast
qed

subsection \<open>Holds and their settlement (t11)\<close>

definition fund_open :: "string \<Rightarrow> i64 \<Rightarrow> i64 btree \<Rightarrow> ledger_error + i64 btree" where
  "fund_open i amount m =
     (if sint amount < 0 then Inl NegativeOpening
      else if bt_get m i \<noteq> None then Inl (AccountExists i)
      else Inr (bt_insert i amount m))"

definition fund_exists :: "i64 btree \<Rightarrow> string \<Rightarrow> bool" where
  "fund_exists m i \<longleftrightarrow> bt_get m i \<noteq> None"

definition fund_total :: "i64 btree \<Rightarrow> i64" where
  "fund_total m = sum_list (map snd m)"

definition credit :: "string \<Rightarrow> i64 \<Rightarrow> i64 btree \<Rightarrow> i64 btree" where
  "credit i amount m = add_to i amount m"

definition debit :: "string \<Rightarrow> i64 \<Rightarrow> i64 btree \<Rightarrow> i64 btree" where
  "debit i amount m = add_to i (- amount) m"

record hold =
  hd_id :: u64
  hd_from :: string
  hd_to :: string
  hd_amount :: i64
  hd_settled :: bool

record settlement =
  st_holds :: "hold list"
  st_next_id :: u64

definition settlement_new :: settlement where
  "settlement_new = \<lparr>st_holds = [], st_next_id = 0\<rparr>"

definition place_hold ::
  "string \<Rightarrow> string \<Rightarrow> i64 \<Rightarrow> i64 btree \<Rightarrow> settlement \<Rightarrow> ledger_error + u64 \<times> i64 btree \<times> settlement" where
  "place_hold src dst amount m s =
     (if \<not> fund_exists m src \<or> \<not> fund_exists m dst then Inl UnknownAccount
      else if sint amount \<le> 0 then Inl AmountNotPositive
      else if sint (amount_of m src) < sint amount then Inl (InsufficientBalance src)
      else let i = st_next_id s in
        Inr (i, credit dst amount (debit src amount m),
          s\<lparr>st_next_id := i + 1,
            st_holds := st_holds s @
              [\<lparr>hd_id = i, hd_from = src, hd_to = dst, hd_amount = amount, hd_settled = False\<rparr>]\<rparr>))"

text \<open>The first hold with the id, in place.\<close>

fun settle_first :: "u64 \<Rightarrow> hold list \<Rightarrow> ledger_error + hold list" where
  "settle_first i [] = Inl (UnknownHold i)"
| "settle_first i (h # hs) =
     (if hd_id h = i then
        (if hd_settled h then Inl (AlreadySettled i) else Inr (h\<lparr>hd_settled := True\<rparr> # hs))
      else (case settle_first i hs of Inl e \<Rightarrow> Inl e | Inr hs' \<Rightarrow> Inr (h # hs')))"

definition settle :: "u64 \<Rightarrow> settlement \<Rightarrow> ledger_error + settlement" where
  "settle i s =
     (case settle_first i (st_holds s) of Inl e \<Rightarrow> Inl e | Inr hs \<Rightarrow> Inr (s\<lparr>st_holds := hs\<rparr>))"

definition settle_with_fee :: "i64 btree \<Rightarrow> u64 \<Rightarrow> u64 \<Rightarrow> settlement \<Rightarrow> ledger_error + i64 \<times> i64 btree \<times> settlement" where
  "settle_with_fee m i fee_bps s = Inl (NotImplemented ''settle_with_fee is not implemented'')"

text \<open>The ids are the positions of the holds, as long as there are fewer than \<open>2 ^ 64\<close>.\<close>

definition settlement_ok :: "settlement \<Rightarrow> bool" where
  "settlement_ok s \<longleftrightarrow> map hd_id (st_holds s) = map of_nat [0..<length (st_holds s)] \<and>
     st_next_id s = of_nat (length (st_holds s))"

lemma settlement_new_ok: "settlement_ok settlement_new"
  by (simp add: settlement_ok_def settlement_new_def)

lemma place_hold_fields:
  assumes "place_hold src dst amount m s = Inr (i, m', s')"
  shows "i = st_next_id s" and "m' = credit dst amount (debit src amount m)"
    and "st_next_id s' = st_next_id s + 1" and "map hd_id (st_holds s') = map hd_id (st_holds s) @ [st_next_id s]"
  using assms by (auto simp: place_hold_def Let_def split: if_splits)

theorem place_hold_sound:
  assumes "place_hold src dst amount m s = Inr (i, m', s')" and "bt_ok m" and "settlement_ok s"
  shows "fund_total m' = fund_total m \<and> bt_ok m' \<and> settlement_ok s' \<and>
    (\<forall>x. amount_of m' x = amount_of m x - (if x = src then amount else 0) + (if x = dst then amount else 0))"
proof -
  note f = place_hold_fields [OF assms(1)]
  have t: "fund_total n = sum_where (\<lambda>_. True) (\<lambda>v. v) n" for n by (simp add: fund_total_def sum_where_def)
  have "length (st_holds s') = Suc (length (st_holds s))" using f(4) by (metis length_append_singleton length_map)
  then have "settlement_ok s'" using assms(3) by (simp add: settlement_ok_def f)
  then show ?thesis using assms(2) by (simp add: t f credit_def debit_def)
qed

lemma settle_first_ids: "settle_first i hs = Inr hs' \<Longrightarrow> map hd_id hs' = map hd_id hs"
  by (induction hs arbitrary: hs') (auto split: if_splits sum.splits)

lemma settle_first_settled:
  "settle_first i hs = Inr hs' \<Longrightarrow> settle_first i hs' = Inl (AlreadySettled i)"
  by (induction hs arbitrary: hs') (auto split: if_splits sum.splits)

text \<open>A hold that was settled is never settled again, and nothing else is touched by settling.\<close>

theorem settle_once:
  assumes "settle i s = Inr s'"
  shows "settle i s' = Inl (AlreadySettled i) \<and> map hd_id (st_holds s') = map hd_id (st_holds s) \<and>
    st_next_id s' = st_next_id s"
  using assms by (auto simp: settle_def settle_first_ids settle_first_settled split: sum.splits)

end
