(* ===== verification/Spec2Isabelle.thy ===== *)
theory Spec2Isabelle
  imports Documents Parser_Facts IR Evidence_Facts Decision Policy Bindings Registry Artifacts
    Verifiers Trust_Boundary Identity Journal Lock_Progress Verify_Again
    Lint Authorize_Cmd Run_Cmd Bundle_Export Speckit_Parse Reachable Persist_Order Console_Facts
    Decision_Tests Store_Tests Contract_Tests Study_Ledgers
begin

text \<open>
  A verification development of the UNI outcome assurance protocol (the Rust crates under
  src/crates).

  \<^bold>\<open>The program.\<close> A contract is a text of directives (claims, their verifications, an
  acceptance condition). \<open>uni-parser\<close> parses it, \<open>uni-ir\<close> compiles it, \<open>uni-verify\<close> runs the
  verifiers a trusted registry names and wraps what they report in evidence records,
  \<open>uni-evidence\<close> stores those records and decides whether a stored one still covers what is
  being delivered, \<open>uni-decision\<close> turns records into a decision under a policy, and \<open>uni-cli\<close>
  composes them in \<open>uni verify\<close>. Humans authorize which verifier proves which claim
  (\<open>binding.rs\<close>), and a verified token can name the actor (\<open>identity.rs\<close>). Around the verify
  loop \<open>uni-cli\<close> has commands that prepare it (init, import, lint, bind, brief), run it after an
  executor (run), and show or ship what it decided (report, explain, events, bundle, doctor).

  \<^bold>\<open>The theories\<close>, in the order of the program:
  \<^item> \<^verbatim>\<open>Prelude\<close>, \<^verbatim>\<open>Rust_Strings\<close>, \<^verbatim>\<open>Ordered_Map\<close>: results with the question-mark operator, loops
    that stop at the first error, the string operations of Rust the sources use, and
    \<open>BTreeMap<String, _>\<close> (locale \<open>string_map\<close>, interpreted as \<open>bt\<close>). A transition system is the
    locale \<open>transition_system\<close>, interpreted for the directory lock and for the workspace.
  \<^item> \<^verbatim>\<open>Parser\<close>, \<^verbatim>\<open>Parser_Facts\<close>: \<open>parse\<close> of uni-parser/src/lib.rs as a loop over numbered lines, one
    definition per directive, each error a constructor of \<open>parse_error\<close>; well-formedness of
    every accepted contract, the reserved directives, the accepted vocabulary.
  \<^item> \<^verbatim>\<open>IR\<close>: \<open>compile\<close> of uni-ir/src/lib.rs and its duplicate check; what a compiled contract
    satisfies.
  \<^item> \<^verbatim>\<open>Evidence\<close>, \<^verbatim>\<open>Evidence_Facts\<close>: the records, actors, the evidence directory (locale
    \<open>evidence_store\<close>, interpreted as \<open>ed\<close>), \<open>load_valid_for_claim\<close> with every reason of staleness;
    a hit is exactly a stored record that covers the context.
  \<^item> \<^verbatim>\<open>Lock\<close>, \<^verbatim>\<open>Lock_Progress\<close>: \<open>DirLock\<close> as a step relation over interleaved processes; mutual
    exclusion under timely holders, its failure after a crash, and that every scheduled attempt
    ends after at most \<open>3 * n + 1\<close> operations of its own.
  \<^item> \<^verbatim>\<open>Bindings\<close>: uni-evidence/src/binding.rs, the authorized bindings with the two acts that make
    them (locale \<open>binding_store\<close>).
  \<^item> \<^verbatim>\<open>Decision\<close>, \<^verbatim>\<open>Policy\<close>: uni-decision/src/lib.rs, the truth table, the assurance scale, the policy
    layer and its two providers (locale \<open>policy_provider\<close>); binary64 quotients in \<^verbatim>\<open>Documents\<close>,
    together with the TOML and JSON values.
  \<^item> \<^verbatim>\<open>Registry\<close>, \<^verbatim>\<open>Artifacts\<close>, \<^verbatim>\<open>Verifiers\<close>, \<^verbatim>\<open>Trust_Boundary\<close>: uni-verify/src/lib.rs, the registry of
    trusted commands, the watched files, the two adapters with \<open>run_spec\<close> (locale
    \<open>sound_verifier\<close>), and the diff of two registries.
  \<^item> \<^verbatim>\<open>Identity\<close>: uni-verify/src/identity.rs, pinned issuers and tokens.
  \<^item> \<^verbatim>\<open>Journal\<close>: uni-cli/src/events.rs, the JSON value of an event and its decoding, rotation,
    retention, append and reading.
  \<^item> \<^verbatim>\<open>Verify_Cmd\<close>: \<open>cmd_verify\<close> of uni-cli/src/cmd/verify.rs, whole: \<open>gather\<close> is everything up to
    the decision (load the contract, choose the actor, \<open>scan_one\<close> for each verification,
    \<open>run_one\<close> for each that has no proof), \<open>save_run\<close> what is persisted. The state is the record
    \<open>uni_dir\<close>, the decoded \<open>.uni\<close> directory.
  \<^item> \<^verbatim>\<open>Verify_Facts\<close>, \<^verbatim>\<open>Verify_State\<close>, \<^verbatim>\<open>Verify_Again\<close>: no false accept end to end, the registry as
    the only source of commands, the authorization gate, what a run leaves in the directory
    when it completes and when it does not, and that a run repeated on an unchanged machine
    executes nothing.
  \<^item> \<^verbatim>\<open>Lint\<close>: \<open>cmd_lint\<close> of uni-cli/src/cmd/contract.rs, its findings in the order they are
    pushed; the lint predicts the authorization gate exactly.
  \<^item> \<^verbatim>\<open>Authorize_Cmd\<close>: \<open>cmd_bind\<close> and \<open>cmd_bindings\<close> of cmd/authorize.rs; what an act changes, and
    when the command the gate proposes opens the gate.
  \<^item> \<^verbatim>\<open>Brief\<close>, \<^verbatim>\<open>Run_Cmd\<close>: the work order of brief.rs and cmd/handoff.rs with its text, and \<open>cmd_run\<close>
    of cmd/verify.rs with the executor as a parameter; the executor's report decides nothing,
    and the selector token never reaches the worker.
  \<^item> \<^verbatim>\<open>Bundle\<close>, \<^verbatim>\<open>Bundle_Facts\<close>, \<^verbatim>\<open>Bundle_Export\<close>: bundle.rs, export and offline verification; both
    verdicts characterized over the decoded records, and the round trip of an export.
  \<^item> \<^verbatim>\<open>Report\<close>, \<^verbatim>\<open>Report_Facts\<close>: cmd/report.rs over the stored decision as JSON; the report agrees
    with the exit status of the run, and the files named by annotations.
  \<^item> \<^verbatim>\<open>Speckit\<close>, \<^verbatim>\<open>Speckit_Facts\<close>, \<^verbatim>\<open>Speckit_Parse\<close>: cmd/speckit.rs, the line scanner and the printed
    candidate; the claims it extracts, and that the candidate parses back to them.
  \<^item> \<^verbatim>\<open>Workspace\<close>: init, compile, doctor, events with the OTLP projection, and packs.
  \<^item> \<^verbatim>\<open>Session\<close>, \<^verbatim>\<open>Reachable\<close>: the subcommands and dispatch of main.rs, as what each does to the
    directory. Across any sequence of commands only \<open>uni bind\<close> authorizes; the workspace is a
    second interpretation of \<open>transition_system\<close>, with the invariant of every directory it
    reaches.
  \<^item> \<^verbatim>\<open>Persist\<close>, \<^verbatim>\<open>Persist_Order\<close>: the persist phase of \<open>cmd_verify\<close> as the list of its file
    operations; what a process that dies among them leaves, the workspace in which runs may die
    (a third interpretation), and runs interleaved under the directory lock (a fourth), which
    are serialized in the order of the lock.
  \<^item> \<^verbatim>\<open>Console\<close>, \<^verbatim>\<open>Console_Facts\<close>: the lines and JSON documents the commands print, as code points;
    the displays of a decision agree with the run.
  \<^item> \<^verbatim>\<open>Decision_Tests\<close>, \<^verbatim>\<open>Verify_Tests\<close>, \<^verbatim>\<open>Store_Tests\<close>, \<^verbatim>\<open>Contract_Tests\<close>: the crates' own unit
    and property tests as predicates over the model, each proved to hold. The property tests
    hold for every input, without their sampling bounds; the shell and the signed tokens of the
    tests are instances of the parameters.
  \<^item> \<^verbatim>\<open>Study_Ledgers\<close>: the ledgers of the study tasks t11 and t12, on 64-bit words: the derived index
    agrees with the accounts in every reachable ledger (a fifth interpretation of
    \<open>transition_system\<close>), movements are exact while nobody overdraws, and a hold settles once.

  \<^bold>\<open>Parameters.\<close> What is not in the repository is an argument: SHA-256 (a function to bytes; where
  a theorem needs that its results are bytes it says so with \<open>byte_digest\<close>), git, the clock and
  the processes (record \<open>os\<close>), the TOML and JSON parsers, serde's printers, chrono's printers and
  its range, the jsonwebtoken crate (record \<open>jwt\<close>), the opa binary.

  \<^bold>\<open>Bounds.\<close> No fuel is used: every loop is a structural recursion or, for the directory walk and
  the exponent of a quotient, a function with a termination measure. Text is limited to code
  points below 256. Ratios are computed in binary64 for counts below \<open>2 ^ 53\<close>. Timeouts and ages
  are the 64-bit values that \<open>as u64\<close> gives.

  \<^bold>\<open>Not modelled:\<close> the parsing of the command line (clap); the JSON \<open>uni import-speckit\<close> prints
  (its parts are); what goes to standard error. These hold no state of the program. Writing
  files is taken to succeed except where a process dies, verifier commands are taken not to
  write into \<open>.uni\<close>, and symbolic links and undecodable file names do not occur. Of the
  programs under experiments, which are inputs of a study and not parts of the protocol, the
  two ledgers of t11 and t12 are modelled.
\<close>

end
